(* ===== verification/Cpp_Std.thy ===== *)
theory Cpp_Std
  imports Main "HOL-Library.Word" "HOL-Library.Sublist"
begin

section \<open>Prelude: the C++ standard library as the sources use it, and the error type\<close>

text \<open>
  Strings are byte strings (\<^typ>\<open>string\<close>, a list of 8-bit \<^typ>\<open>char\<close>), as
  \<^verbatim>\<open>std::string\<close> is.  This theory models the few functions of
  \<^verbatim>\<open><string>\<close>, \<^verbatim>\<open><cctype>\<close> and \<^verbatim>\<open><algorithm>\<close> the
  sources call (\<^verbatim>\<open>find\<close>, \<^verbatim>\<open>substr\<close>, \<^verbatim>\<open>stoul\<close>,
  \<^verbatim>\<open>tolower\<close>, \<dots>), the numeric conversions with their exceptions, and the
  \<^verbatim>\<open>ErrorCode\<close>, \<^verbatim>\<open>ErrorInfo\<close> and \<^verbatim>\<open>Result\<close> types of
  \<^verbatim>\<open>src/common/types.hpp\<close>.  Time points of \<^verbatim>\<open>steady_clock\<close> are
  integers counting nanoseconds; an operation that reads the clock takes the reading as an
  argument.
\<close>

named_theorems cpp_simps \<open>unfolding rules of the modelled standard library\<close>

subsection \<open>Errors and results (common/types.hpp)\<close>

datatype ErrorCode =
    kOk
  | kConfigFileNotFound | kConfigParseError | kConfigInvalidValue
  | kSipParseError | kSipTransactionFailed | kSipTransportError | kSipTimeout
  | kSipDialogNotFound
  | kDiameterConnectFailed | kDiameterTimeout | kDiameterAuthFailed | kDiameterUserNotFound
  | kDnsResolveFailed | kDnsTimeout | kDnsNoRecords
  | kMediaRtpengineError | kMediaSdpError
  | kRegistrationNotFound | kRegistrationExpired
  | kInternalError | kNotImplemented

record ErrorInfo =
  err_code :: ErrorCode
  err_message :: string
  err_detail :: string

definition mk_error :: "ErrorCode \<Rightarrow> string \<Rightarrow> string \<Rightarrow> ErrorInfo" where
  "mk_error c msg det = \<lparr>err_code = c, err_message = msg, err_detail = det\<rparr>"

lemma mk_error_sel [simp]:
  "err_code (mk_error c m d) = c" "err_message (mk_error c m d) = m"
  "err_detail (mk_error c m d) = d"
  by (simp_all add: mk_error_def)

type_synonym 'a result = "ErrorInfo + 'a"

text \<open>Propagation of an error: the \<^verbatim>\<open>if (!x) return std::unexpected(x.error())\<close> pattern.\<close>

fun bind_result :: "('e + 'a) \<Rightarrow> ('a \<Rightarrow> 'e + 'b) \<Rightarrow> 'e + 'b" where
  "bind_result (Inl e) f = Inl e"
| "bind_result (Inr x) f = f x"

lemma bind_result_Inr_iff:
  "bind_result m f = Inr y \<longleftrightarrow> (\<exists>x. m = Inr x \<and> f x = Inr y)"
  by (cases m) auto

type_synonym time_point = int

definition seconds :: "int \<Rightarrow> int" where
  "seconds n = n * 1000000000"

definition minutes :: "int \<Rightarrow> int" where
  "minutes n = seconds (60 * n)"

lemma seconds_pos [simp]: "0 < seconds n \<longleftrightarrow> 0 < n"
  by (simp add: seconds_def)

lemma minutes_pos [simp]: "0 < minutes n \<longleftrightarrow> 0 < n"
  by (simp add: minutes_def)

subsection \<open>Characters\<close>

definition char_code :: "char \<Rightarrow> nat" where
  "char_code c = of_char c"

definition is_space :: "char \<Rightarrow> bool" where
  "is_space c \<longleftrightarrow> (let n = char_code c in n = 32 \<or> (9 \<le> n \<and> n \<le> 13))"

definition is_digit :: "char \<Rightarrow> bool" where
  "is_digit c \<longleftrightarrow> (let n = char_code c in 48 \<le> n \<and> n \<le> 57)"

definition digit_val :: "char \<Rightarrow> nat" where
  "digit_val c = char_code c - 48"

definition digit_char :: "nat \<Rightarrow> char" where
  "digit_char d = char_of (48 + d)"

definition tolower :: "char \<Rightarrow> char" where
  "tolower c = (let n = char_code c in if 65 \<le> n \<and> n \<le> 90 then char_of (n + 32) else c)"

definition toupper :: "char \<Rightarrow> char" where
  "toupper c = (let n = char_code c in if 97 \<le> n \<and> n \<le> 122 then char_of (n - 32) else c)"

lemma char_code_char_of [simp]: "n < 256 \<Longrightarrow> char_code (char_of n) = n"
  by (simp add: char_code_def)

lemma char_code_less [simp]: "char_code c < 256"
  using of_char_of [of "of_char c"] by (simp add: char_code_def)

lemma tolower_idem [simp]: "tolower (tolower c) = tolower c"
  by (simp add: tolower_def Let_def)

lemma digit_char_props:
  assumes "d < 10"
  shows "is_digit (digit_char d)" "digit_val (digit_char d) = d"
    "char_code (digit_char d) = 48 + d"
  using assms by (simp_all add: is_digit_def digit_val_def digit_char_def)

lemma is_digit_not_space: "is_digit c \<Longrightarrow> \<not> is_space c"
  by (auto simp: is_digit_def is_space_def Let_def)

subsection \<open>Strings\<close>

definition lowercase :: "string \<Rightarrow> string" where
  "lowercase s = map tolower s"

definition uppercase :: "string \<Rightarrow> string" where
  "uppercase s = map toupper s"

lemma lowercase_simps [simp]:
  "lowercase [] = []" "lowercase (lowercase s) = lowercase s"
  "length (lowercase s) = length s"
  "lowercase (s @ t) = lowercase s @ lowercase t"
  by (simp_all add: lowercase_def)

definition trim :: "string \<Rightarrow> string" where
  "trim s = rev (dropWhile is_space (rev (dropWhile is_space s)))"

definition trim_quotes :: "string \<Rightarrow> string" where
  "trim_quotes s =
     (if 2 \<le> length s \<and> hd s = CHR 0x22 \<and> last s = CHR 0x22
      then take (length s - 2) (drop 1 s) else s)"

text \<open>\<^verbatim>\<open>find0 p s\<close> is the least position at which \<open>p\<close> occurs in \<open>s\<close>.\<close>

fun find0 :: "string \<Rightarrow> string \<Rightarrow> nat option" where
  "find0 p [] = (if p = [] then Some 0 else None)"
| "find0 p (c # s) = (if prefix p (c # s) then Some 0 else map_option Suc (find0 p s))"

definition str_find :: "string \<Rightarrow> string \<Rightarrow> nat \<Rightarrow> nat option" where
  "str_find s p pos =
     (if pos \<le> length s then map_option (\<lambda>i. pos + i) (find0 p (drop pos s)) else None)"

definition find_char :: "string \<Rightarrow> char \<Rightarrow> nat option" where
  "find_char s c = find0 [c] s"

definition substr :: "string \<Rightarrow> nat \<Rightarrow> nat \<Rightarrow> string" where
  "substr s pos n = take n (drop pos s)"

definition starts_with :: "string \<Rightarrow> string \<Rightarrow> bool" where
  "starts_with p s \<longleftrightarrow> prefix p s"

lemma find0_bound: "find0 p s = Some i \<Longrightarrow> i + length p \<le> length s"
proof (induction p s arbitrary: i rule: find0.induct)
  case (2 p c s)
  then show ?case
    by (auto split: if_splits dest: prefix_length_le)
qed (auto split: if_splits)

lemma find0_prefix: "find0 p s = Some i \<Longrightarrow> prefix p (drop i s)"
  by (induction p s arbitrary: i rule: find0.induct) (auto split: if_splits)

lemma find_char_None: "find_char s c = None \<longleftrightarrow> c \<notin> set s"
  unfolding find_char_def by (induction s) auto

lemma find_char_append: "c \<notin> set s \<Longrightarrow> find_char (s @ c # t) c = Some (length s)"
  unfolding find_char_def by (induction s) auto

lemma find_char_Some:
  "find_char s c = Some i \<Longrightarrow> i < length s \<and> s ! i = c \<and> c \<notin> set (take i s)"
  unfolding find_char_def
proof (induction s arbitrary: i)
  case (Cons d s)
  then show ?case by (auto split: if_splits)
qed simp

text \<open>Splitting at a separator, as \<^verbatim>\<open>std::getline(stream, token, sep)\<close> in a loop does: a
  trailing separator yields no empty last token.\<close>

fun getline_split :: "char \<Rightarrow> string \<Rightarrow> string \<Rightarrow> string list" where
  "getline_split sep acc [] = (if acc = [] then [] else [rev acc])"
| "getline_split sep acc (c # s) =
     (if c = sep then rev acc # getline_split sep [] s else getline_split sep (c # acc) s)"

definition getlines :: "char \<Rightarrow> string \<Rightarrow> string list" where
  "getlines sep s = getline_split sep [] s"

lemma dropWhile_space_append:
  "\<not> is_space c \<Longrightarrow> dropWhile is_space (xs @ c # ys) = dropWhile is_space xs @ c # ys"
  by (induction xs) auto

text \<open>Trimming only touches what is before the first and after the last non-space.\<close>

lemma trim_between:
  assumes "\<not> is_space c" "\<not> is_space d"
  shows "trim (xs @ c # mid @ d # ys) =
    dropWhile is_space xs @ c # mid @ d # rev (dropWhile is_space (rev ys))"
proof -
  have "dropWhile is_space (rev (dropWhile is_space xs @ c # mid @ d # ys)) =
      dropWhile is_space (rev ys) @ d # rev mid @ c # rev (dropWhile is_space xs)"
    using dropWhile_space_append [OF assms(2), of "rev ys"] by simp
  then show ?thesis
    using dropWhile_space_append [OF assms(1), of xs "mid @ d # ys"] by (simp add: trim_def)
qed

lemma trim_single: "\<not> is_space c \<Longrightarrow> trim (xs @ [c]) = dropWhile is_space xs @ [c]"
  using dropWhile_space_append [of c xs "[]"] by (simp add: trim_def)

lemma trim_id:
  assumes "s \<noteq> []" "\<not> is_space (hd s)" "\<not> is_space (last s)"
  shows "trim s = s"
proof -
  have "dropWhile is_space s = s" using assms by (cases s) auto
  moreover have "dropWhile is_space (rev s) = rev s"
    using assms by (cases s rule: rev_cases) auto
  ultimately show ?thesis by (simp add: trim_def)
qed

lemma trim_no_space: "\<forall>c \<in> set s. \<not> is_space c \<Longrightarrow> trim s = s"
  by (cases "s = []") (auto simp: trim_id, simp add: trim_def)

lemma trim_quotes_quoted [simp]: "trim_quotes (CHR 0x22 # v @ [CHR 0x22]) = v"
  by (simp add: trim_quotes_def)

lemma getline_split_append:
  "sep \<notin> set t \<Longrightarrow>
   getline_split sep acc (t @ sep # s) = (rev acc @ t) # getline_split sep [] s"
  "sep \<notin> set t \<Longrightarrow> t \<noteq> [] \<or> acc \<noteq> [] \<Longrightarrow> getline_split sep acc t = [rev acc @ t]"
  by (induction t arbitrary: acc) auto

subsection \<open>Numeric conversions\<close>

datatype std_exception = invalid_argument | out_of_range | runtime_error string

fun nat_of_digits :: "nat \<Rightarrow> string \<Rightarrow> nat" where
  "nat_of_digits a [] = a"
| "nat_of_digits a (c # s) = nat_of_digits (10 * a + digit_val c) s"

text \<open>\<^verbatim>\<open>strtol\<close> and its kin: optional white space, an optional sign, then the longest run
  of digits; the rest is ignored.  The result is (negative?, magnitude).\<close>

definition scan_number :: "string \<Rightarrow> (bool \<times> nat) option" where
  "scan_number s =
     (let s1 = dropWhile is_space s;
          neg = (s1 \<noteq> [] \<and> hd s1 = CHR ''-'');
          s2 = (if s1 \<noteq> [] \<and> (hd s1 = CHR ''-'' \<or> hd s1 = CHR ''+'') then tl s1 else s1);
          ds = takeWhile is_digit s2
      in if ds = [] then None else Some (neg, nat_of_digits 0 ds))"

definition signed_of :: "bool \<times> nat \<Rightarrow> int" where
  "signed_of p = (if fst p then - int (snd p) else int (snd p))"

definition sto_signed :: "nat \<Rightarrow> string \<Rightarrow> std_exception + int" where
  "sto_signed w s =
     (case scan_number s of
        None \<Rightarrow> Inl invalid_argument
      | Some p \<Rightarrow>
          (if - (2 ^ (w - 1)) \<le> signed_of p \<and> signed_of p < 2 ^ (w - 1)
           then Inr (signed_of p) else Inl out_of_range))"

definition stoi :: "string \<Rightarrow> std_exception + int" where
  "stoi s = sto_signed 32 s"

definition stoll :: "string \<Rightarrow> std_exception + int" where
  "stoll s = sto_signed 64 s"

text \<open>\<^verbatim>\<open>strtoul\<close> accepts a minus sign and negates in the unsigned type (64 bits here).\<close>

definition stoul :: "string \<Rightarrow> std_exception + nat" where
  "stoul s =
     (case scan_number s of
        None \<Rightarrow> Inl invalid_argument
      | Some (neg, m) \<Rightarrow>
          (if m < 2 ^ 64 then Inr (if neg then (2 ^ 64 - m) mod 2 ^ 64 else m)
           else Inl out_of_range))"

text \<open>\<^verbatim>\<open>atoi\<close>: no digits give 0.  (Outside the range of \<^verbatim>\<open>int\<close> C leaves the result
  undefined; the callers reduce the value to 16 bits at once.)\<close>

definition atoi :: "string \<Rightarrow> int" where
  "atoi s = (case scan_number s of None \<Rightarrow> 0 | Some p \<Rightarrow> signed_of p)"

fun show_nat :: "nat \<Rightarrow> string" where
  "show_nat n = (if n < 10 then [digit_char n] else show_nat (n div 10) @ [digit_char (n mod 10)])"

declare show_nat.simps [simp del]

definition show_int :: "int \<Rightarrow> string" where
  "show_int i = (if i < 0 then CHR ''-'' # show_nat (nat (- i)) else show_nat (nat i))"

lemma show_nat_nonempty [simp]: "show_nat n \<noteq> []"
  by (subst show_nat.simps) simp

lemma show_nat_digits: "c \<in> set (show_nat n) \<Longrightarrow> is_digit c"
proof (induction n rule: show_nat.induct)
  case (1 n)
  show ?case
  proof (cases "n < 10")
    case True
    with 1 show ?thesis by (simp add: show_nat.simps [of n] digit_char_props)
  next
    case False
    with 1 show ?thesis by (auto simp: show_nat.simps [of n] digit_char_props)
  qed
qed

lemma takeWhile_digits_show_nat:
  "\<not> is_digit c \<Longrightarrow> takeWhile is_digit (show_nat n @ c # s) = show_nat n"
  "takeWhile is_digit (show_nat n) = show_nat n"
  by (auto simp: takeWhile_append2 show_nat_digits takeWhile_eq_all_conv)

lemma nat_of_digits_append:
  "nat_of_digits a (s @ [c]) = 10 * nat_of_digits a s + digit_val c"
  by (induction s arbitrary: a) auto

lemma nat_of_digits_show_nat [simp]: "nat_of_digits 0 (show_nat n) = n"
proof (induction n rule: show_nat.induct)
  case (1 n)
  show ?case
  proof (cases "n < 10")
    case True
    then show ?thesis by (simp add: show_nat.simps [of n] digit_char_props)
  next
    case False
    with 1 show ?thesis
      by (simp add: show_nat.simps [of n] digit_char_props nat_of_digits_append)
  qed
qed

lemma hd_show_nat_digit: "is_digit (hd (show_nat n))"
  by (rule show_nat_digits [of _ n]) simp

lemma digit_not_sign: "is_digit c \<Longrightarrow> c \<noteq> CHR ''-'' \<and> c \<noteq> CHR ''+''"
  by (auto simp: is_digit_def char_code_def)

lemma dropWhile_space_show_nat [simp]: "dropWhile is_space (show_nat n) = show_nat n"
  by (cases "show_nat n") (use hd_show_nat_digit [of n] is_digit_not_space in auto)

lemma scan_number_show_nat: "scan_number (show_nat n) = Some (False, n)"
  using digit_not_sign [OF hd_show_nat_digit [of n]]
  by (simp add: scan_number_def Let_def takeWhile_digits_show_nat del: takeWhile_eq_all_conv)

lemma scan_number_show_int: "scan_number (show_int i) = Some (i < 0, nat \<bar>i\<bar>)"
proof (cases "i < 0")
  case True
  have "\<not> is_space (CHR ''-'')" by (simp add: is_space_def char_code_def)
  with True show ?thesis
    by (simp add: scan_number_def show_int_def Let_def takeWhile_digits_show_nat)
next
  case False
  then show ?thesis by (simp add: show_int_def scan_number_show_nat)
qed

lemma signed_of_show_int: "signed_of (i < 0, nat \<bar>i\<bar>) = i"
  by (simp add: signed_of_def)

lemma stoll_show_int:
  "- (2 ^ 63) \<le> i \<Longrightarrow> i < 2 ^ 63 \<Longrightarrow> stoll (show_int i) = Inr i"
  by (simp add: stoll_def sto_signed_def scan_number_show_int signed_of_show_int)

lemma stoi_range: "stoi s = Inr k \<Longrightarrow> - (2 ^ 31) \<le> k \<and> k < 2 ^ 31"
  by (auto simp: stoi_def sto_signed_def Let_def split: option.splits if_splits)

lemma stoi_show_int:
  "- (2 ^ 31) \<le> i \<Longrightarrow> i < 2 ^ 31 \<Longrightarrow> stoi (show_int i) = Inr i"
  by (simp add: stoi_def sto_signed_def scan_number_show_int signed_of_show_int)

lemma stoul_show_nat: "n < 2 ^ 64 \<Longrightarrow> stoul (show_nat n) = Inr n"
  by (simp add: stoul_def scan_number_show_nat)

lemma show_int_chars:
  "c \<in> set (show_int i) \<Longrightarrow> is_digit c \<or> c = CHR ''-''"
  by (auto simp: show_int_def split: if_splits dest: show_nat_digits)

end
