(* ===== verification/Milenage.thy ===== *)
theory Milenage
  imports Cpp_Std
begin

section \<open>MILENAGE and its block cipher (crypt/milenage.cpp, crypt/milenage_adapter.cpp)\<close>

text \<open>
  A \<^verbatim>\<open>BYTE\<close> is an 8-bit word, a byte array the list of its elements.  The cipher
  state \<^verbatim>\<open>state[4][4]\<close> is the list of its four rows, the thread-local
  \<^verbatim>\<open>roundKeys[11][4][4]\<close> the list of eleven such arrays: every exported function
  computes it from its key first, so it is the result of \<^verbatim>\<open>RijndaelKeySchedule\<close>
  here and an argument of \<^verbatim>\<open>RijndaelEncrypt\<close>.  A loop
  \<^verbatim>\<open>for (i = 0; i < n; i++) a[i] = e(i)\<close> that fills an array is
  \<^theory_text>\<open>map e [0..<n]\<close>, and one that stores at \<^verbatim>\<open>(i + r) % 16\<close> a loop of
  list updates.
\<close>

unbundle bit_operations_syntax

type_synonym byte = "8 word"
type_synonym block = "byte list"
type_synonym cstate = "byte list list"

definition S :: "byte list" where
  "S = [
    99, 124, 119, 123, 242, 107, 111, 197, 48, 1, 103, 43, 254, 215, 171, 118, 202, 130, 201,
    125, 250, 89, 71, 240, 173, 212, 162, 175, 156, 164, 114, 192, 183, 253, 147, 38, 54, 63,
    247, 204, 52, 165, 229, 241, 113, 216, 49, 21, 4, 199, 35, 195, 24, 150, 5, 154, 7, 18,
    128, 226, 235, 39, 178, 117, 9, 131, 44, 26, 27, 110, 90, 160, 82, 59, 214, 179, 41, 227,
    47, 132, 83, 209, 0, 237, 32, 252, 177, 91, 106, 203, 190, 57, 74, 76, 88, 207, 208, 239,
    170, 251, 67, 77, 51, 133, 69, 249, 2, 127, 80, 60, 159, 168, 81, 163, 64, 143, 146, 157,
    56, 245, 188, 182, 218, 33, 16, 255, 243, 210, 205, 12, 19, 236, 95, 151, 68, 23, 196, 167,
    126, 61, 100, 93, 25, 115, 96, 129, 79, 220, 34, 42, 144, 136, 70, 238, 184, 20, 222, 94,
    11, 219, 224, 50, 58, 10, 73, 6, 36, 92, 194, 211, 172, 98, 145, 149, 228, 121, 231, 200,
    55, 109, 141, 213, 78, 169, 108, 86, 244, 234, 101, 122, 174, 8, 186, 120, 37, 46, 28, 166,
    180, 198, 232, 221, 116, 31, 75, 189, 139, 138, 112, 62, 181, 102, 72, 3, 246, 14, 97, 53,
    87, 185, 134, 193, 29, 158, 225, 248, 152, 17, 105, 217, 142, 148, 155, 30, 135, 233, 206,
    85, 40, 223, 140, 161, 137, 13, 191, 230, 66, 104, 65, 153, 45, 15, 176, 84, 187, 22]"

definition Xtime :: "byte list" where
  "Xtime = [
    0, 2, 4, 6, 8, 10, 12, 14, 16, 18, 20, 22, 24, 26, 28, 30, 32, 34, 36, 38, 40, 42, 44, 46,
    48, 50, 52, 54, 56, 58, 60, 62, 64, 66, 68, 70, 72, 74, 76, 78, 80, 82, 84, 86, 88, 90, 92,
    94, 96, 98, 100, 102, 104, 106, 108, 110, 112, 114, 116, 118, 120, 122, 124, 126, 128, 130,
    132, 134, 136, 138, 140, 142, 144, 146, 148, 150, 152, 154, 156, 158, 160, 162, 164, 166,
    168, 170, 172, 174, 176, 178, 180, 182, 184, 186, 188, 190, 192, 194, 196, 198, 200, 202,
    204, 206, 208, 210, 212, 214, 216, 218, 220, 222, 224, 226, 228, 230, 232, 234, 236, 238,
    240, 242, 244, 246, 248, 250, 252, 254, 27, 25, 31, 29, 19, 17, 23, 21, 11, 9, 15, 13, 3,
    1, 7, 5, 59, 57, 63, 61, 51, 49, 55, 53, 43, 41, 47, 45, 35, 33, 39, 37, 91, 89, 95, 93,
    83, 81, 87, 85, 75, 73, 79, 77, 67, 65, 71, 69, 123, 121, 127, 125, 115, 113, 119, 117,
    107, 105, 111, 109, 99, 97, 103, 101, 155, 153, 159, 157, 147, 145, 151, 149, 139, 137,
    143, 141, 131, 129, 135, 133, 187, 185, 191, 189, 179, 177, 183, 181, 171, 169, 175, 173,
    163, 161, 167, 165, 219, 217, 223, 221, 211, 209, 215, 213, 203, 201, 207, 205, 195, 193,
    199, 197, 251, 249, 255, 253, 243, 241, 247, 245, 235, 233, 239, 237, 227, 225, 231, 229]"

definition sbox :: "byte \<Rightarrow> byte" where
  "sbox b = S ! unat b"

definition xtime :: "byte \<Rightarrow> byte" where
  "xtime b = Xtime ! unat b"

subsection \<open>The cipher\<close>

definition at :: "cstate \<Rightarrow> nat \<Rightarrow> nat \<Rightarrow> byte" where
  "at st i j = st ! i ! j"

definition load_state :: "block \<Rightarrow> cstate" where
  "load_state inp = map (\<lambda>i. map (\<lambda>j. inp ! (4 * j + i)) [0..<4]) [0..<4]"

definition unload_state :: "cstate \<Rightarrow> block" where
  "unload_state st = map (\<lambda>i. at st (i mod 4) (i div 4)) [0..<16]"

definition next_round_key :: "byte \<Rightarrow> cstate \<Rightarrow> cstate" where
  "next_round_key roundConst p =
     (let c0 = [sbox (at p 1 3) XOR at p 0 0 XOR roundConst,
                sbox (at p 2 3) XOR at p 1 0,
                sbox (at p 3 3) XOR at p 2 0,
                sbox (at p 0 3) XOR at p 3 0]
      in map (\<lambda>j. let k0 = c0 ! j; k1 = at p j 1 XOR k0; k2 = at p j 2 XOR k1
                 in [k0, k1, k2, at p j 3 XOR k2]) [0..<4])"

fun schedule_loop :: "nat \<Rightarrow> byte \<Rightarrow> cstate \<Rightarrow> cstate list" where
  "schedule_loop 0 roundConst p = []"
| "schedule_loop (Suc n) roundConst p =
     (let q = next_round_key roundConst p in q # schedule_loop n (xtime roundConst) q)"

definition RijndaelKeySchedule :: "block \<Rightarrow> cstate list" where
  "RijndaelKeySchedule key = (let k0 = load_state key in k0 # schedule_loop 10 1 k0)"

definition KeyAdd :: "cstate \<Rightarrow> cstate \<Rightarrow> cstate" where
  "KeyAdd st rk = map (\<lambda>i. map (\<lambda>j. at st i j XOR at rk i j) [0..<4]) [0..<4]"

definition ByteSub :: "cstate \<Rightarrow> cstate" where
  "ByteSub st = map (\<lambda>i. map (\<lambda>j. sbox (at st i j)) [0..<4]) [0..<4]"

definition ShiftRow :: "cstate \<Rightarrow> cstate" where
  "ShiftRow st =
     [st ! 0,
      [at st 1 1, at st 1 2, at st 1 3, at st 1 0],
      [at st 2 2, at st 2 3, at st 2 0, at st 2 1],
      [at st 3 3, at st 3 0, at st 3 1, at st 3 2]]"

definition mix_bytes :: "byte \<Rightarrow> byte \<Rightarrow> byte \<Rightarrow> byte \<Rightarrow> byte list" where
  "mix_bytes a0 a1 a2 a3 =
     (let temp = a0 XOR a1 XOR a2 XOR a3;
          tmp0 = a0;
          b0 = a0 XOR (temp XOR xtime (a0 XOR a1));
          b1 = a1 XOR (temp XOR xtime (a1 XOR a2));
          b2 = a2 XOR (temp XOR xtime (a2 XOR a3));
          b3 = a3 XOR (temp XOR xtime (a3 XOR tmp0))
      in [b0, b1, b2, b3])"

definition MixColumn :: "cstate \<Rightarrow> cstate" where
  "MixColumn st =
     (let cols = map (\<lambda>i. mix_bytes (at st 0 i) (at st 1 i) (at st 2 i) (at st 3 i)) [0..<4]
      in map (\<lambda>i. map (\<lambda>j. cols ! j ! i) [0..<4]) [0..<4])"

definition full_round :: "cstate \<Rightarrow> cstate \<Rightarrow> cstate" where
  "full_round st rk = KeyAdd (MixColumn (ShiftRow (ByteSub st))) rk"

definition RijndaelEncrypt :: "cstate list \<Rightarrow> block \<Rightarrow> block" where
  "RijndaelEncrypt roundKeys inp =
     (let st0 = KeyAdd (load_state inp) (roundKeys ! 0);
          st9 = foldl full_round st0 (map (\<lambda>r. roundKeys ! r) [1..<10])
      in unload_state (KeyAdd (ShiftRow (ByteSub st9)) (roundKeys ! 10)))"

subsection \<open>The MILENAGE functions\<close>

definition xor_block :: "block \<Rightarrow> block \<Rightarrow> block" where
  "xor_block a b = map (\<lambda>i. a ! i XOR b ! i) [0..<16]"

text \<open>\<^verbatim>\<open>for (i = 0; i < 16; i++) rijndaelInput[(i + r) % 16] = x[i];\<close>\<close>

definition rotate_store :: "nat \<Rightarrow> block \<Rightarrow> block \<Rightarrow> block" where
  "rotate_store r x old = foldl (\<lambda>a i. a[(i + r) mod 16 := x ! i]) old [0..<16]"

definition xor_last :: "block \<Rightarrow> byte \<Rightarrow> block" where
  "xor_last a c = a[15 := a ! 15 XOR c]"

definition milenage_temp :: "block \<Rightarrow> cstate list \<Rightarrow> block \<Rightarrow> block" where
  "milenage_temp op_c rks rnd = RijndaelEncrypt rks (xor_block rnd op_c)"

definition in1_block :: "block \<Rightarrow> block \<Rightarrow> block" where
  "in1_block sqn amf = take 6 sqn @ take 2 amf @ take 6 sqn @ take 2 amf"

text \<open>The block of \<^verbatim>\<open>f1\<close> and \<^verbatim>\<open>f1star\<close>, which differ in the half they return.\<close>

definition f1_block :: "block \<Rightarrow> block \<Rightarrow> block \<Rightarrow> block \<Rightarrow> block \<Rightarrow> block" where
  "f1_block op_c key rnd sqn amf =
     (let rks = RijndaelKeySchedule key;
          temp = milenage_temp op_c rks rnd;
          in1 = in1_block sqn amf;
          rijndaelInput = rotate_store 8 (xor_block in1 op_c) (xor_block rnd op_c);
          out1 = RijndaelEncrypt rks (xor_block rijndaelInput temp)
      in xor_block out1 op_c)"

definition f1 :: "block \<Rightarrow> block \<Rightarrow> block \<Rightarrow> block \<Rightarrow> block \<Rightarrow> block" where
  "f1 op_c key rnd sqn amf = map (\<lambda>i. f1_block op_c key rnd sqn amf ! i) [0..<8]"

definition f1star :: "block \<Rightarrow> block \<Rightarrow> block \<Rightarrow> block \<Rightarrow> block \<Rightarrow> block" where
  "f1star op_c key rnd sqn amf = map (\<lambda>i. f1_block op_c key rnd sqn amf ! (i + 8)) [0..<8]"

text \<open>\<^verbatim>\<open>OUT2\<close> to \<^verbatim>\<open>OUT5\<close>: rotation \<^verbatim>\<open>r\<close> and constant \<^verbatim>\<open>c\<close>.\<close>

definition out_block :: "nat \<Rightarrow> byte \<Rightarrow> block \<Rightarrow> cstate list \<Rightarrow> block \<Rightarrow> block" where
  "out_block r c op_c rks temp =
     xor_block (RijndaelEncrypt rks (xor_last (rotate_store r (xor_block temp op_c) temp) c)) op_c"

record f2345_result =
  f_res :: block
  f_ck :: block
  f_ik :: block
  f_ak :: block

definition f2345 :: "block \<Rightarrow> block \<Rightarrow> block \<Rightarrow> f2345_result" where
  "f2345 op_c k rnd =
     (let rks = RijndaelKeySchedule k;
          temp = milenage_temp op_c rks rnd;
          out2 = out_block 0 1 op_c rks temp;
          out3 = out_block 12 2 op_c rks temp;
          out4 = out_block 8 4 op_c rks temp
      in \<lparr>f_res = map (\<lambda>i. out2 ! (i + 8)) [0..<8], f_ck = out3, f_ik = out4,
          f_ak = map (\<lambda>i. out2 ! i) [0..<6]\<rparr>)"

definition f5star :: "block \<Rightarrow> block \<Rightarrow> block \<Rightarrow> block" where
  "f5star op_c k rnd =
     (let rks = RijndaelKeySchedule k; temp = milenage_temp op_c rks rnd;
          out5 = out_block 4 8 op_c rks temp
      in map (\<lambda>i. out5 ! i) [0..<6])"

definition ComputeOPc :: "block \<Rightarrow> block \<Rightarrow> block" where
  "ComputeOPc op key = xor_block (RijndaelEncrypt (RijndaelKeySchedule key) op) op"

subsection \<open>The adapter\<close>

record MilenageVector =
  mv_autn :: block
  mv_ck :: block
  mv_ik :: block
  mv_ak :: block
  mv_xres :: block

definition compute_opc :: "block \<Rightarrow> block \<Rightarrow> block result" where
  "compute_opc k op = Inr (ComputeOPc op k)"

definition generate_vector :: "block \<Rightarrow> block \<Rightarrow> block \<Rightarrow> block \<Rightarrow> block \<Rightarrow> MilenageVector result" where
  "generate_vector opc k sqn amf rnd =
     (let f = f2345 opc k rnd;
          mac_a = f1 opc k rnd sqn amf
      in Inr \<lparr>mv_autn = map (\<lambda>i. sqn ! i XOR f_ak f ! i) [0..<6] @ [amf ! 0, amf ! 1] @ mac_a,
              mv_ck = f_ck f, mv_ik = f_ik f, mv_ak = f_ak f, mv_xres = f_res f\<rparr>)"

subsection \<open>The tables\<close>

lemma length_S [simp]: "length S = 256" by (simp add: S_def)
lemma length_Xtime [simp]: "length Xtime = 256" by (simp add: Xtime_def)

lemma unat_byte [simp]: "unat (b :: byte) < 256"
  using unsigned_less [of b] by simp

lemma upt_256: "[0..<256] = [
    0, 1, 2, 3, 4, 5, 6, 7, 8, 9, 10, 11, 12, 13, 14, 15, 16, 17, 18, 19, 20, 21, 22, 23, 24, 25,
    26, 27, 28, 29, 30, 31, 32, 33, 34, 35, 36, 37, 38, 39, 40, 41, 42, 43, 44, 45, 46, 47, 48,
    49, 50, 51, 52, 53, 54, 55, 56, 57, 58, 59, 60, 61, 62, 63, 64, 65, 66, 67, 68, 69, 70, 71,
    72, 73, 74, 75, 76, 77, 78, 79, 80, 81, 82, 83, 84, 85, 86, 87, 88, 89, 90, 91, 92, 93, 94,
    95, 96, 97, 98, 99, 100, 101, 102, 103, 104, 105, 106, 107, 108, 109, 110, 111, 112, 113,
    114, 115, 116, 117, 118, 119, 120, 121, 122, 123, 124, 125, 126, 127, 128, 129, 130, 131,
    132, 133, 134, 135, 136, 137, 138, 139, 140, 141, 142, 143, 144, 145, 146, 147, 148, 149,
    150, 151, 152, 153, 154, 155, 156, 157, 158, 159, 160, 161, 162, 163, 164, 165, 166, 167,
    168, 169, 170, 171, 172, 173, 174, 175, 176, 177, 178, 179, 180, 181, 182, 183, 184, 185,
    186, 187, 188, 189, 190, 191, 192, 193, 194, 195, 196, 197, 198, 199, 200, 201, 202, 203,
    204, 205, 206, 207, 208, 209, 210, 211, 212, 213, 214, 215, 216, 217, 218, 219, 220, 221,
    222, 223, 224, 225, 226, 227, 228, 229, 230, 231, 232, 233, 234, 235, 236, 237, 238, 239,
    240, 241, 242, 243, 244, 245, 246, 247, 248, 249, 250, 251, 252, 253, 254, 255]"
  by (simp add: upt_conv_Cons)

lemma table_entries: "length T = 256 \<Longrightarrow> map (nth T) [0..<256] = T"
  by (metis map_nth)

lemma sbox_eval:
  "sbox 0 = 99" "sbox 1 = 124" "sbox 2 = 119" "sbox 3 = 123" "sbox 4 = 242" "sbox 5 = 107"
  "sbox 6 = 111" "sbox 7 = 197" "sbox 8 = 48" "sbox 9 = 1" "sbox 10 = 103" "sbox 11 = 43"
  "sbox 12 = 254" "sbox 13 = 215" "sbox 14 = 171" "sbox 15 = 118" "sbox 16 = 202" "sbox 17 = 130"
  "sbox 18 = 201" "sbox 19 = 125" "sbox 20 = 250" "sbox 21 = 89" "sbox 22 = 71" "sbox 23 = 240"
  "sbox 24 = 173" "sbox 25 = 212" "sbox 26 = 162" "sbox 27 = 175" "sbox 28 = 156" "sbox 29 = 164"
  "sbox 30 = 114" "sbox 31 = 192" "sbox 32 = 183" "sbox 33 = 253" "sbox 34 = 147" "sbox 35 = 38"
  "sbox 36 = 54" "sbox 37 = 63" "sbox 38 = 247" "sbox 39 = 204" "sbox 40 = 52" "sbox 41 = 165"
  "sbox 42 = 229" "sbox 43 = 241" "sbox 44 = 113" "sbox 45 = 216" "sbox 46 = 49" "sbox 47 = 21"
  "sbox 48 = 4" "sbox 49 = 199" "sbox 50 = 35" "sbox 51 = 195" "sbox 52 = 24" "sbox 53 = 150"
  "sbox 54 = 5" "sbox 55 = 154" "sbox 56 = 7" "sbox 57 = 18" "sbox 58 = 128" "sbox 59 = 226"
  "sbox 60 = 235" "sbox 61 = 39" "sbox 62 = 178" "sbox 63 = 117" "sbox 64 = 9" "sbox 65 = 131"
  "sbox 66 = 44" "sbox 67 = 26" "sbox 68 = 27" "sbox 69 = 110" "sbox 70 = 90" "sbox 71 = 160"
  "sbox 72 = 82" "sbox 73 = 59" "sbox 74 = 214" "sbox 75 = 179" "sbox 76 = 41" "sbox 77 = 227"
  "sbox 78 = 47" "sbox 79 = 132" "sbox 80 = 83" "sbox 81 = 209" "sbox 82 = 0" "sbox 83 = 237"
  "sbox 84 = 32" "sbox 85 = 252" "sbox 86 = 177" "sbox 87 = 91" "sbox 88 = 106" "sbox 89 = 203"
  "sbox 90 = 190" "sbox 91 = 57" "sbox 92 = 74" "sbox 93 = 76" "sbox 94 = 88" "sbox 95 = 207"
  "sbox 96 = 208" "sbox 97 = 239" "sbox 98 = 170" "sbox 99 = 251" "sbox 100 = 67" "sbox 101 = 77"
  "sbox 102 = 51" "sbox 103 = 133" "sbox 104 = 69" "sbox 105 = 249" "sbox 106 = 2"
  "sbox 107 = 127" "sbox 108 = 80" "sbox 109 = 60" "sbox 110 = 159" "sbox 111 = 168"
  "sbox 112 = 81" "sbox 113 = 163" "sbox 114 = 64" "sbox 115 = 143" "sbox 116 = 146"
  "sbox 117 = 157" "sbox 118 = 56" "sbox 119 = 245" "sbox 120 = 188" "sbox 121 = 182"
  "sbox 122 = 218" "sbox 123 = 33" "sbox 124 = 16" "sbox 125 = 255" "sbox 126 = 243"
  "sbox 127 = 210" "sbox 128 = 205" "sbox 129 = 12" "sbox 130 = 19" "sbox 131 = 236"
  "sbox 132 = 95" "sbox 133 = 151" "sbox 134 = 68" "sbox 135 = 23" "sbox 136 = 196"
  "sbox 137 = 167" "sbox 138 = 126" "sbox 139 = 61" "sbox 140 = 100" "sbox 141 = 93"
  "sbox 142 = 25" "sbox 143 = 115" "sbox 144 = 96" "sbox 145 = 129" "sbox 146 = 79"
  "sbox 147 = 220" "sbox 148 = 34" "sbox 149 = 42" "sbox 150 = 144" "sbox 151 = 136"
  "sbox 152 = 70" "sbox 153 = 238" "sbox 154 = 184" "sbox 155 = 20" "sbox 156 = 222"
  "sbox 157 = 94" "sbox 158 = 11" "sbox 159 = 219" "sbox 160 = 224" "sbox 161 = 50"
  "sbox 162 = 58" "sbox 163 = 10" "sbox 164 = 73" "sbox 165 = 6" "sbox 166 = 36" "sbox 167 = 92"
  "sbox 168 = 194" "sbox 169 = 211" "sbox 170 = 172" "sbox 171 = 98" "sbox 172 = 145"
  "sbox 173 = 149" "sbox 174 = 228" "sbox 175 = 121" "sbox 176 = 231" "sbox 177 = 200"
  "sbox 178 = 55" "sbox 179 = 109" "sbox 180 = 141" "sbox 181 = 213" "sbox 182 = 78"
  "sbox 183 = 169" "sbox 184 = 108" "sbox 185 = 86" "sbox 186 = 244" "sbox 187 = 234"
  "sbox 188 = 101" "sbox 189 = 122" "sbox 190 = 174" "sbox 191 = 8" "sbox 192 = 186"
  "sbox 193 = 120" "sbox 194 = 37" "sbox 195 = 46" "sbox 196 = 28" "sbox 197 = 166"
  "sbox 198 = 180" "sbox 199 = 198" "sbox 200 = 232" "sbox 201 = 221" "sbox 202 = 116"
  "sbox 203 = 31" "sbox 204 = 75" "sbox 205 = 189" "sbox 206 = 139" "sbox 207 = 138"
  "sbox 208 = 112" "sbox 209 = 62" "sbox 210 = 181" "sbox 211 = 102" "sbox 212 = 72"
  "sbox 213 = 3" "sbox 214 = 246" "sbox 215 = 14" "sbox 216 = 97" "sbox 217 = 53" "sbox 218 = 87"
  "sbox 219 = 185" "sbox 220 = 134" "sbox 221 = 193" "sbox 222 = 29" "sbox 223 = 158"
  "sbox 224 = 225" "sbox 225 = 248" "sbox 226 = 152" "sbox 227 = 17" "sbox 228 = 105"
  "sbox 229 = 217" "sbox 230 = 142" "sbox 231 = 148" "sbox 232 = 155" "sbox 233 = 30"
  "sbox 234 = 135" "sbox 235 = 233" "sbox 236 = 206" "sbox 237 = 85" "sbox 238 = 40"
  "sbox 239 = 223" "sbox 240 = 140" "sbox 241 = 161" "sbox 242 = 137" "sbox 243 = 13"
  "sbox 244 = 191" "sbox 245 = 230" "sbox 246 = 66" "sbox 247 = 104" "sbox 248 = 65"
  "sbox 249 = 153" "sbox 250 = 45" "sbox 251 = 15" "sbox 252 = 176" "sbox 253 = 84"
  "sbox 254 = 187" "sbox 255 = 22"
proof -
  have "map sbox [
    0, 1, 2, 3, 4, 5, 6, 7, 8, 9, 10, 11, 12, 13, 14, 15, 16, 17, 18, 19, 20, 21, 22, 23, 24, 25,
    26, 27, 28, 29, 30, 31, 32, 33, 34, 35, 36, 37, 38, 39, 40, 41, 42, 43, 44, 45, 46, 47, 48,
    49, 50, 51, 52, 53, 54, 55, 56, 57, 58, 59, 60, 61, 62, 63, 64, 65, 66, 67, 68, 69, 70, 71,
    72, 73, 74, 75, 76, 77, 78, 79, 80, 81, 82, 83, 84, 85, 86, 87, 88, 89, 90, 91, 92, 93, 94,
    95, 96, 97, 98, 99, 100, 101, 102, 103, 104, 105, 106, 107, 108, 109, 110, 111, 112, 113,
    114, 115, 116, 117, 118, 119, 120, 121, 122, 123, 124, 125, 126, 127, 128, 129, 130, 131,
    132, 133, 134, 135, 136, 137, 138, 139, 140, 141, 142, 143, 144, 145, 146, 147, 148, 149,
    150, 151, 152, 153, 154, 155, 156, 157, 158, 159, 160, 161, 162, 163, 164, 165, 166, 167,
    168, 169, 170, 171, 172, 173, 174, 175, 176, 177, 178, 179, 180, 181, 182, 183, 184, 185,
    186, 187, 188, 189, 190, 191, 192, 193, 194, 195, 196, 197, 198, 199, 200, 201, 202, 203,
    204, 205, 206, 207, 208, 209, 210, 211, 212, 213, 214, 215, 216, 217, 218, 219, 220, 221,
    222, 223, 224, 225, 226, 227, 228, 229, 230, 231, 232, 233, 234, 235, 236, 237, 238, 239,
    240, 241, 242, 243, 244, 245, 246, 247, 248, 249, 250, 251, 252, 253, 254, 255] = S"
    using table_entries [OF length_S] unfolding upt_256 by (simp add: sbox_def)
  note h = this [unfolded S_def list.map list.inject]
  show
    "sbox 0 = 99" "sbox 1 = 124" "sbox 2 = 119" "sbox 3 = 123" "sbox 4 = 242" "sbox 5 = 107"
    "sbox 6 = 111" "sbox 7 = 197" "sbox 8 = 48" "sbox 9 = 1" "sbox 10 = 103" "sbox 11 = 43"
    "sbox 12 = 254" "sbox 13 = 215" "sbox 14 = 171" "sbox 15 = 118" "sbox 16 = 202"
    "sbox 17 = 130" "sbox 18 = 201" "sbox 19 = 125" "sbox 20 = 250" "sbox 21 = 89" "sbox 22 = 71"
    "sbox 23 = 240" "sbox 24 = 173" "sbox 25 = 212" "sbox 26 = 162" "sbox 27 = 175"
    "sbox 28 = 156" "sbox 29 = 164" "sbox 30 = 114" "sbox 31 = 192" "sbox 32 = 183"
    "sbox 33 = 253" "sbox 34 = 147" "sbox 35 = 38" "sbox 36 = 54" "sbox 37 = 63" "sbox 38 = 247"
    "sbox 39 = 204" "sbox 40 = 52" "sbox 41 = 165" "sbox 42 = 229" "sbox 43 = 241"
    "sbox 44 = 113" "sbox 45 = 216" "sbox 46 = 49" "sbox 47 = 21" "sbox 48 = 4" "sbox 49 = 199"
    "sbox 50 = 35" "sbox 51 = 195" "sbox 52 = 24" "sbox 53 = 150" "sbox 54 = 5" "sbox 55 = 154"
    "sbox 56 = 7" "sbox 57 = 18" "sbox 58 = 128" "sbox 59 = 226" "sbox 60 = 235" "sbox 61 = 39"
    "sbox 62 = 178" "sbox 63 = 117" "sbox 64 = 9" "sbox 65 = 131" "sbox 66 = 44" "sbox 67 = 26"
    "sbox 68 = 27" "sbox 69 = 110" "sbox 70 = 90" "sbox 71 = 160" "sbox 72 = 82" "sbox 73 = 59"
    "sbox 74 = 214" "sbox 75 = 179" "sbox 76 = 41" "sbox 77 = 227" "sbox 78 = 47" "sbox 79 = 132"
    "sbox 80 = 83" "sbox 81 = 209" "sbox 82 = 0" "sbox 83 = 237" "sbox 84 = 32" "sbox 85 = 252"
    "sbox 86 = 177" "sbox 87 = 91" "sbox 88 = 106" "sbox 89 = 203" "sbox 90 = 190" "sbox 91 = 57"
    "sbox 92 = 74" "sbox 93 = 76" "sbox 94 = 88" "sbox 95 = 207" "sbox 96 = 208" "sbox 97 = 239"
    "sbox 98 = 170" "sbox 99 = 251" "sbox 100 = 67" "sbox 101 = 77" "sbox 102 = 51"
    "sbox 103 = 133" "sbox 104 = 69" "sbox 105 = 249" "sbox 106 = 2" "sbox 107 = 127"
    "sbox 108 = 80" "sbox 109 = 60" "sbox 110 = 159" "sbox 111 = 168" "sbox 112 = 81"
    "sbox 113 = 163" "sbox 114 = 64" "sbox 115 = 143" "sbox 116 = 146" "sbox 117 = 157"
    "sbox 118 = 56" "sbox 119 = 245" "sbox 120 = 188" "sbox 121 = 182" "sbox 122 = 218"
    "sbox 123 = 33" "sbox 124 = 16" "sbox 125 = 255" "sbox 126 = 243" "sbox 127 = 210"
    "sbox 128 = 205" "sbox 129 = 12" "sbox 130 = 19" "sbox 131 = 236" "sbox 132 = 95"
    "sbox 133 = 151" "sbox 134 = 68" "sbox 135 = 23" "sbox 136 = 196" "sbox 137 = 167"
    "sbox 138 = 126" "sbox 139 = 61" "sbox 140 = 100" "sbox 141 = 93" "sbox 142 = 25"
    "sbox 143 = 115" "sbox 144 = 96" "sbox 145 = 129" "sbox 146 = 79" "sbox 147 = 220"
    "sbox 148 = 34" "sbox 149 = 42" "sbox 150 = 144" "sbox 151 = 136" "sbox 152 = 70"
    "sbox 153 = 238" "sbox 154 = 184" "sbox 155 = 20" "sbox 156 = 222" "sbox 157 = 94"
    "sbox 158 = 11" "sbox 159 = 219" "sbox 160 = 224" "sbox 161 = 50" "sbox 162 = 58"
    "sbox 163 = 10" "sbox 164 = 73" "sbox 165 = 6" "sbox 166 = 36" "sbox 167 = 92"
    "sbox 168 = 194" "sbox 169 = 211" "sbox 170 = 172" "sbox 171 = 98" "sbox 172 = 145"
    "sbox 173 = 149" "sbox 174 = 228" "sbox 175 = 121" "sbox 176 = 231" "sbox 177 = 200"
    "sbox 178 = 55" "sbox 179 = 109" "sbox 180 = 141" "sbox 181 = 213" "sbox 182 = 78"
    "sbox 183 = 169" "sbox 184 = 108" "sbox 185 = 86" "sbox 186 = 244" "sbox 187 = 234"
    "sbox 188 = 101" "sbox 189 = 122" "sbox 190 = 174" "sbox 191 = 8" "sbox 192 = 186"
    "sbox 193 = 120" "sbox 194 = 37" "sbox 195 = 46" "sbox 196 = 28" "sbox 197 = 166"
    "sbox 198 = 180" "sbox 199 = 198" "sbox 200 = 232" "sbox 201 = 221" "sbox 202 = 116"
    "sbox 203 = 31" "sbox 204 = 75" "sbox 205 = 189" "sbox 206 = 139" "sbox 207 = 138"
    "sbox 208 = 112" "sbox 209 = 62" "sbox 210 = 181" "sbox 211 = 102" "sbox 212 = 72"
    "sbox 213 = 3" "sbox 214 = 246" "sbox 215 = 14" "sbox 216 = 97" "sbox 217 = 53"
    "sbox 218 = 87" "sbox 219 = 185" "sbox 220 = 134" "sbox 221 = 193" "sbox 222 = 29"
    "sbox 223 = 158" "sbox 224 = 225" "sbox 225 = 248" "sbox 226 = 152" "sbox 227 = 17"
    "sbox 228 = 105" "sbox 229 = 217" "sbox 230 = 142" "sbox 231 = 148" "sbox 232 = 155"
    "sbox 233 = 30" "sbox 234 = 135" "sbox 235 = 233" "sbox 236 = 206" "sbox 237 = 85"
    "sbox 238 = 40" "sbox 239 = 223" "sbox 240 = 140" "sbox 241 = 161" "sbox 242 = 137"
    "sbox 243 = 13" "sbox 244 = 191" "sbox 245 = 230" "sbox 246 = 66" "sbox 247 = 104"
    "sbox 248 = 65" "sbox 249 = 153" "sbox 250 = 45" "sbox 251 = 15" "sbox 252 = 176"
    "sbox 253 = 84" "sbox 254 = 187" "sbox 255 = 22"
    by (insert h, (elim conjE, assumption)+)
qed

text \<open>The S box is a permutation of the bytes: here is where each byte comes from.\<close>

lemma sbox_onto:
  "map sbox [
    82, 9, 106, 213, 48, 54, 165, 56, 191, 64, 163, 158, 129, 243, 215, 251, 124, 227, 57, 130,
    155, 47, 255, 135, 52, 142, 67, 68, 196, 222, 233, 203, 84, 123, 148, 50, 166, 194, 35, 61,
    238, 76, 149, 11, 66, 250, 195, 78, 8, 46, 161, 102, 40, 217, 36, 178, 118, 91, 162, 73, 109,
    139, 209, 37, 114, 248, 246, 100, 134, 104, 152, 22, 212, 164, 92, 204, 93, 101, 182, 146,
    108, 112, 72, 80, 253, 237, 185, 218, 94, 21, 70, 87, 167, 141, 157, 132, 144, 216, 171, 0,
    140, 188, 211, 10, 247, 228, 88, 5, 184, 179, 69, 6, 208, 44, 30, 143, 202, 63, 15, 2, 193,
    175, 189, 3, 1, 19, 138, 107, 58, 145, 17, 65, 79, 103, 220, 234, 151, 242, 207, 206, 240,
    180, 230, 115, 150, 172, 116, 34, 231, 173, 53, 133, 226, 249, 55, 232, 28, 117, 223, 110,
    71, 241, 26, 113, 29, 41, 197, 137, 111, 183, 98, 14, 170, 24, 190, 27, 252, 86, 62, 75, 198,
    210, 121, 32, 154, 219, 192, 254, 120, 205, 90, 244, 31, 221, 168, 51, 136, 7, 199, 49, 177,
    18, 16, 89, 39, 128, 236, 95, 96, 81, 127, 169, 25, 181, 74, 13, 45, 229, 122, 159, 147, 201,
    156, 239, 160, 224, 59, 77, 174, 42, 245, 176, 200, 235, 187, 60, 131, 83, 153, 97, 23, 43,
    4, 126, 186, 119, 214, 38, 225, 105, 20, 99, 85, 33, 12, 125] =
   map word_of_nat [0..<256]"
  unfolding upt_256 by (simp add: sbox_eval)

lemma inj_sbox: "inj sbox"
proof -
  have "surj sbox"
    unfolding surj_def
  proof
    fix b :: byte
    have "word_of_nat (unat b) \<in> set (map (word_of_nat :: nat \<Rightarrow> byte) [0..<256])"
      unfolding set_map by (rule imageI) simp
    then have "b \<in> set (map word_of_nat [0..<256])" by simp
    then show "\<exists>x. b = sbox x" unfolding sbox_onto [symmetric] by auto
  qed
  then show ?thesis by (simp add: finite_UNIV_surj_inj)
qed

lemma sbox_eq_iff [simp]: "sbox a = sbox b \<longleftrightarrow> a = b"
  using inj_sbox by (auto dest: injD)

lemma xtime_table:
  "Xtime = map (\<lambda>i. push_bit 1 (word_of_nat i) XOR (if 128 \<le> i then 0x1b else 0)) [0..<256]"
  by code_simp

lemma xtime_closed: "xtime b = push_bit 1 b XOR (if 128 \<le> b then 0x1b else 0)"
proof -
  have "xtime b = push_bit 1 (word_of_nat (unat b)) XOR (if 128 \<le> unat b then 0x1b else 0)"
    unfolding xtime_def by (subst xtime_table) simp
  then show ?thesis by (simp add: word_le_nat_alt)
qed

lemma top_bit: "128 \<le> (b :: byte) \<longleftrightarrow> bit b 7"
proof -
  have "unat b div 128 < 2" using unat_byte [of b] by linarith
  then have "odd (unat b div 128) \<longleftrightarrow> 128 \<le> unat b" by (auto simp: less_2_cases_iff)
  moreover have "bit b 7 \<longleftrightarrow> odd (unat b div 128)"
    using bit_unsigned_iff [of b 7, where 'a = nat] by (simp add: bit_iff_odd)
  ultimately show ?thesis by (simp add: word_le_nat_alt)
qed

lemma xtime_xor: "xtime (a XOR b) = xtime a XOR xtime b"
  by (simp add: xtime_closed top_bit push_bit_xor bit_xor_iff xor.assoc xor.left_commute xor.commute)

lemma xor_cancel [simp]: "a XOR (a XOR b) = b" for a b :: byte
  by (simp flip: xor.assoc)


subsection \<open>The rounds are permutations of the states\<close>

definition is_state :: "cstate \<Rightarrow> bool" where
  "is_state st \<longleftrightarrow> length st = 4 \<and> (\<forall>i<4. length (st ! i) = 4)"

lemma upt_small: "[0..<4] = [0, 1, 2, 3]" "[0..<6] = [0, 1, 2, 3, 4, 5]"
  "[0..<8] = [0, 1, 2, 3, 4, 5, 6, 7]" "[1..<10] = [1, 2, 3, 4, 5, 6, 7, 8, 9]"
  "[0..<16] = [0, 1, 2, 3, 4, 5, 6, 7, 8, 9, 10, 11, 12, 13, 14, 15]"
  by (simp_all add: upt_conv_Cons)

lemma less_4: "(\<forall>i<4. P i) \<longleftrightarrow> P 0 \<and> P 1 \<and> P 2 \<and> P (3 :: nat)"
  by (auto simp: numeral_eq_Suc less_Suc_eq)

lemma state_eqI:
  assumes "is_state s" "is_state t" "\<And>i j. i < 4 \<Longrightarrow> j < 4 \<Longrightarrow> at s i j = at t i j"
  shows "s = t"
  using assms by (auto simp: is_state_def at_def list_eq_iff_nth_eq)

lemma is_state_map [simp]: "is_state (map (\<lambda>i. map (f i) [0..<4]) [0..<4])"
  by (simp add: is_state_def)

lemma at_map: "i < 4 \<Longrightarrow> j < 4 \<Longrightarrow> at (map (\<lambda>i. map (f i) [0..<4]) [0..<4]) i j = f i j"
  by (simp add: at_def)

lemma is_state_ops [simp]:
  "is_state (load_state b)" "is_state (KeyAdd st rk)" "is_state (ByteSub st)" "is_state (MixColumn st)"
  "is_state st \<Longrightarrow> is_state (ShiftRow st)"
  by (simp_all add: load_state_def KeyAdd_def ByteSub_def MixColumn_def Let_def)
    (simp add: is_state_def ShiftRow_def less_4)

lemma KeyAdd_inj:
  assumes "is_state s" "is_state t" "KeyAdd s rk = KeyAdd t rk" shows "s = t"
proof (rule state_eqI [OF assms(1,2)])
  fix i j :: nat assume "i < 4" "j < 4"
  then have "at s i j XOR at rk i j = at t i j XOR at rk i j"
    using arg_cong [OF assms(3), of "\<lambda>x. at x i j"] by (simp add: KeyAdd_def at_map)
  from arg_cong [OF this, of "\<lambda>x. at rk i j XOR x"] show "at s i j = at t i j"
    by (simp add: xor.commute)
qed

lemma ByteSub_inj:
  assumes "is_state s" "is_state t" "ByteSub s = ByteSub t" shows "s = t"
proof (rule state_eqI [OF assms(1,2)])
  fix i j :: nat assume "i < 4" "j < 4"
  then show "at s i j = at t i j"
    using arg_cong [OF assms(3), of "\<lambda>x. at x i j"] by (simp add: ByteSub_def at_map)
qed

lemma ShiftRow_inj:
  assumes "is_state s" "is_state t" "ShiftRow s = ShiftRow t" shows "s = t"
proof (rule state_eqI [OF assms(1,2)])
  have "\<forall>i<4. \<forall>j<4. at s i j = at t i j"
    using assms(3) unfolding less_4 by (simp add: ShiftRow_def at_def)
  then show "i < 4 \<Longrightarrow> j < 4 \<Longrightarrow> at s i j = at t i j" for i j by blast
qed

lemma mix_bytes_twice:
  "mix_bytes a0 a1 a2 a3 = [b0, b1, b2, b3] \<Longrightarrow>
   mix_bytes b0 b1 b2 b3 =
     [a0 XOR xtime (xtime (a0 XOR a2)), a1 XOR xtime (xtime (a1 XOR a3)),
      a2 XOR xtime (xtime (a0 XOR a2)), a3 XOR xtime (xtime (a1 XOR a3))]"
  by (auto simp: mix_bytes_def Let_def xtime_xor xor.assoc xor.commute xor.left_commute)

text \<open>MixColumn applied four times is the identity.\<close>

lemma mix_bytes_four:
  assumes b: "mix_bytes a0 a1 a2 a3 = [b0, b1, b2, b3]"
    and d: "mix_bytes b0 b1 b2 b3 = [d0, d1, d2, d3]"
  shows "a0 = d0 XOR xtime (xtime (d0 XOR d2))" "a1 = d1 XOR xtime (xtime (d1 XOR d3))"
    "a2 = d2 XOR xtime (xtime (d0 XOR d2))" "a3 = d3 XOR xtime (xtime (d1 XOR d3))"
proof -
  let ?u = "xtime (xtime (a0 XOR a2))" and ?v = "xtime (xtime (a1 XOR a3))"
  have d': "d0 = a0 XOR ?u" "d1 = a1 XOR ?v" "d2 = a2 XOR ?u" "d3 = a3 XOR ?v"
    using mix_bytes_twice [OF b] d by simp_all
  have c: "(x XOR u) XOR (y XOR u) = x XOR y" "(x XOR u) XOR u = x" for x y u :: byte
    by (simp_all only: xor.assoc xor.left_commute [of u y] xor_self_eq xor.right_neutral)
  show "a0 = d0 XOR xtime (xtime (d0 XOR d2))" "a1 = d1 XOR xtime (xtime (d1 XOR d3))"
    "a2 = d2 XOR xtime (xtime (d0 XOR d2))" "a3 = d3 XOR xtime (xtime (d1 XOR d3))"
    unfolding d' c by (rule refl)+
qed

lemma mix_bytes_ex: "\<exists>b0 b1 b2 b3. mix_bytes a0 a1 a2 a3 = [b0, b1, b2, b3]"
  unfolding mix_bytes_def Let_def by blast

lemma mix_bytes_inj:
  assumes "mix_bytes a0 a1 a2 a3 = mix_bytes c0 c1 c2 c3"
  shows "a0 = c0 \<and> a1 = c1 \<and> a2 = c2 \<and> a3 = c3"
proof -
  obtain b0 b1 b2 b3 where b: "mix_bytes a0 a1 a2 a3 = [b0, b1, b2, b3]"
    using mix_bytes_ex by blast
  obtain d0 d1 d2 d3 where d: "mix_bytes b0 b1 b2 b3 = [d0, d1, d2, d3]"
    using mix_bytes_ex by blast
  have c: "mix_bytes c0 c1 c2 c3 = [b0, b1, b2, b3]" using b unfolding assms .
  show ?thesis unfolding mix_bytes_four [OF b d] mix_bytes_four [OF c d] by (intro conjI refl)
qed

lemma MixColumn_inj:
  assumes "is_state s" "is_state t" "MixColumn s = MixColumn t" shows "s = t"
proof (rule state_eqI [OF assms(1,2)])
  fix i j :: nat assume i: "i < 4" and j: "j < 4"
  let ?m = "\<lambda>st. mix_bytes (at st 0 j) (at st 1 j) (at st 2 j) (at st 3 j)"
  have "?m s ! i' = ?m t ! i'" if "i' < 4" for i'
    using arg_cong [OF assms(3), of "\<lambda>x. at x i' j"] that j
    by (simp add: MixColumn_def Let_def at_map)
  then have "?m s = ?m t" by (simp add: list_eq_iff_nth_eq mix_bytes_def Let_def)
  from mix_bytes_inj [OF this] have "\<forall>i<4. at s i j = at t i j" unfolding less_4 by blast
  with i show "at s i j = at t i j" by blast
qed

lemma full_round_inj:
  "is_state s \<Longrightarrow> is_state t \<Longrightarrow> full_round s rk = full_round t rk \<Longrightarrow> s = t"
  unfolding full_round_def
  by (meson is_state_ops KeyAdd_inj MixColumn_inj ShiftRow_inj ByteSub_inj)

lemma is_state_rounds: "is_state s \<Longrightarrow> is_state (foldl full_round s rks)"
  by (induction rks arbitrary: s) (simp_all add: full_round_def)

lemma rounds_inj:
  "is_state s \<Longrightarrow> is_state t \<Longrightarrow> foldl full_round s rks = foldl full_round t rks \<Longrightarrow> s = t"
proof (induction rks arbitrary: s t)
  case (Cons rk rks)
  then have "full_round s rk = full_round t rk"
    by (simp add: full_round_def)
  with Cons.prems show ?case using full_round_inj by blast
qed simp

lemma load_state_inj:
  assumes "length a = 16" "length b = 16" "load_state a = load_state b" shows "a = b"
proof (rule nth_equalityI)
  fix n assume "n < length a"
  then have n: "n mod 4 < 4" "n div 4 < 4" "4 * (n div 4) + n mod 4 = n" using assms(1) by simp_all
  from arg_cong [OF assms(3), of "\<lambda>x. at x (n mod 4) (n div 4)"] show "a ! n = b ! n"
    using n by (simp add: load_state_def at_map)
qed (simp add: assms)

lemma unload_state_inj:
  assumes "is_state s" "is_state t" "unload_state s = unload_state t" shows "s = t"
proof (rule state_eqI [OF assms(1,2)])
  fix i j :: nat assume ij: "i < 4" "j < 4"
  from arg_cong [OF assms(3), of "\<lambda>x. x ! (4 * j + i)"] show "at s i j = at t i j"
    using ij by (simp add: unload_state_def)
qed

lemma RijndaelEncrypt_length [simp]: "length (RijndaelEncrypt rks b) = 16"
  by (simp add: RijndaelEncrypt_def unload_state_def Let_def)

lemma RijndaelEncrypt_inj:
  assumes "length a = 16" "length b = 16" "RijndaelEncrypt rks a = RijndaelEncrypt rks b"
  shows "a = b"
proof -
  let ?r = "\<lambda>x. foldl full_round (KeyAdd (load_state x) (rks ! 0)) (map (\<lambda>r. rks ! r) [1..<10])"
  have "?r a = ?r b"
    using assms(3) unfolding RijndaelEncrypt_def Let_def
    by (meson is_state_ops is_state_rounds unload_state_inj KeyAdd_inj ShiftRow_inj ByteSub_inj)
  then have "load_state a = load_state b"
    by (meson is_state_ops rounds_inj KeyAdd_inj)
  with assms(1,2) show ?thesis by (rule load_state_inj)
qed

subsection \<open>The MILENAGE functions\<close>

lemma nth_upt_map [simp]: "i < n \<Longrightarrow> map f [0..<n] ! i = f i"
  by simp

lemma xor_block_length [simp]: "length (xor_block a b) = 16"
  by (simp add: xor_block_def)

lemma xor_block_inj:
  assumes "length a = 16" "length b = 16" "xor_block a c = xor_block b c" shows "a = b"
proof (rule nth_equalityI)
  fix i assume "i < length a"
  with assms have "a ! i XOR c ! i = b ! i XOR c ! i"
    using arg_cong [OF assms(3), of "\<lambda>x. x ! i"] by (simp add: xor_block_def)
  from arg_cong [OF this, of "\<lambda>x. x XOR c ! i"] show "a ! i = b ! i" by (simp add: xor.assoc)
qed (simp add: assms)

lemma rotate_store_length [simp]: "length (rotate_store r x old) = length old"
proof -
  have "length (foldl (\<lambda>a i. a[(i + r) mod 16 := x ! i]) old is) = length old" for "is"
    by (induction "is" arbitrary: old) simp_all
  then show ?thesis by (simp add: rotate_store_def)
qed

lemma mod_16_inj: "i < n \<Longrightarrow> n < 16 \<Longrightarrow> (i + r) mod 16 \<noteq> (n + r) mod (16 :: nat)"
  by (metis add_diff_cancel_right dvd_imp_le less_imp_diff_less linorder_not_less
      mod_eq_dvd_iff_nat nat_add_left_cancel_le add.commute less_imp_le zero_less_diff)

lemma rotate_store_nth:
  assumes "length old = 16" "i < 16"
  shows "rotate_store r x old ! ((i + r) mod 16) = x ! i"
proof -
  have "n \<le> 16 \<Longrightarrow> i < n \<Longrightarrow>
      length (foldl (\<lambda>a i. a[(i + r) mod 16 := x ! i]) old [0..<n]) = 16 \<and>
      foldl (\<lambda>a i. a[(i + r) mod 16 := x ! i]) old [0..<n] ! ((i + r) mod 16) = x ! i" for n i
  proof (induction n arbitrary: i)
    case (Suc n)
    have l: "length (foldl (\<lambda>a i. a[(i + r) mod 16 := x ! i]) old [0..<n]) = 16"
      using Suc.IH [of 0] Suc.prems assms(1) by (cases n) simp_all
    show ?case
    proof (cases "i = n")
      case False
      then have "i < n" using Suc.prems by simp
      with Suc.IH [of i] Suc.prems mod_16_inj [of i n r] show ?thesis by (simp add: l)
    qed (simp add: l)
  qed simp
  with assms(2) show ?thesis by (simp add: rotate_store_def)
qed

lemma rotate_store_inj:
  assumes "length x = 16" "length y = 16" "length old = 16"
    and "rotate_store r x old = rotate_store r y old"
  shows "x = y"
  using assms rotate_store_nth by (metis (no_types, lifting) nth_equalityI)

lemma in1_block_inj:
  assumes "length s = 6" "length s' = 6" "length a = 2" "length a' = 2"
    "in1_block s a = in1_block s' a'"
  shows "s = s' \<and> a = a'"
  using assms by (simp add: in1_block_def)

lemma f1_block_length [simp]: "length (f1_block op_c key rnd sqn amf) = 16"
  by (simp add: f1_block_def Let_def)

lemma f1_f1star_block: "f1 op_c key rnd sqn amf @ f1star op_c key rnd sqn amf = f1_block op_c key rnd sqn amf"
  by (rule nth_equalityI) (auto simp: f1_def f1star_def nth_append)

lemma out_block_length [simp]: "length (out_block r c op_c rks temp) = 16"
  by (simp add: out_block_def)

lemma f2345_lengths [simp]:
  "length (f_res (f2345 op_c k rnd)) = 8" "length (f_ck (f2345 op_c k rnd)) = 16"
  "length (f_ik (f2345 op_c k rnd)) = 16" "length (f_ak (f2345 op_c k rnd)) = 6"
  by (simp_all add: f2345_def Let_def)

lemma f1_length [simp]: "length (f1 op_c key rnd sqn amf) = 8"
  by (simp add: f1_def)

lemma generated_token:
  assumes "length sqn = 6" "length amf = 2" and "generate_vector opc k sqn amf rnd = Inr v"
  shows "map (\<lambda>i. mv_autn v ! i XOR f_ak (f2345 opc k rnd) ! i) [0..<6] = sqn \<and>
    take 2 (drop 6 (mv_autn v)) = amf \<and> drop 8 (mv_autn v) = f1 opc k rnd sqn amf \<and>
    length (mv_autn v) = 16 \<and> length (mv_ck v) = 16 \<and> length (mv_ik v) = 16 \<and>
    length (mv_xres v) = 8"
proof -
  obtain a0 a1 where amf: "amf = [a0, a1]"
    using assms(2) by (auto simp: numeral_eq_Suc length_Suc_conv)
  have v: "mv_autn v = map (\<lambda>i. sqn ! i XOR f_ak (f2345 opc k rnd) ! i) [0..<6] @ amf @ f1 opc k rnd sqn amf"
    "mv_ck v = f_ck (f2345 opc k rnd)" "mv_ik v = f_ik (f2345 opc k rnd)"
    "mv_xres v = f_res (f2345 opc k rnd)"
    using assms(3) by (auto simp: generate_vector_def Let_def amf)
  have "map (\<lambda>i. mv_autn v ! i XOR f_ak (f2345 opc k rnd) ! i) [0..<6] = sqn"
    using assms(1) by (intro nth_equalityI) (auto simp: v(1) nth_append xor.assoc)
  with assms(1,2) show ?thesis by (simp add: v)
qed

subsection \<open>Properties\<close>

text \<open>C25: The block cipher is injective under every key: two different 16-byte blocks never have
  the same encryption, because the S box is a permutation and MixColumn has order four.\<close>

theorem rijndael_is_a_permutation:
  assumes "length a = 16" "length b = 16"
  shows "RijndaelEncrypt (RijndaelKeySchedule key) a = RijndaelEncrypt (RijndaelKeySchedule key) b \<longleftrightarrow> a = b"
  using RijndaelEncrypt_inj [OF assms] by blast

lemma rijndael_is_a_permutation_witness:
  "RijndaelEncrypt (RijndaelKeySchedule (replicate 16 0)) (replicate 16 1) \<noteq>
   RijndaelEncrypt (RijndaelKeySchedule (replicate 16 0)) (replicate 16 2)"
  using rijndael_is_a_permutation [of "replicate 16 1" "replicate 16 2" "replicate 16 0"]
  by (simp add: numeral_eq_Suc)

text \<open>The authentication codes bind the sequence number and the AMF: under one key and one
  challenge, MAC-A and MAC-S together are equal only for equal SQN and AMF.\<close>

theorem macs_bind_sqn_and_amf:
  assumes "length sqn = 6" "length sqn' = 6" "length amf = 2" "length amf' = 2"
    and "f1 op_c key rnd sqn amf = f1 op_c key rnd sqn' amf'"
    and "f1star op_c key rnd sqn amf = f1star op_c key rnd sqn' amf'"
  shows "sqn = sqn' \<and> amf = amf'"
proof -
  let ?t = "milenage_temp op_c (RijndaelKeySchedule key) rnd"
  have len: "length (in1_block s a) = 16" if "length s = 6" "length a = 2" for s a
    using that by (simp add: in1_block_def)
  have "f1_block op_c key rnd sqn amf = f1_block op_c key rnd sqn' amf'"
    using assms(5,6) by (metis f1_f1star_block)
  then have "rotate_store 8 (xor_block (in1_block sqn amf) op_c) (xor_block rnd op_c) =
      rotate_store 8 (xor_block (in1_block sqn' amf') op_c) (xor_block rnd op_c)"
    unfolding f1_block_def Let_def
    by (auto dest!: xor_block_inj [rotated 2] RijndaelEncrypt_inj [rotated 2])
  then have "xor_block (in1_block sqn amf) op_c = xor_block (in1_block sqn' amf') op_c"
    by (rule rotate_store_inj [rotated 3]) simp_all
  then have "in1_block sqn amf = in1_block sqn' amf'"
    by (rule xor_block_inj [rotated 2]) (simp_all add: len assms(1-4))
  then show ?thesis by (rule in1_block_inj [OF assms(1-4)])
qed

lemma macs_bind_sqn_and_amf_witness:
  "\<not> (f1 [] [] [] (replicate 6 0) [0, 0] = f1 [] [] [] (replicate 6 1) [0, 0] \<and>
      f1star [] [] [] (replicate 6 0) [0, 0] = f1star [] [] [] (replicate 6 1) [0, 0])"
  using macs_bind_sqn_and_amf [of "replicate 6 0" "replicate 6 1" "[0, 0]" "[0, 0]" "[]" "[]" "[]"]
  by (auto simp: numeral_eq_Suc)

text \<open>An authentication vector always has the sizes the protocol fixes, and the token lets
  the holder of the key, who computes AK itself, read back the sequence number, the AMF and the
  network's MAC: AUTN = SQN xor AK || AMF || MAC-A.\<close>

theorem autn_carries_sqn_amf_mac:
  assumes "length sqn = 6" "length amf = 2" and "generate_vector opc k sqn amf rnd = Inr v"
  shows "map (\<lambda>i. mv_autn v ! i XOR f_ak (f2345 opc k rnd) ! i) [0..<6] = sqn \<and>
    take 2 (drop 6 (mv_autn v)) = amf \<and> drop 8 (mv_autn v) = f1 opc k rnd sqn amf \<and>
    length (mv_autn v) = 16 \<and> length (mv_ck v) = 16 \<and> length (mv_ik v) = 16 \<and>
    length (mv_xres v) = 8"
  by (rule generated_token [OF assms])

lemma autn_carries_sqn_amf_mac_witness:
  "length (mv_autn (projr (generate_vector (replicate 16 1) (replicate 16 2) (replicate 6 3) [4, 5] (replicate 16 6)))) = 16"
  using autn_carries_sqn_amf_mac [of "replicate 6 3" "[4, 5]" "replicate 16 1" "replicate 16 2" "replicate 16 6"
      "projr (generate_vector (replicate 16 1) (replicate 16 2) (replicate 6 3) [4, 5] (replicate 16 6))"]
  by (simp add: generate_vector_def Let_def)

end
