(* ===== verification/Milenage_Vectors.thy ===== *)
theory Milenage_Vectors
  imports Milenage
begin

section \<open>Conformance of MILENAGE with the published test data\<close>

text \<open>
  The functions of \<^verbatim>\<open>crypt/milenage.cpp\<close> on test set 1 of 3GPP TS 35.207.  Each
  encryption is checked round by round: the states between the rounds are listed and every
  round is evaluated by rewriting with the tables of the source.
\<close>

subsection \<open>Evaluation of the round functions on literal states\<close>

lemma KeyAdd_eval:
  "KeyAdd [[a00, a01, a02, a03], [a10, a11, a12, a13], [a20, a21, a22, a23], [a30, a31, a32, a33]]
     [[b00, b01, b02, b03], [b10, b11, b12, b13], [b20, b21, b22, b23], [b30, b31, b32, b33]] =
   [[a00 XOR b00, a01 XOR b01, a02 XOR b02, a03 XOR b03], [a10 XOR b10, a11 XOR b11, a12 XOR b12, a13 XOR b13], [a20 XOR b20, a21 XOR b21, a22 XOR b22, a23 XOR b23], [a30 XOR b30, a31 XOR b31, a32 XOR b32, a33 XOR b33]]"
  by (simp add: KeyAdd_def at_def upt_small)

lemma ByteSub_eval:
  "ByteSub [[a00, a01, a02, a03], [a10, a11, a12, a13], [a20, a21, a22, a23], [a30, a31, a32, a33]] =
   [[sbox a00, sbox a01, sbox a02, sbox a03], [sbox a10, sbox a11, sbox a12, sbox a13], [sbox a20, sbox a21, sbox a22, sbox a23], [sbox a30, sbox a31, sbox a32, sbox a33]]"
  by (simp add: ByteSub_def at_def upt_small)

lemma ShiftRow_eval:
  "ShiftRow [[a00, a01, a02, a03], [a10, a11, a12, a13], [a20, a21, a22, a23], [a30, a31, a32, a33]] =
   [[a00, a01, a02, a03], [a11, a12, a13, a10], [a22, a23, a20, a21], [a33, a30, a31, a32]]"
  by (simp add: ShiftRow_def at_def)

lemma MixColumn_eval:
  "MixColumn [[a00, a01, a02, a03], [a10, a11, a12, a13], [a20, a21, a22, a23], [a30, a31, a32, a33]] =
   (case (mix_bytes a00 a10 a20 a30, mix_bytes a01 a11 a21 a31,
          mix_bytes a02 a12 a22 a32, mix_bytes a03 a13 a23 a33) of
      ([b00, b10, b20, b30], [b01, b11, b21, b31], [b02, b12, b22, b32], [b03, b13, b23, b33]) \<Rightarrow>
   [[b00, b01, b02, b03], [b10, b11, b12, b13], [b20, b21, b22, b23], [b30, b31, b32, b33]])"
  by (simp add: MixColumn_def at_def upt_small mix_bytes_def Let_def)

lemma load_eval:
  "load_state [b0, b1, b2, b3, b4, b5, b6, b7, b8, b9, b10, b11, b12, b13, b14, b15] =
   [[b0, b4, b8, b12], [b1, b5, b9, b13], [b2, b6, b10, b14], [b3, b7, b11, b15]]"
  by (simp add: load_state_def upt_small)

lemma unload_eval:
  "unload_state [[a00, a01, a02, a03], [a10, a11, a12, a13], [a20, a21, a22, a23], [a30, a31, a32, a33]] =
   [a00, a10, a20, a30, a01, a11, a21, a31, a02, a12, a22, a32, a03, a13, a23, a33]"
  by (simp add: unload_state_def at_def upt_small)

lemma next_key_eval:
  "next_round_key rc [[a00, a01, a02, a03], [a10, a11, a12, a13], [a20, a21, a22, a23], [a30, a31, a32, a33]] =
   [[(sbox a13 XOR a00 XOR rc), (a01 XOR (sbox a13 XOR a00 XOR rc)), (a02 XOR (a01 XOR (sbox a13 XOR a00 XOR rc))), (a03 XOR (a02 XOR (a01 XOR (sbox a13 XOR a00 XOR rc))))], [(sbox a23 XOR a10), (a11 XOR (sbox a23 XOR a10)), (a12 XOR (a11 XOR (sbox a23 XOR a10))), (a13 XOR (a12 XOR (a11 XOR (sbox a23 XOR a10))))], [(sbox a33 XOR a20), (a21 XOR (sbox a33 XOR a20)), (a22 XOR (a21 XOR (sbox a33 XOR a20))), (a23 XOR (a22 XOR (a21 XOR (sbox a33 XOR a20))))], [(sbox a03 XOR a30), (a31 XOR (sbox a03 XOR a30)), (a32 XOR (a31 XOR (sbox a03 XOR a30))), (a33 XOR (a32 XOR (a31 XOR (sbox a03 XOR a30))))]]"
  by (simp add: next_round_key_def at_def upt_small Let_def)

lemma not_128_le_1: "\<not> (128 :: byte) \<le> 1"
  by (simp add: word_le_nat_alt)

lemma push_1: "push_bit 1 (a :: byte) = a * 2"
  by (simp add: push_bit_eq_mult)

lemmas cipher_eval = KeyAdd_eval ByteSub_eval ShiftRow_eval MixColumn_eval load_eval unload_eval
  next_key_eval sbox_eval xtime_closed push_1 not_128_le_1 mix_bytes_def full_round_def

lemma xor_block_eval:
  "xor_block [a0, a1, a2, a3, a4, a5, a6, a7, a8, a9, a10, a11, a12, a13, a14, a15]
     [b0, b1, b2, b3, b4, b5, b6, b7, b8, b9, b10, b11, b12, b13, b14, b15] =
   [a0 XOR b0, a1 XOR b1, a2 XOR b2, a3 XOR b3, a4 XOR b4, a5 XOR b5, a6 XOR b6, a7 XOR b7, a8 XOR b8, a9 XOR b9, a10 XOR b10, a11 XOR b11, a12 XOR b12, a13 XOR b13, a14 XOR b14, a15 XOR b15]"
  by (simp add: xor_block_def upt_small)

subsection \<open>The key schedule\<close>

definition demo_k :: block where
  "demo_k = [70, 91, 92, 232, 177, 153, 180, 159, 170, 95, 10, 46, 226, 56, 166, 188]"

definition demo_op :: block where
  "demo_op = [205, 194, 2, 213, 18, 62, 32, 246, 43, 109, 103, 106, 199, 44, 179, 24]"

definition demo_rand :: block where
  "demo_rand = [35, 85, 60, 190, 150, 55, 168, 157, 33, 138, 230, 77, 174, 71, 191, 53]"

definition demo_sqn :: block where
  "demo_sqn = [255, 155, 180, 208, 182, 7]"

definition demo_amf :: block where
  "demo_amf = [185, 185]"

definition demo_opc :: block where
  "demo_opc = [205, 99, 203, 113, 149, 74, 159, 78, 72, 165, 153, 78, 55, 160, 43, 175]"

definition demo_keys :: "cstate list" where
  "demo_keys = [
    [[70, 177, 170, 226], [91, 153, 95, 56], [92, 180, 10, 166], [232, 159, 46, 188]],
    [[64, 241, 91, 185], [127, 230, 185, 129], [57, 141, 135, 33], [112, 239, 193, 125]],
    [[78, 191, 228, 93], [130, 100, 221, 92], [198, 75, 204, 237], [38, 201, 8, 117]],
    [[0, 191, 91, 6], [215, 179, 110, 50], [91, 16, 220, 49], [106, 163, 171, 222]],
    [[43, 148, 207, 201], [16, 163, 205, 255], [70, 86, 138, 187], [5, 166, 13, 211]],
    [[45, 185, 118, 191], [250, 89, 148, 107], [32, 118, 252, 71], [216, 126, 115, 160]],
    [[114, 203, 189, 2], [90, 3, 151, 252], [192, 182, 74, 13], [208, 174, 221, 125]],
    [[130, 73, 244, 246], [141, 142, 25, 229], [63, 137, 195, 206], [167, 9, 212, 169]],
    [[219, 146, 102, 144], [6, 136, 145, 116], [236, 101, 166, 104], [229, 236, 56, 145]],
    [[82, 192, 166, 54], [67, 203, 90, 46], [109, 8, 174, 198], [133, 105, 81, 192]],
    [[85, 149, 51, 5], [247, 60, 102, 72], [215, 223, 113, 183], [128, 233, 184, 120]]]"

lemma xtime_values:
  "xtime 1 = 2" "xtime 2 = 4" "xtime 4 = 8" "xtime 8 = 16" "xtime 16 = 32" "xtime 32 = 64" "xtime 64 = 128" "xtime 128 = 27" "xtime 27 = 54" "xtime 54 = 108"
  by (simp_all add: xtime_closed push_1 not_128_le_1)

lemma demo_keys_eq: "RijndaelKeySchedule demo_k = demo_keys"
proof -
  have k1: "next_round_key 1 [[70, 177, 170, 226], [91, 153, 95, 56], [92, 180, 10, 166], [232, 159, 46, 188]] =
    [[64, 241, 91, 185], [127, 230, 185, 129], [57, 141, 135, 33], [112, 239, 193, 125]]"
    by (simp add: cipher_eval)
  have k2: "next_round_key 2 [[64, 241, 91, 185], [127, 230, 185, 129], [57, 141, 135, 33], [112, 239, 193, 125]] =
    [[78, 191, 228, 93], [130, 100, 221, 92], [198, 75, 204, 237], [38, 201, 8, 117]]"
    by (simp add: cipher_eval)
  have k3: "next_round_key 4 [[78, 191, 228, 93], [130, 100, 221, 92], [198, 75, 204, 237], [38, 201, 8, 117]] =
    [[0, 191, 91, 6], [215, 179, 110, 50], [91, 16, 220, 49], [106, 163, 171, 222]]"
    by (simp add: cipher_eval)
  have k4: "next_round_key 8 [[0, 191, 91, 6], [215, 179, 110, 50], [91, 16, 220, 49], [106, 163, 171, 222]] =
    [[43, 148, 207, 201], [16, 163, 205, 255], [70, 86, 138, 187], [5, 166, 13, 211]]"
    by (simp add: cipher_eval)
  have k5: "next_round_key 16 [[43, 148, 207, 201], [16, 163, 205, 255], [70, 86, 138, 187], [5, 166, 13, 211]] =
    [[45, 185, 118, 191], [250, 89, 148, 107], [32, 118, 252, 71], [216, 126, 115, 160]]"
    by (simp add: cipher_eval)
  have k6: "next_round_key 32 [[45, 185, 118, 191], [250, 89, 148, 107], [32, 118, 252, 71], [216, 126, 115, 160]] =
    [[114, 203, 189, 2], [90, 3, 151, 252], [192, 182, 74, 13], [208, 174, 221, 125]]"
    by (simp add: cipher_eval)
  have k7: "next_round_key 64 [[114, 203, 189, 2], [90, 3, 151, 252], [192, 182, 74, 13], [208, 174, 221, 125]] =
    [[130, 73, 244, 246], [141, 142, 25, 229], [63, 137, 195, 206], [167, 9, 212, 169]]"
    by (simp add: cipher_eval)
  have k8: "next_round_key 128 [[130, 73, 244, 246], [141, 142, 25, 229], [63, 137, 195, 206], [167, 9, 212, 169]] =
    [[219, 146, 102, 144], [6, 136, 145, 116], [236, 101, 166, 104], [229, 236, 56, 145]]"
    by (simp add: cipher_eval)
  have k9: "next_round_key 27 [[219, 146, 102, 144], [6, 136, 145, 116], [236, 101, 166, 104], [229, 236, 56, 145]] =
    [[82, 192, 166, 54], [67, 203, 90, 46], [109, 8, 174, 198], [133, 105, 81, 192]]"
    by (simp add: cipher_eval)
  have k10: "next_round_key 54 [[82, 192, 166, 54], [67, 203, 90, 46], [109, 8, 174, 198], [133, 105, 81, 192]] =
    [[85, 149, 51, 5], [247, 60, 102, 72], [215, 223, 113, 183], [128, 233, 184, 120]]"
    by (simp add: cipher_eval)
  have ten: "10 = Suc (Suc (Suc (Suc (Suc (Suc (Suc (Suc (Suc (Suc 0)))))))))" by simp
  show ?thesis
    unfolding RijndaelKeySchedule_def Let_def demo_k_def load_eval demo_keys_def ten
    by (simp only: schedule_loop.simps Let_def k1 k2 k3 k4 k5 k6 k7 k8 k9 k10 xtime_values)
qed

subsection \<open>The encryptions\<close>

lemma encrypt_rounds:
  assumes "length rks = 11" "KeyAdd (load_state b) (rks ! 0) = st_in" "foldl full_round st_in (take 9 (tl rks)) = st_out"
  shows "RijndaelEncrypt rks b = unload_state (KeyAdd (ShiftRow (ByteSub st_out)) (rks ! 10))"
proof -
  have "map (\<lambda>r. rks ! r) [1..<10] = take 9 (tl rks)"
    using assms(1) by (auto simp: list_eq_iff_nth_eq nth_tl)
  with assms show ?thesis by (simp add: RijndaelEncrypt_def Let_def)
qed

lemma encrypt_op:
  "RijndaelEncrypt demo_keys [205, 194, 2, 213, 18, 62, 32, 246, 43, 109, 103, 106, 199, 44, 179, 24] =
   [0, 161, 201, 164, 135, 116, 191, 184, 99, 200, 254, 36, 240, 140, 152, 183]"
proof -
  have r1: "full_round [[139, 163, 129, 37], [153, 167, 50, 20], [94, 148, 109, 21], [61, 105, 68, 164]]
      [[64, 241, 91, 185], [127, 230, 185, 129], [57, 141, 135, 33], [112, 239, 193, 125]] =
    [[171, 254, 247, 215], [247, 102, 75, 4], [251, 127, 209, 153], [197, 197, 158, 198]]"
    by (simp add: cipher_eval)
  have r2: "full_round [[171, 254, 247, 215], [247, 102, 75, 4], [251, 127, 209, 153], [197, 197, 158, 198]]
      [[78, 191, 228, 93], [130, 100, 221, 92], [198, 75, 204, 237], [38, 201, 8, 117]] =
    [[85, 84, 144, 32], [112, 45, 253, 228], [44, 117, 185, 41], [254, 21, 26, 203]]"
    by (simp add: cipher_eval)
  have r3: "full_round [[85, 84, 144, 32], [112, 45, 253, 228], [44, 117, 185, 41], [254, 21, 26, 203]]
      [[0, 191, 91, 6], [215, 179, 110, 50], [91, 16, 220, 49], [106, 163, 171, 222]] =
    [[217, 29, 8, 191], [101, 116, 22, 57], [242, 227, 220, 11], [197, 95, 161, 143]]"
    by (simp add: cipher_eval)
  have r4: "full_round [[217, 29, 8, 191], [101, 116, 22, 57], [242, 227, 220, 11], [197, 95, 161, 143]]
      [[43, 148, 207, 201], [16, 163, 205, 255], [70, 86, 138, 187], [5, 166, 13, 211]] =
    [[25, 131, 223, 45], [248, 82, 150, 108], [99, 18, 235, 138], [168, 106, 67, 243]]"
    by (simp add: cipher_eval)
  have r5: "full_round [[25, 131, 223, 45], [248, 82, 150, 108], [99, 18, 235, 138], [168, 106, 67, 243]]
      [[45, 185, 118, 191], [250, 89, 148, 107], [32, 118, 252, 71], [216, 126, 115, 160]] =
    [[122, 109, 88, 4], [3, 206, 190, 107], [42, 171, 217, 121], [76, 32, 101, 111]]"
    by (simp add: cipher_eval)
  have r6: "full_round [[122, 109, 88, 4], [3, 206, 190, 107], [42, 171, 217, 121], [76, 32, 101, 111]]
      [[114, 203, 189, 2], [90, 3, 151, 252], [192, 182, 74, 13], [208, 174, 221, 125]] =
    [[198, 197, 186, 95], [122, 144, 128, 19], [24, 40, 76, 151], [80, 160, 140, 243]]"
    by (simp add: cipher_eval)
  have r7: "full_round [[198, 197, 186, 95], [122, 144, 128, 19], [24, 40, 76, 151], [80, 160, 140, 243]]
      [[130, 73, 244, 246], [141, 142, 25, 229], [63, 137, 195, 206], [167, 9, 212, 169]] =
    [[117, 137, 205, 86], [143, 121, 27, 189], [174, 28, 48, 31], [51, 27, 216, 197]]"
    by (simp add: cipher_eval)
  have r8: "full_round [[117, 137, 205, 86], [143, 121, 27, 189], [174, 28, 48, 31], [51, 27, 216, 197]]
      [[219, 146, 102, 144], [6, 136, 145, 116], [236, 101, 166, 104], [229, 236, 56, 145]] =
    [[153, 46, 194, 129], [70, 242, 64, 253], [62, 168, 88, 42], [188, 236, 63, 116]]"
    by (simp add: cipher_eval)
  have r9: "full_round [[153, 46, 194, 129], [70, 242, 64, 253], [62, 168, 88, 42], [188, 236, 63, 116]]
      [[82, 192, 166, 54], [67, 203, 90, 46], [109, 8, 174, 198], [133, 105, 81, 192]] =
    [[237, 57, 108, 119], [136, 185, 212, 190], [115, 78, 233, 144], [112, 28, 95, 166]]"
    by (simp add: cipher_eval)
  have "RijndaelEncrypt demo_keys [205, 194, 2, 213, 18, 62, 32, 246, 43, 109, 103, 106, 199, 44, 179, 24] =
      unload_state (KeyAdd (ShiftRow (ByteSub [[237, 57, 108, 119], [136, 185, 212, 190], [115, 78, 233, 144], [112, 28, 95, 166]])) (demo_keys ! 10))"
    by (rule encrypt_rounds [where st_in = "[[139, 163, 129, 37], [153, 167, 50, 20], [94, 148, 109, 21], [61, 105, 68, 164]]"])
      (simp_all add: demo_keys_def load_eval KeyAdd_eval r1 r2 r3 r4 r5 r6 r7 r8 r9)
  then show ?thesis by (simp add: demo_keys_def cipher_eval)
qed

lemma encrypt_temp:
  "RijndaelEncrypt demo_keys [238, 54, 247, 207, 3, 125, 55, 211, 105, 47, 127, 3, 153, 231, 148, 154] =
   [158, 41, 128, 197, 151, 57, 218, 103, 177, 54, 53, 94, 60, 237, 230, 162]"
proof -
  have r1: "full_round [[168, 178, 195, 123], [109, 228, 112, 223], [171, 131, 117, 50], [39, 76, 45, 38]]
      [[64, 241, 91, 185], [127, 230, 185, 129], [57, 141, 135, 33], [112, 239, 193, 125]] =
    [[14, 131, 245, 139], [36, 218, 63, 47], [177, 226, 136, 140], [44, 71, 29, 101]]"
    by (simp add: cipher_eval)
  have r2: "full_round [[14, 131, 245, 139], [36, 218, 63, 47], [177, 226, 136, 140], [44, 71, 29, 101]]
      [[78, 191, 228, 93], [130, 100, 221, 92], [198, 75, 204, 237], [38, 201, 8, 117]] =
    [[115, 246, 100, 65], [157, 191, 242, 26], [126, 137, 79, 58], [201, 21, 191, 207]]"
    by (simp add: cipher_eval)
  have r3: "full_round [[115, 246, 100, 65], [157, 191, 242, 26], [126, 137, 79, 58], [201, 21, 191, 207]]
      [[0, 191, 91, 6], [215, 179, 110, 50], [91, 16, 220, 49], [106, 163, 171, 222]] =
    [[19, 230, 138, 86], [85, 190, 37, 247], [74, 188, 43, 161], [99, 205, 141, 169]]"
    by (simp add: cipher_eval)
  have r4: "full_round [[19, 230, 138, 86], [85, 190, 37, 247], [74, 188, 43, 161], [99, 205, 141, 169]]
      [[43, 148, 207, 201], [16, 163, 205, 255], [70, 86, 138, 187], [5, 166, 13, 211]] =
    [[26, 27, 224, 151], [241, 254, 191, 95], [2, 149, 247, 219], [96, 207, 80, 56]]"
    by (simp add: cipher_eval)
  have r5: "full_round [[26, 27, 224, 151], [241, 254, 191, 95], [2, 149, 247, 219], [96, 207, 80, 56]]
      [[45, 185, 118, 191], [250, 89, 148, 107], [32, 118, 252, 71], [216, 126, 115, 160]] =
    [[203, 141, 24, 53], [138, 230, 227, 151], [224, 211, 185, 207], [248, 158, 252, 14]]"
    by (simp add: cipher_eval)
  have r6: "full_round [[203, 141, 24, 53], [138, 230, 227, 151], [224, 211, 185, 207], [248, 158, 252, 14]]
      [[114, 203, 189, 2], [90, 3, 151, 252], [192, 182, 74, 13], [208, 174, 221, 125]] =
    [[56, 137, 149, 97], [19, 184, 2, 140], [27, 54, 171, 226], [100, 80, 78, 191]]"
    by (simp add: cipher_eval)
  have r7: "full_round [[56, 137, 149, 97], [19, 184, 2, 140], [27, 54, 171, 226], [100, 80, 78, 191]]
      [[130, 73, 244, 246], [141, 142, 25, 229], [63, 137, 195, 206], [167, 9, 212, 169]] =
    [[82, 94, 240, 158], [252, 55, 66, 208], [136, 183, 61, 39], [176, 146, 199, 165]]"
    by (simp add: cipher_eval)
  have r8: "full_round [[82, 94, 240, 158], [252, 55, 66, 208], [136, 183, 61, 39], [176, 146, 199, 165]]
      [[219, 146, 102, 144], [6, 136, 145, 116], [236, 101, 166, 104], [229, 236, 56, 145]] =
    [[79, 125, 126, 34], [70, 32, 229, 34], [50, 160, 24, 203], [84, 49, 157, 2]]"
    by (simp add: cipher_eval)
  have r9: "full_round [[79, 125, 126, 34], [70, 32, 229, 34], [50, 160, 24, 203], [84, 49, 157, 2]]
      [[82, 192, 166, 54], [67, 203, 90, 46], [109, 8, 174, 198], [133, 105, 81, 192]] =
    [[89, 106, 17, 91], [41, 156, 54, 108], [134, 112, 218, 54], [230, 245, 122, 104]]"
    by (simp add: cipher_eval)
  have "RijndaelEncrypt demo_keys [238, 54, 247, 207, 3, 125, 55, 211, 105, 47, 127, 3, 153, 231, 148, 154] =
      unload_state (KeyAdd (ShiftRow (ByteSub [[89, 106, 17, 91], [41, 156, 54, 108], [134, 112, 218, 54], [230, 245, 122, 104]])) (demo_keys ! 10))"
    by (rule encrypt_rounds [where st_in = "[[168, 178, 195, 123], [109, 228, 112, 223], [171, 131, 117, 50], [39, 76, 45, 38]]"])
      (simp_all add: demo_keys_def load_eval KeyAdd_eval r1 r2 r3 r4 r5 r6 r7 r8 r9)
  then show ?thesis by (simp add: demo_keys_def cipher_eval)
qed

lemma encrypt_out1:
  "RijndaelEncrypt demo_keys [41, 23, 173, 91, 22, 158, 72, 113, 131, 206, 74, 255, 31, 160, 192, 85] =
   [135, 252, 49, 178, 193, 149, 48, 253, 73, 106, 54, 208, 243, 72, 90, 70]"
proof -
  have r1: "full_round [[111, 167, 41, 253], [76, 7, 145, 152], [241, 252, 64, 102], [179, 238, 209, 233]]
      [[64, 241, 91, 185], [127, 230, 185, 129], [57, 141, 135, 33], [112, 239, 193, 125]] =
    [[72, 143, 73, 228], [67, 155, 64, 114], [100, 129, 69, 101], [99, 99, 130, 100]]"
    by (simp add: cipher_eval)
  have r2: "full_round [[72, 143, 73, 228], [67, 155, 64, 114], [100, 129, 69, 101], [99, 99, 130, 100]]
      [[78, 191, 228, 93], [130, 100, 221, 92], [198, 75, 204, 237], [38, 201, 8, 117]] =
    [[251, 244, 234, 190], [9, 41, 88, 6], [153, 189, 39, 179], [44, 245, 171, 254]]"
    by (simp add: cipher_eval)
  have r3: "full_round [[251, 244, 234, 190], [9, 41, 88, 6], [153, 189, 39, 179], [44, 245, 171, 254]]
      [[0, 191, 91, 6], [215, 179, 110, 50], [91, 16, 220, 49], [106, 163, 171, 222]] =
    [[157, 120, 247, 90], [125, 30, 248, 114], [164, 140, 194, 204], [127, 156, 111, 136]]"
    by (simp add: cipher_eval)
  have r4: "full_round [[157, 120, 247, 90], [125, 30, 248, 114], [164, 140, 194, 204], [127, 156, 111, 136]]
      [[43, 148, 207, 201], [16, 163, 205, 255], [70, 86, 138, 187], [5, 166, 13, 211]] =
    [[224, 173, 72, 120], [1, 146, 32, 160], [119, 80, 73, 209], [35, 204, 27, 218]]"
    by (simp add: cipher_eval)
  have r5: "full_round [[224, 173, 72, 120], [1, 146, 32, 160], [119, 80, 73, 209], [35, 204, 27, 218]]
      [[45, 185, 118, 191], [250, 89, 148, 107], [32, 118, 252, 71], [216, 126, 115, 160]] =
    [[73, 82, 87, 164], [159, 221, 82, 117], [1, 66, 98, 203], [58, 31, 6, 21]]"
    by (simp add: cipher_eval)
  have r6: "full_round [[73, 82, 87, 164], [159, 221, 82, 117], [1, 66, 98, 203], [58, 31, 6, 21]]
      [[114, 203, 189, 2], [90, 3, 151, 252], [192, 182, 74, 13], [208, 174, 221, 125]] =
    [[175, 84, 11, 165], [68, 162, 169, 3], [158, 19, 47, 118], [68, 170, 74, 143]]"
    by (simp add: cipher_eval)
  have r7: "full_round [[175, 84, 11, 165], [68, 162, 169, 3], [158, 19, 47, 118], [68, 170, 74, 143]]
      [[130, 73, 244, 246], [141, 142, 25, 229], [63, 137, 195, 206], [167, 9, 212, 169]] =
    [[88, 68, 136, 124], [204, 64, 117, 132], [195, 39, 106, 72], [229, 180, 154, 114]]"
    by (simp add: cipher_eval)
  have r8: "full_round [[88, 68, 136, 124], [204, 64, 117, 132], [195, 39, 106, 72], [229, 180, 154, 114]]
      [[219, 146, 102, 144], [6, 136, 145, 116], [236, 101, 166, 104], [229, 236, 56, 145]] =
    [[86, 147, 183, 25], [56, 157, 20, 5], [75, 55, 237, 99], [208, 167, 31, 77]]"
    by (simp add: cipher_eval)
  have r9: "full_round [[86, 147, 183, 25], [56, 157, 20, 5], [75, 55, 237, 99], [208, 167, 31, 77]]
      [[82, 192, 166, 54], [67, 203, 90, 46], [109, 8, 174, 198], [133, 105, 81, 192]] =
    [[127, 253, 189, 214], [82, 158, 183, 129], [22, 83, 245, 97], [155, 247, 209, 161]]"
    by (simp add: cipher_eval)
  have "RijndaelEncrypt demo_keys [41, 23, 173, 91, 22, 158, 72, 113, 131, 206, 74, 255, 31, 160, 192, 85] =
      unload_state (KeyAdd (ShiftRow (ByteSub [[127, 253, 189, 214], [82, 158, 183, 129], [22, 83, 245, 97], [155, 247, 209, 161]])) (demo_keys ! 10))"
    by (rule encrypt_rounds [where st_in = "[[111, 167, 41, 253], [76, 7, 145, 152], [241, 252, 64, 102], [179, 238, 209, 233]]"])
      (simp_all add: demo_keys_def load_eval KeyAdd_eval r1 r2 r3 r4 r5 r6 r7 r8 r9)
  then show ?thesis by (simp add: demo_keys_def cipher_eval)
qed

lemma encrypt_out2:
  "RijndaelEncrypt demo_keys [83, 74, 75, 180, 2, 115, 69, 41, 249, 147, 172, 16, 11, 77, 205, 12] =
   [103, 11, 87, 21, 22, 58, 51, 80, 237, 231, 136, 155, 212, 26, 123, 16]"
proof -
  have r1: "full_round [[21, 179, 83, 233], [17, 234, 204, 117], [23, 241, 166, 107], [92, 182, 62, 176]]
      [[64, 241, 91, 185], [127, 230, 185, 129], [57, 141, 135, 33], [112, 239, 193, 125]] =
    [[163, 195, 152, 11], [184, 214, 48, 202], [157, 139, 222, 41], [237, 248, 28, 3]]"
    by (simp add: cipher_eval)
  have r2: "full_round [[163, 195, 152, 11], [184, 214, 48, 202], [157, 139, 222, 41], [237, 248, 28, 3]]
      [[78, 191, 228, 93], [130, 100, 221, 92], [198, 75, 204, 237], [38, 201, 8, 117]] =
    [[61, 31, 235, 30], [35, 227, 208, 116], [141, 207, 129, 111], [37, 176, 106, 122]]"
    by (simp add: cipher_eval)
  have r3: "full_round [[61, 31, 235, 30], [35, 227, 208, 116], [141, 207, 129, 111], [37, 176, 106, 122]]
      [[0, 191, 91, 6], [215, 179, 110, 50], [91, 16, 220, 49], [106, 163, 171, 222]] =
    [[171, 35, 133, 0], [28, 79, 184, 139], [0, 170, 47, 108], [177, 94, 145, 224]]"
    by (simp add: cipher_eval)
  have r4: "full_round [[171, 35, 133, 0], [28, 79, 184, 139], [0, 170, 47, 108], [177, 94, 145, 224]]
      [[43, 148, 207, 201], [16, 163, 205, 255], [70, 86, 138, 187], [5, 166, 13, 211]] =
    [[140, 244, 134, 157], [191, 101, 221, 209], [178, 255, 14, 159], [235, 123, 65, 95]]"
    by (simp add: cipher_eval)
  have r5: "full_round [[140, 244, 134, 157], [191, 101, 221, 209], [178, 255, 14, 159], [235, 123, 65, 95]]
      [[45, 185, 118, 191], [250, 89, 148, 107], [32, 118, 252, 71], [216, 126, 115, 160]] =
    [[86, 182, 170, 142], [45, 224, 212, 156], [14, 133, 139, 163], [23, 119, 244, 65]]"
    by (simp add: cipher_eval)
  have r6: "full_round [[86, 182, 170, 142], [45, 224, 212, 156], [14, 133, 139, 163], [23, 119, 244, 65]]
      [[114, 203, 189, 2], [90, 3, 151, 252], [192, 182, 74, 13], [208, 174, 221, 125]] =
    [[141, 117, 217, 107], [246, 51, 143, 83], [116, 175, 113, 35], [217, 197, 182, 124]]"
    by (simp add: cipher_eval)
  have r7: "full_round [[141, 117, 217, 107], [246, 51, 143, 83], [116, 175, 113, 35], [217, 197, 182, 124]]
      [[130, 73, 244, 246], [141, 142, 25, 229], [63, 137, 195, 206], [167, 9, 212, 169]] =
    [[213, 238, 134, 249], [163, 170, 230, 219], [204, 116, 213, 211], [0, 138, 163, 143]]"
    by (simp add: cipher_eval)
  have r8: "full_round [[213, 238, 134, 249], [163, 170, 230, 219], [204, 116, 213, 211], [0, 138, 163, 143]]
      [[219, 146, 102, 144], [6, 136, 145, 116], [236, 101, 166, 104], [229, 236, 56, 145]] =
    [[66, 78, 11, 63], [48, 110, 31, 94], [208, 170, 79, 218], [169, 186, 250, 173]]"
    by (simp add: cipher_eval)
  have r9: "full_round [[66, 78, 11, 63], [48, 110, 31, 94], [208, 170, 79, 218], [169, 186, 250, 173]]
      [[82, 192, 166, 54], [67, 203, 90, 46], [109, 8, 174, 198], [133, 105, 81, 192]] =
    [[161, 65, 156, 81], [72, 85, 165, 145], [105, 39, 58, 131], [219, 50, 247, 173]]"
    by (simp add: cipher_eval)
  have "RijndaelEncrypt demo_keys [83, 74, 75, 180, 2, 115, 69, 41, 249, 147, 172, 16, 11, 77, 205, 12] =
      unload_state (KeyAdd (ShiftRow (ByteSub [[161, 65, 156, 81], [72, 85, 165, 145], [105, 39, 58, 131], [219, 50, 247, 173]])) (demo_keys ! 10))"
    by (rule encrypt_rounds [where st_in = "[[21, 179, 83, 233], [17, 234, 204, 117], [23, 241, 166, 107], [92, 182, 62, 176]]"])
      (simp_all add: demo_keys_def load_eval KeyAdd_eval r1 r2 r3 r4 r5 r6 r7 r8 r9)
  then show ?thesis by (simp add: demo_keys_def cipher_eval)
qed

lemma encrypt_out3:
  "RijndaelEncrypt demo_keys [2, 115, 69, 41, 249, 147, 172, 16, 11, 77, 205, 13, 83, 74, 75, 182] =
   [121, 104, 98, 210, 80, 193, 181, 75, 243, 85, 64, 201, 133, 187, 211, 100]"
proof -
  have r1: "full_round [[68, 72, 161, 177], [40, 10, 18, 114], [25, 24, 199, 237], [193, 143, 35, 10]]
      [[64, 241, 91, 185], [127, 230, 185, 129], [57, 141, 135, 33], [112, 239, 193, 125]] =
    [[126, 56, 88, 229], [156, 186, 31, 235], [123, 52, 211, 246], [50, 117, 229, 235]]"
    by (simp add: cipher_eval)
  have r2: "full_round [[126, 56, 88, 229], [156, 186, 31, 235], [123, 52, 211, 246], [50, 117, 229, 235]]
      [[78, 191, 228, 93], [130, 100, 221, 92], [198, 75, 204, 237], [38, 201, 8, 117]] =
    [[59, 139, 172, 76], [193, 29, 128, 211], [45, 109, 177, 170], [115, 4, 95, 106]]"
    by (simp add: cipher_eval)
  have r3: "full_round [[59, 139, 172, 76], [193, 29, 128, 211], [45, 109, 177, 170], [115, 4, 95, 106]]
      [[0, 191, 91, 6], [215, 179, 110, 50], [91, 16, 220, 49], [106, 163, 171, 222]] =
    [[226, 170, 226, 47], [39, 111, 178, 96], [144, 41, 141, 82], [63, 128, 66, 100]]"
    by (simp add: cipher_eval)
  have r4: "full_round [[226, 170, 226, 47], [39, 111, 178, 96], [144, 41, 141, 82], [63, 128, 66, 100]]
      [[43, 148, 207, 201], [16, 163, 205, 255], [70, 86, 138, 187], [5, 166, 13, 211]] =
    [[253, 251, 34, 37], [103, 20, 131, 177], [9, 82, 78, 71], [197, 148, 143, 221]]"
    by (simp add: cipher_eval)
  have r5: "full_round [[253, 251, 34, 37], [103, 20, 131, 177], [9, 82, 78, 71], [197, 148, 143, 221]]
      [[45, 185, 118, 191], [250, 89, 148, 107], [32, 118, 252, 71], [216, 126, 115, 160]] =
    [[126, 142, 43, 38], [241, 200, 173, 54], [136, 63, 195, 104], [104, 116, 80, 130]]"
    by (simp add: cipher_eval)
  have r6: "full_round [[126, 142, 43, 38], [241, 200, 173, 54], [136, 63, 195, 104], [104, 116, 80, 130]]
      [[114, 203, 189, 2], [90, 3, 151, 252], [192, 182, 74, 13], [208, 174, 221, 125]] =
    [[145, 93, 29, 41], [3, 161, 169, 158], [178, 127, 128, 68], [62, 223, 43, 13]]"
    by (simp add: cipher_eval)
  have r7: "full_round [[145, 93, 29, 41], [3, 161, 169, 158], [178, 127, 128, 68], [62, 223, 43, 13]]
      [[130, 73, 244, 246], [141, 142, 25, 229], [63, 137, 195, 206], [167, 9, 212, 169]] =
    [[215, 22, 19, 9], [243, 224, 108, 42], [111, 237, 187, 167], [117, 106, 56, 13]]"
    by (simp add: cipher_eval)
  have r8: "full_round [[215, 22, 19, 9], [243, 224, 108, 42], [111, 237, 187, 167], [117, 106, 56, 13]]
      [[219, 146, 102, 144], [6, 136, 145, 116], [236, 101, 166, 104], [229, 236, 56, 145]] =
    [[194, 45, 2, 215], [35, 22, 220, 151], [174, 118, 115, 199], [73, 8, 246, 196]]"
    by (simp add: cipher_eval)
  have r9: "full_round [[194, 45, 2, 215], [35, 22, 220, 151], [174, 118, 115, 199], [73, 8, 246, 196]]
      [[82, 192, 166, 54], [67, 203, 90, 46], [109, 8, 174, 198], [133, 105, 81, 192]] =
    [[66, 7, 31, 58], [126, 110, 33, 102], [46, 140, 210, 88], [26, 44, 196, 72]]"
    by (simp add: cipher_eval)
  have "RijndaelEncrypt demo_keys [2, 115, 69, 41, 249, 147, 172, 16, 11, 77, 205, 13, 83, 74, 75, 182] =
      unload_state (KeyAdd (ShiftRow (ByteSub [[66, 7, 31, 58], [126, 110, 33, 102], [46, 140, 210, 88], [26, 44, 196, 72]])) (demo_keys ! 10))"
    by (rule encrypt_rounds [where st_in = "[[68, 72, 161, 177], [40, 10, 18, 114], [25, 24, 199, 237], [193, 143, 35, 10]]"])
      (simp_all add: demo_keys_def load_eval KeyAdd_eval r1 r2 r3 r4 r5 r6 r7 r8 r9)
  then show ?thesis by (simp add: demo_keys_def cipher_eval)
qed

lemma encrypt_out4:
  "RijndaelEncrypt demo_keys [249, 147, 172, 16, 11, 77, 205, 13, 83, 74, 75, 180, 2, 115, 69, 45] =
   [58, 10, 119, 166, 196, 78, 217, 74, 90, 211, 235, 63, 43, 205, 31, 238]"
proof -
  have r1: "full_round [[191, 186, 249, 224], [200, 212, 21, 75], [240, 121, 65, 227], [248, 146, 154, 145]]
      [[64, 241, 91, 185], [127, 230, 185, 129], [57, 141, 135, 33], [112, 239, 193, 125]] =
    [[138, 185, 127, 77], [248, 210, 157, 210], [252, 193, 127, 140], [186, 34, 208, 112]]"
    by (simp add: cipher_eval)
  have r2: "full_round [[138, 185, 127, 77], [248, 210, 157, 210], [252, 193, 127, 140], [186, 34, 208, 112]]
      [[78, 191, 228, 93], [130, 100, 221, 92], [198, 75, 204, 237], [38, 201, 8, 117]] =
    [[245, 97, 188, 75], [177, 214, 38, 197], [65, 140, 126, 47], [97, 250, 93, 146]]"
    by (simp add: cipher_eval)
  have r3: "full_round [[245, 97, 188, 75], [177, 214, 38, 197], [65, 140, 126, 47], [97, 250, 93, 146]]
      [[0, 191, 91, 6], [215, 179, 110, 50], [91, 16, 220, 49], [106, 163, 171, 222]] =
    [[106, 130, 206, 16], [135, 121, 239, 234], [103, 8, 117, 86], [192, 174, 123, 36]]"
    by (simp add: cipher_eval)
  have r4: "full_round [[106, 130, 206, 16], [135, 121, 239, 234], [103, 8, 117, 86], [192, 174, 123, 36]]
      [[43, 148, 207, 201], [16, 163, 205, 255], [70, 86, 138, 187], [5, 166, 13, 211]] =
    [[69, 195, 49, 110], [239, 103, 35, 106], [137, 54, 160, 101], [68, 146, 90, 243]]"
    by (simp add: cipher_eval)
  have r5: "full_round [[69, 195, 49, 110], [239, 103, 35, 106], [137, 54, 160, 101], [68, 146, 90, 243]]
      [[45, 185, 118, 191], [250, 89, 148, 107], [32, 118, 252, 71], [216, 126, 115, 160]] =
    [[136, 217, 13, 91], [179, 247, 234, 224], [7, 201, 189, 212], [21, 81, 26, 167]]"
    by (simp add: cipher_eval)
  have r6: "full_round [[136, 217, 13, 91], [179, 247, 234, 224], [7, 201, 189, 212], [21, 81, 26, 167]]
      [[114, 203, 189, 2], [90, 3, 151, 252], [192, 182, 74, 13], [208, 174, 221, 125]] =
    [[127, 34, 36, 184], [156, 162, 28, 193], [124, 127, 133, 5], [45, 140, 34, 217]]"
    by (simp add: cipher_eval)
  have r7: "full_round [[127, 34, 36, 184], [156, 162, 28, 193], [124, 127, 133, 5], [45, 140, 34, 217]]
      [[130, 73, 244, 246], [141, 142, 25, 229], [63, 137, 195, 206], [167, 9, 212, 169]] =
    [[209, 120, 100, 22], [188, 91, 139, 208], [189, 35, 1, 109], [13, 251, 46, 44]]"
    by (simp add: cipher_eval)
  have r8: "full_round [[209, 120, 100, 22], [188, 91, 139, 208], [189, 35, 1, 109], [13, 251, 46, 44]]
      [[219, 146, 102, 144], [6, 136, 145, 116], [236, 101, 166, 104], [229, 236, 56, 145]] =
    [[225, 93, 5, 166], [191, 221, 179, 162], [128, 254, 112, 85], [0, 135, 233, 121]]"
    by (simp add: cipher_eval)
  have r9: "full_round [[225, 93, 5, 166], [191, 221, 179, 162], [128, 254, 112, 85], [0, 135, 233, 121]]
      [[82, 192, 166, 54], [67, 203, 90, 46], [109, 8, 174, 198], [133, 105, 81, 192]] =
    [[6, 112, 228, 195], [103, 33, 30, 210], [55, 111, 71, 165], [113, 234, 53, 35]]"
    by (simp add: cipher_eval)
  have "RijndaelEncrypt demo_keys [249, 147, 172, 16, 11, 77, 205, 13, 83, 74, 75, 180, 2, 115, 69, 45] =
      unload_state (KeyAdd (ShiftRow (ByteSub [[6, 112, 228, 195], [103, 33, 30, 210], [55, 111, 71, 165], [113, 234, 53, 35]])) (demo_keys ! 10))"
    by (rule encrypt_rounds [where st_in = "[[191, 186, 249, 224], [200, 212, 21, 75], [240, 121, 65, 227], [248, 146, 154, 145]]"])
      (simp_all add: demo_keys_def load_eval KeyAdd_eval r1 r2 r3 r4 r5 r6 r7 r8 r9)
  then show ?thesis by (simp add: demo_keys_def cipher_eval)
qed

lemma encrypt_out5:
  "RijndaelEncrypt demo_keys [11, 77, 205, 13, 83, 74, 75, 180, 2, 115, 69, 41, 249, 147, 172, 24] =
   [136, 125, 64, 157, 49, 113, 231, 174, 177, 229, 81, 149, 99, 93, 10, 110]"
proof -
  have r1: "full_round [[77, 226, 168, 27], [22, 211, 44, 171], [145, 255, 79, 10], [229, 43, 7, 164]]
      [[64, 241, 91, 185], [127, 230, 185, 129], [57, 141, 135, 33], [112, 239, 193, 125]] =
    [[250, 247, 18, 230], [142, 236, 214, 95], [116, 218, 54, 177], [62, 227, 134, 87]]"
    by (simp add: cipher_eval)
  have r2: "full_round [[250, 247, 18, 230], [142, 236, 214, 95], [116, 218, 54, 177], [62, 227, 134, 87]]
      [[78, 191, 228, 93], [130, 100, 221, 92], [198, 75, 204, 237], [38, 201, 8, 117]] =
    [[3, 20, 164, 98], [124, 10, 45, 93], [194, 147, 198, 24], [44, 48, 55, 58]]"
    by (simp add: cipher_eval)
  have r3: "full_round [[3, 20, 164, 98], [124, 10, 45, 93], [194, 147, 198, 24], [44, 48, 55, 58]]
      [[0, 191, 91, 6], [215, 179, 110, 50], [91, 16, 220, 49], [106, 163, 171, 222]] =
    [[107, 255, 60, 63], [37, 127, 212, 93], [175, 224, 159, 157], [47, 33, 17, 216]]"
    by (simp add: cipher_eval)
  have r4: "full_round [[107, 255, 60, 63], [37, 127, 212, 93], [175, 224, 159, 157], [47, 33, 17, 216]]
      [[43, 148, 207, 201], [16, 163, 205, 255], [70, 86, 138, 187], [5, 166, 13, 211]] =
    [[2, 43, 82, 1], [199, 210, 200, 78], [229, 139, 195, 181], [79, 160, 255, 141]]"
    by (simp add: cipher_eval)
  have r5: "full_round [[2, 43, 82, 1], [199, 210, 200, 78], [229, 139, 195, 181], [79, 160, 255, 141]]
      [[45, 185, 118, 191], [250, 89, 148, 107], [32, 118, 252, 71], [216, 126, 115, 160]] =
    [[116, 50, 62, 61], [211, 131, 90, 209], [89, 73, 65, 189], [96, 88, 94, 243]]"
    by (simp add: cipher_eval)
  have r6: "full_round [[116, 50, 62, 61], [211, 131, 90, 209], [89, 73, 65, 189], [96, 88, 94, 243]]
      [[114, 203, 189, 2], [90, 3, 151, 252], [192, 182, 74, 13], [208, 174, 221, 125]] =
    [[236, 254, 33, 133], [152, 25, 117, 2], [180, 180, 245, 210], [8, 180, 49, 249]]"
    by (simp add: cipher_eval)
  have r7: "full_round [[236, 254, 33, 133], [152, 25, 117, 2], [180, 180, 245, 210], [8, 180, 49, 249]]
      [[130, 73, 244, 246], [141, 142, 25, 229], [63, 137, 195, 206], [167, 9, 212, 169]] =
    [[29, 29, 140, 67], [88, 224, 11, 181], [66, 142, 196, 76], [245, 151, 51, 85]]"
    by (simp add: cipher_eval)
  have r8: "full_round [[29, 29, 140, 67], [88, 224, 11, 181], [66, 142, 196, 76], [245, 151, 51, 85]]
      [[219, 146, 102, 144], [6, 136, 145, 116], [236, 101, 166, 104], [229, 236, 56, 145]] =
    [[80, 115, 110, 192], [163, 231, 184, 82], [142, 137, 204, 116], [12, 206, 102, 81]]"
    by (simp add: cipher_eval)
  have r9: "full_round [[80, 115, 110, 192], [163, 231, 184, 82], [142, 137, 204, 116], [12, 206, 102, 81]]
      [[82, 192, 166, 54], [67, 203, 90, 46], [109, 8, 174, 198], [133, 105, 81, 192]] =
    [[201, 29, 17, 211], [47, 207, 101, 65], [84, 205, 133, 118], [22, 250, 255, 222]]"
    by (simp add: cipher_eval)
  have "RijndaelEncrypt demo_keys [11, 77, 205, 13, 83, 74, 75, 180, 2, 115, 69, 41, 249, 147, 172, 24] =
      unload_state (KeyAdd (ShiftRow (ByteSub [[201, 29, 17, 211], [47, 207, 101, 65], [84, 205, 133, 118], [22, 250, 255, 222]])) (demo_keys ! 10))"
    by (rule encrypt_rounds [where st_in = "[[77, 226, 168, 27], [22, 211, 44, 171], [145, 255, 79, 10], [229, 43, 7, 164]]"])
      (simp_all add: demo_keys_def load_eval KeyAdd_eval r1 r2 r3 r4 r5 r6 r7 r8 r9)
  then show ?thesis by (simp add: demo_keys_def cipher_eval)
qed

subsection \<open>The functions\<close>

lemmas demo_data = demo_op_def demo_rand_def demo_sqn_def demo_amf_def demo_opc_def

lemma demo_temp:
  "milenage_temp demo_opc demo_keys demo_rand =
   [158, 41, 128, 197, 151, 57, 218, 103, 177, 54, 53, 94, 60, 237, 230, 162]"
  by (simp add: milenage_temp_def demo_data xor_block_eval encrypt_temp)

lemmas demo_outs = demo_temp demo_keys_eq rotate_store_def xor_last_def upt_small xor_block_eval
  encrypt_out1 encrypt_out2 encrypt_out3 encrypt_out4 encrypt_out5

lemma demo_f1_block:
  "f1_block demo_opc demo_k demo_rand demo_sqn demo_amf =
   [74, 159, 250, 195, 84, 223, 175, 179, 1, 207, 175, 158, 196, 232, 113, 233]"
  unfolding f1_block_def Let_def demo_keys_eq demo_temp
  by (simp add: demo_outs in1_block_def demo_data)

lemma demo_out_blocks:
  "out_block 0 1 demo_opc demo_keys (milenage_temp demo_opc demo_keys demo_rand) =
   [170, 104, 156, 100, 131, 112, 172, 30, 165, 66, 17, 213, 227, 186, 80, 191]"
  "out_block 12 2 demo_opc demo_keys (milenage_temp demo_opc demo_keys demo_rand) =
   [180, 11, 169, 163, 197, 139, 42, 5, 187, 240, 217, 135, 178, 27, 248, 203]"
  "out_block 8 4 demo_opc demo_keys (milenage_temp demo_opc demo_keys demo_rand) =
   [247, 105, 188, 215, 81, 4, 70, 4, 18, 118, 114, 113, 28, 109, 52, 65]"
  "out_block 4 8 demo_opc demo_keys (milenage_temp demo_opc demo_keys demo_rand) =
   [69, 30, 139, 236, 164, 59, 120, 224, 249, 64, 200, 219, 84, 253, 33, 193]"
  unfolding demo_temp by (simp_all add: out_block_def demo_outs demo_opc_def)

text \<open>C26: On test set 1 of 3GPP TS 35.207 the code computes the published OPc, MAC-A, MAC-S, RES,
  CK, IK, AK and resynchronisation AK.\<close>

theorem milenage_conforms_to_test_set_1:
  "ComputeOPc demo_op demo_k = demo_opc \<and>
   f1 demo_opc demo_k demo_rand demo_sqn demo_amf = [74, 159, 250, 195, 84, 223, 175, 179] \<and>
   f1star demo_opc demo_k demo_rand demo_sqn demo_amf = [1, 207, 175, 158, 196, 232, 113, 233] \<and>
   f2345 demo_opc demo_k demo_rand =
     \<lparr>f_res = [165, 66, 17, 213, 227, 186, 80, 191],
      f_ck = [180, 11, 169, 163, 197, 139, 42, 5, 187, 240, 217, 135, 178, 27, 248, 203],
      f_ik = [247, 105, 188, 215, 81, 4, 70, 4, 18, 118, 114, 113, 28, 109, 52, 65],
      f_ak = [170, 104, 156, 100, 131, 112]\<rparr> \<and>
   f5star demo_opc demo_k demo_rand = [69, 30, 139, 236, 164, 59]"
proof (intro conjI)
  show "ComputeOPc demo_op demo_k = demo_opc"
    by (simp add: ComputeOPc_def demo_keys_eq demo_op_def demo_opc_def encrypt_op xor_block_eval)
qed (simp_all add: f1_def f1star_def demo_f1_block f2345_def f5star_def Let_def demo_keys_eq
    demo_out_blocks upt_small)

end
