(* ===== verification/Osip.thy ===== *)
theory Osip
  imports Cpp_Std
begin

section \<open>The boundary with libosip2\<close>

text \<open>
  The SIP parser and printer are libosip2, which is not part of the repository.  The sources
  read and write the public structs of the library directly
  (\<^verbatim>\<open>msg->from\<close>, \<^verbatim>\<open>via->host\<close>, \<^verbatim>\<open>msg->vias\<close>, \<dots>), so those
  structs are records here, with the fields the sources access; everything else a struct holds
  is carried in an \<^verbatim>\<open>opaque\<close> field that no definition inspects.  A
  \<^verbatim>\<open>char*\<close> that may be null is an option, and an \<^verbatim>\<open>osip_list_t\<close> is a list.

  The library's functions are parameters: the fields of the record \<^verbatim>\<open>osip_lib\<close>, which
  every definition that calls the library takes as its first argument.  \<^verbatim>\<open>None\<close> stands
  for a non-zero return code or a null result.
\<close>

record osip_param =
  gname :: string
  gvalue :: "string option"

record osip_uri =
  uri_scheme :: "string option"
  uri_username :: "string option"
  uri_host :: "string option"
  uri_port :: "string option"
  url_params :: "osip_param list"
  uri_opaque :: string

record osip_via =
  via_protocol :: "string option"
  via_host :: "string option"
  via_port :: "string option"
  via_params :: "osip_param list"
  via_opaque :: string

text \<open>\<^verbatim>\<open>osip_from_t\<close>; To, Contact, Route and Record-Route are the same struct.\<close>

record osip_name_addr =
  na_url :: "osip_uri option"
  na_params :: "osip_param list"
  na_opaque :: string

record osip_call_id =
  cid_number :: "string option"
  cid_host :: "string option"

record osip_cseq =
  cs_number :: "string option"
  cs_method :: "string option"

record osip_header =
  hname :: string
  hvalue :: "string option"

text \<open>An authentication header is only ever passed to the library's printer.\<close>

record osip_authorization =
  auth_opaque :: string

record osip_message =
  m_method :: "string option"
  m_status_code :: int
  m_reason_phrase :: "string option"
  m_req_uri :: "osip_uri option"
  m_vias :: "osip_via list"
  m_from :: "osip_name_addr option"
  m_to :: "osip_name_addr option"
  m_call_id :: "osip_call_id option"
  m_cseq :: "osip_cseq option"
  m_contacts :: "osip_name_addr list"
  m_routes :: "osip_name_addr list"
  m_record_routes :: "osip_name_addr list"
  m_authorizations :: "osip_authorization list"
  m_proxy_authorizations :: "osip_authorization list"
  m_www_authenticates :: "osip_authorization list"
  m_proxy_authenticates :: "osip_authorization list"
  m_headers :: "osip_header list"
  m_bodies :: "string option list"
  m_content_type :: "string option"
  m_content_length :: "string option"
  m_opaque :: string

text \<open>\<^verbatim>\<open>MSG_IS_REQUEST\<close> and \<^verbatim>\<open>MSG_IS_RESPONSE\<close> are macros of the public
  header: a message is a response when its status code is set.\<close>

definition MSG_IS_REQUEST :: "osip_message \<Rightarrow> bool" where
  "MSG_IS_REQUEST m \<longleftrightarrow> m_status_code m = 0"

definition MSG_IS_RESPONSE :: "osip_message \<Rightarrow> bool" where
  "MSG_IS_RESPONSE m \<longleftrightarrow> m_status_code m \<noteq> 0"

text \<open>The parameters.  \<^verbatim>\<open>L_uri_failed\<close> is what a failed parse leaves in the struct,
  which \<^verbatim>\<open>setRequestUri\<close> does not check.\<close>

record osip_lib =
  L_init :: "osip_message option"
  L_uri_failed :: "string \<Rightarrow> osip_uri"
  L_set_version :: "string \<Rightarrow> osip_message \<Rightarrow> osip_message"
  L_via_clone :: "osip_via \<Rightarrow> osip_via option"
  L_from_clone :: "osip_name_addr \<Rightarrow> osip_name_addr option"
  L_call_id_clone :: "osip_call_id \<Rightarrow> osip_call_id option"
  L_cseq_clone :: "osip_cseq \<Rightarrow> osip_cseq option"
  L_parse :: "string \<Rightarrow> osip_message option"
  L_clone :: "osip_message \<Rightarrow> osip_message option"
  L_to_str :: "osip_message \<Rightarrow> string option"
  L_uri_parse :: "string \<Rightarrow> osip_uri option"
  L_uri_to_str :: "osip_uri \<Rightarrow> string option"
  L_via_parse :: "string \<Rightarrow> osip_via option"
  L_via_to_str :: "osip_via \<Rightarrow> string option"
  L_from_parse :: "string \<Rightarrow> osip_name_addr option"
  L_from_to_str :: "osip_name_addr \<Rightarrow> string option"
  L_contact_to_str :: "osip_name_addr \<Rightarrow> string option"
  L_route_to_str :: "osip_name_addr \<Rightarrow> string option"
  L_auth_to_str :: "osip_authorization \<Rightarrow> string option"
  L_www_to_str :: "osip_authorization \<Rightarrow> string option"
  L_param_byname :: "osip_param list \<Rightarrow> string \<Rightarrow> osip_param option"
  L_header_byname :: "osip_header list \<Rightarrow> string \<Rightarrow> nat \<Rightarrow> (nat \<times> osip_header) option"
  L_set_header :: "string \<Rightarrow> string \<Rightarrow> osip_message \<Rightarrow> osip_message"
  L_set_contact :: "string \<Rightarrow> osip_message \<Rightarrow> osip_message"
  L_set_route :: "string \<Rightarrow> osip_message \<Rightarrow> osip_message"
  L_set_record_route :: "string \<Rightarrow> osip_message \<Rightarrow> osip_message"
  L_set_call_id :: "string \<Rightarrow> osip_message \<Rightarrow> osip_message"
  L_set_cseq :: "string \<Rightarrow> osip_message \<Rightarrow> osip_message"
  L_set_body :: "string \<Rightarrow> osip_message \<Rightarrow> osip_message"
  L_set_content_type :: "string \<Rightarrow> osip_message \<Rightarrow> osip_message"
  L_set_content_length :: "string \<Rightarrow> osip_message \<Rightarrow> osip_message"
  L_set_to_tag :: "string \<Rightarrow> osip_name_addr \<Rightarrow> osip_name_addr"

text \<open>The value a parameter lookup yields, when there is one.\<close>

definition param_gvalue :: "osip_lib \<Rightarrow> osip_param list \<Rightarrow> string \<Rightarrow> string option" where
  "param_gvalue L ps key =
     (case L_param_byname L ps key of None \<Rightarrow> None | Some p \<Rightarrow> gvalue p)"

text \<open>Documented behaviour that some properties rely on, as named hypotheses.\<close>

definition header_lookup_ok :: "osip_lib \<Rightarrow> bool" where
  "header_lookup_ok L \<longleftrightarrow>
     (\<forall>hs n pos. L_header_byname L hs n pos =
        (case filter (\<lambda>i. pos \<le> i \<and> lowercase (hname (hs ! i)) = lowercase n) [0..<length hs] of
           [] \<Rightarrow> None | i # _ \<Rightarrow> Some (i, hs ! i)))"

definition clone_ok :: "osip_lib \<Rightarrow> bool" where
  "clone_ok L \<longleftrightarrow> L_clone L = Some \<and> L_via_clone L = Some \<and> L_from_clone L = Some \<and>
     L_call_id_clone L = Some \<and> L_cseq_clone L = Some"

definition empty_message :: osip_message where
  "empty_message =
     \<lparr>m_method = None, m_status_code = 0, m_reason_phrase = None,
      m_req_uri = None, m_vias = [], m_from = None, m_to = None, m_call_id = None, m_cseq = None,
      m_contacts = [], m_routes = [], m_record_routes = [], m_authorizations = [],
      m_proxy_authorizations = [], m_www_authenticates = [], m_proxy_authenticates = [],
      m_headers = [], m_bodies = [], m_content_type = None, m_content_length = None,
      m_opaque = []\<rparr>"

definition init_ok :: "osip_lib \<Rightarrow> bool" where
  "init_ok L \<longleftrightarrow> L_init L = Some empty_message"

definition set_tag_ok :: "osip_lib \<Rightarrow> bool" where
  "set_tag_ok L \<longleftrightarrow> (\<forall>t f. na_url (L_set_to_tag L t f) = na_url f \<and>
     (param_gvalue L (na_params f) ''tag'' = None \<longrightarrow>
      param_gvalue L (na_params (L_set_to_tag L t f)) ''tag'' = Some t))"

subsection \<open>A concrete library for evaluating the model\<close>

text \<open>
  Used by witnesses only: a small instance of the parameters, with a parser for the plain
  \<^verbatim>\<open>user@host\<close> form of a SIP URI, that satisfies the hypotheses above.
\<close>

definition demo_uri_parse :: "string \<Rightarrow> osip_uri option" where
  "demo_uri_parse s =
     (case find_char s (CHR '':'') of
        None \<Rightarrow> None
      | Some i \<Rightarrow>
          (let rest = drop (Suc i) s
           in case find_char rest (CHR ''@'') of
                None \<Rightarrow> Some \<lparr>uri_scheme = Some (take i s), uri_username = None,
                           uri_host = Some rest, uri_port = None, url_params = [], uri_opaque = []\<rparr>
              | Some j \<Rightarrow> Some \<lparr>uri_scheme = Some (take i s), uri_username = Some (take j rest),
                           uri_host = Some (drop (Suc j) rest), uri_port = None, url_params = [],
                           uri_opaque = []\<rparr>))"

definition demo_uri_to_str :: "osip_uri \<Rightarrow> string option" where
  "demo_uri_to_str u =
     (case (uri_scheme u, uri_username u, uri_host u) of
        (Some s, Some n, Some h) \<Rightarrow> Some (s @ '':'' @ n @ ''@'' @ h)
      | (Some s, None, Some h) \<Rightarrow> Some (s @ '':'' @ h)
      | _ \<Rightarrow> None)"

definition demo_header_byname :: "osip_header list \<Rightarrow> string \<Rightarrow> nat \<Rightarrow> (nat \<times> osip_header) option" where
  "demo_header_byname hs n pos =
     (case filter (\<lambda>i. pos \<le> i \<and> lowercase (hname (hs ! i)) = lowercase n) [0..<length hs] of
        [] \<Rightarrow> None | i # _ \<Rightarrow> Some (i, hs ! i))"

text \<open>The demo instance reads of a Via its branch parameter (a text without one is taken as the branch),
  and a name-addr as a bare URI.\<close>

definition demo_via_branch :: "string \<Rightarrow> string" where
  "demo_via_branch s =
     (case str_find s '';branch='' 0 of
        None \<Rightarrow> s
      | Some i \<Rightarrow>
          (let rest = drop (i + 8) s
           in case find_char rest (CHR '';'') of None \<Rightarrow> rest | Some j \<Rightarrow> take j rest))"

definition demo_lib :: osip_lib where
  "demo_lib =
     \<lparr>L_init = Some empty_message,
      L_uri_failed = (\<lambda>s. \<lparr>uri_scheme = None, uri_username = None, uri_host = None, uri_port = None,
                        url_params = [], uri_opaque = []\<rparr>),
      L_set_version = (\<lambda>v m. m),
      L_via_clone = Some, L_from_clone = Some, L_call_id_clone = Some, L_cseq_clone = Some,
      L_parse = (\<lambda>_. None),
      L_clone = Some,
      L_to_str = (\<lambda>_. None),
      L_uri_parse = demo_uri_parse,
      L_uri_to_str = demo_uri_to_str,
      L_via_parse = (\<lambda>s. Some \<lparr>via_protocol = None, via_host = None, via_port = None,
                        via_params = [\<lparr>gname = ''branch'', gvalue = Some (demo_via_branch s)\<rparr>],
                        via_opaque = s\<rparr>),
      L_via_to_str = (\<lambda>v. Some (via_opaque v)),
      L_from_parse = (\<lambda>s. Some \<lparr>na_url = demo_uri_parse s, na_params = [], na_opaque = s\<rparr>),
      L_from_to_str = (\<lambda>f. Some (na_opaque f)),
      L_contact_to_str = (\<lambda>f. Some (na_opaque f)),
      L_route_to_str = (\<lambda>f. Some (na_opaque f)),
      L_auth_to_str = (\<lambda>a. Some (auth_opaque a)),
      L_www_to_str = (\<lambda>a. Some (auth_opaque a)),
      L_param_byname = (\<lambda>ps k. List.find (\<lambda>p. gname p = k) ps),
      L_header_byname = demo_header_byname,
      L_set_header = (\<lambda>n v m. m\<lparr>m_headers := m_headers m @ [\<lparr>hname = n, hvalue = Some v\<rparr>]\<rparr>),
      L_set_contact = (\<lambda>s m. m\<lparr>m_contacts := m_contacts m @
                        [\<lparr>na_url = demo_uri_parse s, na_params = [], na_opaque = s\<rparr>]\<rparr>),
      L_set_route = (\<lambda>s m. m\<lparr>m_routes := m_routes m @
                        [\<lparr>na_url = demo_uri_parse s, na_params = [], na_opaque = s\<rparr>]\<rparr>),
      L_set_record_route = (\<lambda>s m. m\<lparr>m_record_routes := m_record_routes m @
                        [\<lparr>na_url = demo_uri_parse s, na_params = [], na_opaque = s\<rparr>]\<rparr>),
      L_set_call_id = (\<lambda>s m. m\<lparr>m_call_id := Some \<lparr>cid_number = Some s, cid_host = None\<rparr>\<rparr>),
      L_set_cseq = (\<lambda>s m. m\<lparr>m_cseq := Some \<lparr>cs_number = Some s, cs_method = None\<rparr>\<rparr>),
      L_set_body = (\<lambda>s m. m\<lparr>m_bodies := m_bodies m @ [Some s]\<rparr>),
      L_set_content_type = (\<lambda>s m. m\<lparr>m_content_type := Some s\<rparr>),
      L_set_content_length = (\<lambda>s m. m\<lparr>m_content_length := Some s\<rparr>),
      L_set_to_tag = (\<lambda>t f. f\<lparr>na_params := \<lparr>gname = ''tag'', gvalue = Some t\<rparr> # na_params f\<rparr>)\<rparr>"

lemma demo_lib_ok: "header_lookup_ok demo_lib" "clone_ok demo_lib" "init_ok demo_lib" "set_tag_ok demo_lib"
  by (auto simp: header_lookup_ok_def clone_ok_def init_ok_def set_tag_ok_def param_gvalue_def
      demo_lib_def demo_header_byname_def)

end
