(* ===== verification/Uri_Utils.thy ===== *)
theory Uri_Utils
  imports Osip
begin

section \<open>URI helpers (sip/uri_utils.cpp)\<close>

text \<open>
  Extraction of a URI from a name-addr, normalisation of public identities, endpoints, and the
  parser of Digest \<^verbatim>\<open>Authorization\<close> headers.  URI parsing itself is libosip2
  (\<^theory_text>\<open>L_uri_parse\<close>).
\<close>

type_synonym port = "16 word"

record Endpoint =
  ep_address :: string
  ep_port :: port
  ep_transport :: string

definition default_endpoint :: Endpoint where
  "default_endpoint = \<lparr>ep_address = [], ep_port = 5060, ep_transport = ''udp''\<rparr>"

text \<open>\<^verbatim>\<open>static_cast<Port>(int)\<close>: the value modulo 65536.\<close>

definition to_port :: "int \<Rightarrow> port" where
  "to_port i = word_of_int i"

record DigestAuthFields =
  da_username :: string
  da_realm :: string
  da_nonce :: string
  da_response :: string
  da_uri :: string
  da_algorithm :: string
  da_qop :: string
  da_nc :: string
  da_cnonce :: string

subsection \<open>Name-addr and identity normalisation\<close>

definition tel_prefix :: string where
  "tel_prefix = ''tel:''"

text \<open>The part of a name-addr without angle brackets: a tel URI loses its parameters.\<close>

definition strip_tel_params :: "string \<Rightarrow> string" where
  "strip_tel_params t =
     (if starts_with tel_prefix (lowercase t)
      then (case find_char t (CHR '';'') of Some semi \<Rightarrow> substr t 0 semi | None \<Rightarrow> t)
      else t)"

definition extract_uri_from_name_addr :: "string \<Rightarrow> string" where
  "extract_uri_from_name_addr value =
     (let trimmed = trim value in
      if trimmed = [] \<or> trimmed = ''*'' then trimmed
      else (case find_char trimmed (CHR ''<'') of
              None \<Rightarrow> strip_tel_params trimmed
            | Some angle_start \<Rightarrow>
                (case str_find trimmed ''>'' (angle_start + 1) of
                   None \<Rightarrow> strip_tel_params trimmed
                 | Some angle_end \<Rightarrow>
                     if angle_start < angle_end
                     then substr trimmed (angle_start + 1) (angle_end - angle_start - 1)
                     else strip_tel_params trimmed)))"

definition normalize_impu_uri :: "osip_lib \<Rightarrow> string \<Rightarrow> string" where
  "normalize_impu_uri L value =
     (let uri_text = extract_uri_from_name_addr value;
          lowered = lowercase uri_text in
      if uri_text = [] \<or> uri_text = ''*'' then uri_text
      else if starts_with tel_prefix lowered then lowered
      else (case L_uri_parse L uri_text of
              None \<Rightarrow> lowered
            | Some u \<Rightarrow>
                (let scheme = (case uri_scheme u of Some s \<Rightarrow> lowercase s | None \<Rightarrow> []) in
                 if scheme = ''tel'' then
                   (case uri_username u of None \<Rightarrow> ''tel:'' | Some n \<Rightarrow> ''tel:'' @ n)
                 else if scheme \<noteq> ''sip'' \<and> scheme \<noteq> ''sips'' then lowercase uri_text
                 else (case (uri_username u, uri_host u) of
                         (Some n, Some h) \<Rightarrow> scheme @ '':'' @ n @ ''@'' @ lowercase h
                       | _ \<Rightarrow> lowercase uri_text))))"

subsection \<open>Endpoints\<close>

definition parse_endpoint_from_uri :: "osip_lib \<Rightarrow> string \<Rightarrow> Endpoint option" where
  "parse_endpoint_from_uri L sip_uri =
     (let uri_text = extract_uri_from_name_addr sip_uri in
      if uri_text = [] \<or> uri_text = ''*'' then None
      else (case L_uri_parse L uri_text of
              None \<Rightarrow> None
            | Some u \<Rightarrow>
                (case uri_host u of
                   None \<Rightarrow> None
                 | Some host \<Rightarrow>
                     (let tr = (case param_gvalue L (url_params u) ''transport'' of
                                  Some v \<Rightarrow> lowercase v | None \<Rightarrow> ''udp'') in
                      case uri_port u of
                        None \<Rightarrow> Some \<lparr>ep_address = host, ep_port = 5060, ep_transport = tr\<rparr>
                      | Some p \<Rightarrow>
                          (case stoi p of
                             Inl _ \<Rightarrow> None
                           | Inr i \<Rightarrow> Some \<lparr>ep_address = host, ep_port = to_port i, ep_transport = tr\<rparr>)))))"

definition default_port_for :: "string \<Rightarrow> port" where
  "default_port_for tr = 5060"

definition route_points_to_endpoint :: "osip_lib \<Rightarrow> string \<Rightarrow> Endpoint \<Rightarrow> string \<Rightarrow> bool" where
  "route_points_to_endpoint L route_value ep fallback_transport =
     (case parse_endpoint_from_uri L route_value of
        None \<Rightarrow> False
      | Some r \<Rightarrow>
          if lowercase (ep_address r) \<noteq> lowercase (ep_address ep) then False
          else
            (let ep_tr = lowercase (if ep_transport ep = [] then fallback_transport else ep_transport ep);
                 r_tr = lowercase (if ep_transport r = [] then fallback_transport else ep_transport r) in
             if ep_tr \<noteq> r_tr then False
             else (if ep_port r = 0 then default_port_for r_tr else ep_port r) =
                  (if ep_port ep = 0 then default_port_for ep_tr else ep_port ep)))"

subsection \<open>Digest authorization\<close>

definition empty_digest_fields :: DigestAuthFields where
  "empty_digest_fields =
     \<lparr>da_username = [], da_realm = [], da_nonce = [], da_response = [], da_uri = [], da_algorithm = [], da_qop = [],
      da_nc = [], da_cnonce = []\<rparr>"

definition set_digest_field :: "string \<Rightarrow> string \<Rightarrow> DigestAuthFields \<Rightarrow> DigestAuthFields" where
  "set_digest_field key value f =
     (if key = ''username'' then f\<lparr>da_username := value\<rparr>
      else if key = ''realm'' then f\<lparr>da_realm := value\<rparr>
      else if key = ''nonce'' then f\<lparr>da_nonce := value\<rparr>
      else if key = ''response'' then f\<lparr>da_response := value\<rparr>
      else if key = ''uri'' then f\<lparr>da_uri := value\<rparr>
      else if key = ''algorithm'' then f\<lparr>da_algorithm := value\<rparr>
      else if key = ''qop'' then f\<lparr>da_qop := value\<rparr>
      else if key = ''nc'' then f\<lparr>da_nc := value\<rparr>
      else if key = ''cnonce'' then f\<lparr>da_cnonce := value\<rparr>
      else f)"

text \<open>One turn of the token loop: tokens without \<^verbatim>\<open>=\<close> are skipped.\<close>

definition parse_digest_token :: "string \<Rightarrow> DigestAuthFields \<Rightarrow> DigestAuthFields" where
  "parse_digest_token tok f =
     (let token = trim tok in
      case find_char token (CHR ''='') of
        None \<Rightarrow> f
      | Some eq \<Rightarrow>
          set_digest_field (lowercase (trim (substr token 0 eq)))
            (trim_quotes (trim (drop (eq + 1) token))) f)"

definition parse_digest_authorization :: "string \<Rightarrow> DigestAuthFields result" where
  "parse_digest_authorization header =
     (let pos = (case find0 ''Digest '' header of Some i \<Rightarrow> Some i
                                               | None \<Rightarrow> find0 ''digest '' header) in
      case pos of
        None \<Rightarrow> Inl (mk_error kSipParseError ''Missing Digest scheme in Authorization header'' [])
      | Some i \<Rightarrow>
          (let fields = fold parse_digest_token (getlines (CHR '','') (drop (i + 7) header))
                          empty_digest_fields in
           if da_username fields = []
           then Inl (mk_error kSipParseError ''Missing username in Authorization header'' [])
           else Inr fields))"

subsection \<open>Properties\<close>

lemma not_space_chars [simp]:
  "\<not> is_space (CHR ''<'')" "\<not> is_space (CHR ''>'')" "\<not> is_space (CHR 0x22)"
  "\<not> is_space (CHR ''='')" "\<not> is_space (CHR ''-'')"
  by (simp_all add: is_space_def char_code_def)

lemma is_space_blank [simp]: "is_space (CHR '' '')"
  by (simp add: is_space_def char_code_def)

text \<open>Whatever surrounds it, the URI between the angle brackets is what is extracted.\<close>

lemma extract_between_brackets:
  assumes "CHR ''<'' \<notin> set pre" and "CHR ''>'' \<notin> set u"
  shows "extract_uri_from_name_addr (pre @ ''<'' @ u @ ''>'' @ post) = u"
proof -
  define pre' where "pre' = dropWhile is_space pre"
  define post' where "post' = rev (dropWhile is_space (rev post))"
  let ?t = "pre' @ CHR ''<'' # u @ CHR ''>'' # post'"
  have t: "trim (pre @ ''<'' @ u @ ''>'' @ post) = ?t"
    by (simp add: trim_between pre'_def post'_def)
  have "CHR ''<'' \<notin> set pre'" using assms(1) set_dropWhileD by (fastforce simp: pre'_def)
  then have a: "find_char ?t (CHR ''<'') = Some (length pre')" by (rule find_char_append)
  have "find0 ''>'' (u @ CHR ''>'' # post') = Some (length u)"
    using find_char_append [OF assms(2)] by (simp add: find_char_def)
  then have b: "str_find ?t ''>'' (length pre' + 1) = Some (length pre' + 1 + length u)"
    by (simp add: str_find_def)
  have "?t \<noteq> ''*''" by (cases pre') auto
  with t a b show ?thesis
    by (simp add: extract_uri_from_name_addr_def Let_def substr_def)
qed

text \<open>A bare URI without brackets that is not a tel URI is returned as it is, trimmed.\<close>

lemma extract_bare:
  assumes "CHR ''<'' \<notin> set (trim u)" "\<not> starts_with tel_prefix (lowercase (trim u))"
  shows "extract_uri_from_name_addr u = trim u"
  using assms find_char_None [of "trim u" "CHR ''<''"]
  by (simp add: extract_uri_from_name_addr_def Let_def strip_tel_params_def)

lemma normalize_tel:
  assumes "starts_with tel_prefix (lowercase (extract_uri_from_name_addr v))"
  shows "normalize_impu_uri L v = lowercase (extract_uri_from_name_addr v)"
proof -
  have "extract_uri_from_name_addr v \<noteq> []" "extract_uri_from_name_addr v \<noteq> ''*''"
    using assms by (auto simp: starts_with_def tel_prefix_def lowercase_def)
  with assms show ?thesis by (simp add: normalize_impu_uri_def Let_def)
qed

lemma normalize_sip:
  assumes "extract_uri_from_name_addr v = t" "t \<noteq> []" "t \<noteq> ''*''"
    "\<not> starts_with tel_prefix (lowercase t)" "L_uri_parse L t = Some u"
    "uri_scheme u = Some s" "lowercase s = ''sip''" "uri_username u = Some n" "uri_host u = Some h"
  shows "normalize_impu_uri L v = ''sip:'' @ n @ ''@'' @ lowercase h"
  using assms by (simp add: normalize_impu_uri_def Let_def)

lemma parse_endpoint_default:
  assumes "extract_uri_from_name_addr v = t" "t \<noteq> []" "t \<noteq> ''*''" "L_uri_parse L t = Some u"
    "uri_host u = Some h" "uri_port u = None" "param_gvalue L (url_params u) ''transport'' = None"
  shows "parse_endpoint_from_uri L v = Some \<lparr>ep_address = h, ep_port = 5060, ep_transport = ''udp''\<rparr>"
  using assms by (simp add: parse_endpoint_from_uri_def Let_def)

lemma parse_endpoint_port:
  assumes "extract_uri_from_name_addr v = t" "t \<noteq> []" "t \<noteq> ''*''" "L_uri_parse L t = Some u"
    "uri_host u = Some h" "uri_port u = Some (show_nat n)" "n < 2 ^ 31"
  shows "map_option ep_port (parse_endpoint_from_uri L v) = Some (of_nat n)"
proof -
  have "show_nat n = show_int (int n)" by (simp add: show_int_def)
  moreover have "stoi (show_int (int n)) = Inr (int n)"
    by (rule stoi_show_int) (use assms(7) in auto)
  ultimately have "stoi (show_nat n) = Inr (int n)" by simp
  with assms show ?thesis
    by (simp add: parse_endpoint_from_uri_def Let_def to_port_def)
qed

subsection \<open>Digest headers: parsing what a client renders\<close>

text \<open>The way a user agent renders the fields: quoted, separated by a comma and a blank.\<close>

definition render_digest_field :: "string \<times> string \<Rightarrow> string" where
  "render_digest_field kv = fst kv @ ''='' @ [CHR 0x22] @ snd kv @ [CHR 0x22]"

fun render_digest_rest :: "(string \<times> string) list \<Rightarrow> string" where
  "render_digest_rest [] = []"
| "render_digest_rest (kv # kvs) = '', '' @ render_digest_field kv @ render_digest_rest kvs"

definition render_digest :: "string \<times> string \<Rightarrow> (string \<times> string) list \<Rightarrow> string" where
  "render_digest kv kvs = ''Digest '' @ render_digest_field kv @ render_digest_rest kvs"

definition plain_field :: "string \<times> string \<Rightarrow> bool" where
  "plain_field kv \<longleftrightarrow>
     fst kv \<noteq> [] \<and> lowercase (fst kv) = fst kv \<and>
     (\<forall>c \<in> set (fst kv). \<not> is_space c \<and> c \<noteq> CHR ''='' \<and> c \<noteq> CHR '','') \<and>
     CHR '','' \<notin> set (snd kv)"

lemma parse_digest_token_render:
  assumes "plain_field (k, v)" "set sp \<subseteq> {CHR '' ''}"
  shows "parse_digest_token (sp @ render_digest_field (k, v)) f = set_digest_field k v f"
proof -
  let ?q = "[CHR 0x22] @ v @ [CHR 0x22]"
  have k: "k \<noteq> []" "\<forall>c \<in> set k. \<not> is_space c" "CHR ''='' \<notin> set k" "lowercase k = k"
    using assms(1) by (auto simp: plain_field_def)
  have sp: "dropWhile is_space sp = []" using assms(2) by (auto simp: dropWhile_eq_Nil_conv)
  obtain c k' where ck: "k = c # k'" using k(1) by (cases k) auto
  have "trim (sp @ c # (k' @ ''='' @ [CHR 0x22] @ v) @ [CHR 0x22]) =
      c # (k' @ ''='' @ [CHR 0x22] @ v) @ [CHR 0x22]"
    using trim_between [of c "CHR 0x22" sp "k' @ ''='' @ [CHR 0x22] @ v" "[]"] k(2) ck sp by simp
  then have t: "trim (sp @ render_digest_field (k, v)) = k @ CHR ''='' # ?q"
    by (simp add: render_digest_field_def ck)
  have "find_char (k @ CHR ''='' # ?q) (CHR ''='') = Some (length k)"
    by (rule find_char_append [OF k(3)])
  moreover have "trim ?q = ?q" by (rule trim_id) auto
  moreover have "trim k = k" by (rule trim_no_space [OF k(2)])
  ultimately show ?thesis
    using k(4) by (simp add: parse_digest_token_def t substr_def)
qed

lemma comma_free_render: "plain_field kv \<Longrightarrow> CHR '','' \<notin> set (render_digest_field kv)"
  by (auto simp: plain_field_def render_digest_field_def)

lemma fold_parse_digest_render:
  assumes "list_all plain_field (kv # kvs)" "set sp \<subseteq> {CHR '' ''}"
  shows "fold parse_digest_token
      (getline_split (CHR '','') [] (sp @ render_digest_field kv @ render_digest_rest kvs)) f =
    fold (\<lambda>(k, v). set_digest_field k v) (kv # kvs) f"
  using assms
proof (induction kvs arbitrary: kv sp f)
  case Nil
  have "CHR '','' \<notin> set (sp @ render_digest_field kv)"
    using Nil comma_free_render by auto
  moreover have "render_digest_field kv \<noteq> []" by (simp add: render_digest_field_def)
  ultimately have "getline_split (CHR '','') [] (sp @ render_digest_field kv) =
      [sp @ render_digest_field kv]"
    using getline_split_append(2) [of "CHR '',''" "sp @ render_digest_field kv" "[]"] by simp
  then show ?case
    using Nil parse_digest_token_render [of "fst kv" "snd kv" sp] by (simp add: case_prod_beta)
next
  case (Cons kv' kvs)
  have nc: "CHR '','' \<notin> set (sp @ render_digest_field kv)"
    using Cons.prems comma_free_render by auto
  have "getline_split (CHR '','') []
      (sp @ render_digest_field kv @ render_digest_rest (kv' # kvs)) =
    (sp @ render_digest_field kv) #
      getline_split (CHR '','') [] ('' '' @ render_digest_field kv' @ render_digest_rest kvs)"
    using getline_split_append(1) [OF nc, of "[]"] by simp
  moreover have "fold parse_digest_token
      (getline_split (CHR '','') [] ('' '' @ render_digest_field kv' @ render_digest_rest kvs)) g =
      fold (\<lambda>(k, v). set_digest_field k v) (kv' # kvs) g" for g
    by (rule Cons.IH) (use Cons.prems in auto)
  ultimately show ?case
    using Cons.prems parse_digest_token_render [of "fst kv" "snd kv" sp]
    by (simp add: case_prod_beta')
qed

lemma parse_digest_render:
  assumes "list_all plain_field (kv # kvs)"
    and "fs = fold (\<lambda>(k, v). set_digest_field k v) (kv # kvs) empty_digest_fields"
    and "da_username fs \<noteq> []"
  shows "parse_digest_authorization (render_digest kv kvs) = Inr fs"
proof -
  have "find0 ''Digest '' (render_digest kv kvs) = Some 0"
    by (simp add: render_digest_def)
  moreover have "fold parse_digest_token
      (getlines (CHR '','') (drop (0 + 7) (render_digest kv kvs))) empty_digest_fields = fs"
    using fold_parse_digest_render [OF assms(1), of "[]"] assms(2)
    by (simp add: render_digest_def getlines_def)
  ultimately show ?thesis
    using assms(3) by (simp add: parse_digest_authorization_def)
qed

lemma parse_digest_error:
  assumes "parse_digest_authorization h = Inl e"
  shows "err_code e = kSipParseError"
  using assms by (auto simp: parse_digest_authorization_def Let_def split: option.splits if_splits)

lemma parse_digest_username: "parse_digest_authorization h = Inr f \<Longrightarrow> da_username f \<noteq> []"
  by (auto simp: parse_digest_authorization_def Let_def split: option.splits if_splits)

end
