(* ===== verification/Sip_Message.thy ===== *)
theory Sip_Message
  imports Uri_Utils
begin

section \<open>SIP messages (sip/message.cpp)\<close>

text \<open>
  The operations of \<^verbatim>\<open>SipMessage\<close> on the libosip2 message it owns.  A setter
  returns the updated message.  Random tags and branches are arguments.  An operation that can
  throw (\<^verbatim>\<open>std::stoul\<close>, \<^verbatim>\<open>std::stoi\<close>) returns the exception, and
  \<^verbatim>\<open>removeHeader\<close>, which can leave a freed header in the message, says at which
  position of the list.
\<close>

subsection \<open>Printing the parts\<close>

definition or_empty :: "string option \<Rightarrow> string" where
  "or_empty x = (case x of None \<Rightarrow> [] | Some s \<Rightarrow> s)"

lemma or_empty_simps [simp]: "or_empty None = []" "or_empty (Some s) = s"
  by (simp_all add: or_empty_def)

definition uri_to_string :: "osip_lib \<Rightarrow> osip_uri option \<Rightarrow> string" where
  "uri_to_string L u = (case u of None \<Rightarrow> [] | Some u \<Rightarrow> or_empty (L_uri_to_str L u))"

definition from_to_string :: "osip_lib \<Rightarrow> osip_name_addr option \<Rightarrow> string" where
  "from_to_string L f = (case f of None \<Rightarrow> [] | Some f \<Rightarrow> or_empty (L_from_to_str L f))"

definition via_to_string :: "osip_lib \<Rightarrow> osip_via \<Rightarrow> string" where
  "via_to_string L v = or_empty (L_via_to_str L v)"

definition contact_to_string :: "osip_lib \<Rightarrow> osip_name_addr \<Rightarrow> string" where
  "contact_to_string L c = or_empty (L_contact_to_str L c)"

definition route_to_string :: "osip_lib \<Rightarrow> osip_name_addr \<Rightarrow> string" where
  "route_to_string L c = or_empty (L_route_to_str L c)"

definition record_route_to_string :: "osip_lib \<Rightarrow> osip_name_addr \<Rightarrow> string" where
  "record_route_to_string L c = or_empty (L_route_to_str L c)"

definition authorization_to_string :: "osip_lib \<Rightarrow> osip_authorization \<Rightarrow> string" where
  "authorization_to_string L a = or_empty (L_auth_to_str L a)"

definition www_authenticate_to_string :: "osip_lib \<Rightarrow> osip_authorization \<Rightarrow> string" where
  "www_authenticate_to_string L a = or_empty (L_www_to_str L a)"

definition unquote :: "string \<Rightarrow> string" where
  "unquote v = (if 2 \<le> length v \<and> hd v = CHR 0x22 \<and> last v = CHR 0x22
                then substr v 1 (length v - 2) else v)"

definition param_value :: "osip_lib \<Rightarrow> osip_param list \<Rightarrow> string \<Rightarrow> string option" where
  "param_value L ps key = map_option unquote (param_gvalue L ps key)"

definition parse_uint_header :: "string \<Rightarrow> 32 word option" where
  "parse_uint_header v = (case stoul v of Inl _ \<Rightarrow> None | Inr n \<Rightarrow> Some (word_of_nat n))"

text \<open>Splitting a header at its top-level commas: the state of the loop is the part read so far,
  the quote flag and the depth of angle brackets.\<close>

definition push_part :: "string \<Rightarrow> string list \<Rightarrow> string list" where
  "push_part current parts = (let part = trim current in if part \<noteq> [] then parts @ [part] else parts)"

fun split_loop :: "string \<Rightarrow> string \<Rightarrow> bool \<Rightarrow> nat \<Rightarrow> string list \<Rightarrow> string list" where
  "split_loop [] current in_quotes depth parts = push_part current parts"
| "split_loop (ch # rest) current in_quotes depth parts =
     (if ch = CHR 0x22 then split_loop rest (current @ [ch]) (\<not> in_quotes) depth parts
      else if \<not> in_quotes \<and> ch = CHR ''<'' then split_loop rest (current @ [ch]) in_quotes (Suc depth) parts
      else if \<not> in_quotes \<and> ch = CHR ''>'' \<and> 0 < depth
           then split_loop rest (current @ [ch]) in_quotes (depth - 1) parts
      else if \<not> in_quotes \<and> ch = CHR '','' \<and> depth = 0
           then split_loop rest [] in_quotes depth (push_part current parts)
      else split_loop rest (current @ [ch]) in_quotes depth parts)"

definition split_header_values :: "string \<Rightarrow> string list" where
  "split_header_values v = split_loop v [] False 0 []"

subsection \<open>Construction\<close>

definition message_parse :: "osip_lib \<Rightarrow> string \<Rightarrow> osip_message result" where
  "message_parse L raw =
     (case L_init L of
        None \<Rightarrow> Inl (mk_error kSipParseError ''Failed to init osip message'' [])
      | Some _ \<Rightarrow> (case L_parse L raw of
                   None \<Rightarrow> Inl (mk_error kSipParseError ''Failed to parse SIP message'' [])
                 | Some m \<Rightarrow> Inr m))"

definition create :: "osip_lib \<Rightarrow> osip_message result" where
  "create L = (case L_init L of
     None \<Rightarrow> Inl (mk_error kSipParseError ''Failed to init osip message'' []) | Some m \<Rightarrow> Inr m)"

definition clone :: "osip_lib \<Rightarrow> osip_message \<Rightarrow> osip_message result" where
  "clone L m = (case L_clone L m of
     None \<Rightarrow> Inl (mk_error kSipParseError ''Failed to clone SIP message'' []) | Some c \<Rightarrow> Inr c)"

definition toString :: "osip_lib \<Rightarrow> osip_message \<Rightarrow> string result" where
  "toString L m = (case L_to_str L m of
     None \<Rightarrow> Inl (mk_error kSipParseError ''Failed to serialize SIP message'' []) | Some s \<Rightarrow> Inr s)"

subsection \<open>Start line\<close>

definition isRequest :: "osip_message \<Rightarrow> bool" where
  "isRequest m = MSG_IS_REQUEST m"

definition isResponse :: "osip_message \<Rightarrow> bool" where
  "isResponse m = MSG_IS_RESPONSE m"

definition message_method :: "osip_message \<Rightarrow> string" where
  "message_method m = (if \<not> isRequest m then [] else or_empty (m_method m))"

definition setMethod :: "string \<Rightarrow> osip_message \<Rightarrow> osip_message" where
  "setMethod s m = m\<lparr>m_method := Some s\<rparr>"

definition statusCode :: "osip_message \<Rightarrow> int" where
  "statusCode m = (if \<not> isResponse m then 0 else m_status_code m)"

definition reasonPhrase :: "osip_message \<Rightarrow> string" where
  "reasonPhrase m = (if \<not> isResponse m then [] else or_empty (m_reason_phrase m))"

definition requestUri :: "osip_lib \<Rightarrow> osip_message \<Rightarrow> string" where
  "requestUri L m = uri_to_string L (m_req_uri m)"

definition setRequestUri :: "osip_lib \<Rightarrow> string \<Rightarrow> osip_message \<Rightarrow> osip_message" where
  "setRequestUri L uri m =
     m\<lparr>m_req_uri := Some (case L_uri_parse L uri of Some u \<Rightarrow> u | None \<Rightarrow> L_uri_failed L uri)\<rparr>"

definition setStatus :: "int \<Rightarrow> string \<Rightarrow> osip_message \<Rightarrow> osip_message" where
  "setStatus code reason m = m\<lparr>m_status_code := code, m_reason_phrase := Some reason\<rparr>"

subsection \<open>Headers by name\<close>

definition nonempty :: "string list \<Rightarrow> string list" where
  "nonempty xs = filter (\<lambda>v. v \<noteq> []) xs"

text \<open>The search position grows by one in each turn, whatever position the library found the
  header at; fuel bounds the number of turns.\<close>

fun header_values_loop :: "nat \<Rightarrow> osip_lib \<Rightarrow> osip_header list \<Rightarrow> string \<Rightarrow> nat \<Rightarrow> string list" where
  "header_values_loop 0 L hs name pos = []"
| "header_values_loop (Suc fuel) L hs name pos =
     (case L_header_byname L hs name pos of
        None \<Rightarrow> []
      | Some (i, h) \<Rightarrow>
          (case hvalue h of None \<Rightarrow> [] | Some v \<Rightarrow> [v]) @ header_values_loop fuel L hs name (Suc pos))"

definition getHeaders :: "osip_lib \<Rightarrow> string \<Rightarrow> osip_message \<Rightarrow> string list" where
  "getHeaders L name m =
     (let lower_name = lowercase name in
      if lower_name = ''contact'' then nonempty (map (contact_to_string L) (m_contacts m))
      else if lower_name = ''route''
        then concat (map (\<lambda>r. split_header_values (route_to_string L r)) (m_routes m))
      else if lower_name = ''record-route''
        then concat (map (\<lambda>r. split_header_values (record_route_to_string L r)) (m_record_routes m))
      else if lower_name = ''authorization''
        then nonempty (map (authorization_to_string L) (m_authorizations m))
      else if lower_name = ''proxy-authorization''
        then nonempty (map (authorization_to_string L) (m_proxy_authorizations m))
      else if lower_name = ''www-authenticate''
        then nonempty (map (www_authenticate_to_string L) (m_www_authenticates m))
      else if lower_name = ''proxy-authenticate''
        then nonempty (map (www_authenticate_to_string L) (m_proxy_authenticates m))
      else header_values_loop (Suc (length (m_headers m))) L (m_headers m) name 0)"

definition getHeader :: "osip_lib \<Rightarrow> string \<Rightarrow> osip_message \<Rightarrow> string option" where
  "getHeader L name m = (case getHeaders L name m of [] \<Rightarrow> None | v # _ \<Rightarrow> Some v)"

definition addHeader :: "osip_lib \<Rightarrow> string \<Rightarrow> string \<Rightarrow> osip_message \<Rightarrow> osip_message" where
  "addHeader L name value m = L_set_header L name value m"

text \<open>The generic branch unlinks the element at position 0 and frees the header that was found, at
  position \<open>i\<close>.  Where these are the same header the search goes on.  Where they are not, the list has lost
  its first header, and the freed one is still linked, one position further to the front than it was
  found; the next lookup walks over it, so what follows is undefined and the model ends there.\<close>

datatype 'm removal =
    Removed 'm
  | Freed_linked 'm nat

fun removal_of :: "('a \<Rightarrow> 'b) \<Rightarrow> 'a removal \<Rightarrow> 'b removal" where
  "removal_of f (Removed m) = Removed (f m)"
| "removal_of f (Freed_linked m i) = Freed_linked (f m) i"

fun remaining :: "'m removal \<Rightarrow> 'm" where
  "remaining (Removed m) = m"
| "remaining (Freed_linked m i) = m"

fun remove_header_loop :: "nat \<Rightarrow> osip_lib \<Rightarrow> string \<Rightarrow> osip_header list \<Rightarrow> osip_header list removal" where
  "remove_header_loop 0 L name hs = Removed hs"
| "remove_header_loop (Suc fuel) L name hs =
     (case L_header_byname L hs name 0 of
        None \<Rightarrow> Removed hs
      | Some (i, h) \<Rightarrow>
          (let unlinked = tl hs in
           if i = 0 then remove_header_loop fuel L name unlinked else Freed_linked unlinked (i - 1)))"

definition removeHeader :: "osip_lib \<Rightarrow> string \<Rightarrow> osip_message \<Rightarrow> osip_message removal" where
  "removeHeader L name m =
     (let lower_name = lowercase name in
      if lower_name = ''contact'' then Removed (m\<lparr>m_contacts := []\<rparr>)
      else if lower_name = ''route'' then Removed (m\<lparr>m_routes := []\<rparr>)
      else if lower_name = ''record-route'' then Removed (m\<lparr>m_record_routes := []\<rparr>)
      else removal_of (\<lambda>hs. m\<lparr>m_headers := hs\<rparr>)
             (remove_header_loop (Suc (length (m_headers m))) L name (m_headers m)))"

subsection \<open>Dialog identification\<close>

definition callId :: "osip_message \<Rightarrow> string" where
  "callId m =
     (case m_call_id m of
        None \<Rightarrow> []
      | Some c \<Rightarrow>
          (case cid_number c of
             None \<Rightarrow> []
           | Some n \<Rightarrow> if or_empty (cid_host c) \<noteq> [] then n @ ''@'' @ or_empty (cid_host c) else n))"

definition setCallId :: "osip_lib \<Rightarrow> string \<Rightarrow> osip_message \<Rightarrow> osip_message" where
  "setCallId L v m = L_set_call_id L v m"

definition fromHeader :: "osip_lib \<Rightarrow> osip_message \<Rightarrow> string" where
  "fromHeader L m = from_to_string L (m_from m)"

definition toHeader :: "osip_lib \<Rightarrow> osip_message \<Rightarrow> string" where
  "toHeader L m = from_to_string L (m_to m)"

definition setFromHeader :: "osip_lib \<Rightarrow> string \<Rightarrow> osip_message \<Rightarrow> osip_message" where
  "setFromHeader L v m = (case L_from_parse L v of None \<Rightarrow> m | Some f \<Rightarrow> m\<lparr>m_from := Some f\<rparr>)"

definition setToHeader :: "osip_lib \<Rightarrow> string \<Rightarrow> osip_message \<Rightarrow> osip_message" where
  "setToHeader L v m = (case L_from_parse L v of None \<Rightarrow> m | Some f \<Rightarrow> m\<lparr>m_to := Some f\<rparr>)"

definition name_addr_uri :: "osip_lib \<Rightarrow> osip_name_addr option \<Rightarrow> string option" where
  "name_addr_uri L f =
     (case f of
        None \<Rightarrow> None
      | Some f \<Rightarrow>
          if na_url f = None then None
          else (let v = uri_to_string L (na_url f) in if v = [] then None else Some v))"

definition from_uri :: "osip_lib \<Rightarrow> osip_message \<Rightarrow> string option" where
  "from_uri L m = name_addr_uri L (m_from m)"

definition to_uri :: "osip_lib \<Rightarrow> osip_message \<Rightarrow> string option" where
  "to_uri L m = name_addr_uri L (m_to m)"

definition tag_of :: "osip_lib \<Rightarrow> osip_name_addr option \<Rightarrow> string" where
  "tag_of L f = (case f of None \<Rightarrow> [] | Some f \<Rightarrow> or_empty (param_gvalue L (na_params f) ''tag''))"

definition fromTag :: "osip_lib \<Rightarrow> osip_message \<Rightarrow> string" where
  "fromTag L m = tag_of L (m_from m)"

definition toTag :: "osip_lib \<Rightarrow> osip_message \<Rightarrow> string" where
  "toTag L m = tag_of L (m_to m)"

definition setToTag :: "osip_lib \<Rightarrow> string \<Rightarrow> osip_message \<Rightarrow> osip_message" where
  "setToTag L tag m = m\<lparr>m_to := map_option (L_set_to_tag L tag) (m_to m)\<rparr>"

definition message_cseq :: "osip_message \<Rightarrow> std_exception + 32 word" where
  "message_cseq m =
     (case m_cseq m of
        None \<Rightarrow> Inr 0
      | Some c \<Rightarrow>
          (case cs_number c of
             None \<Rightarrow> Inr 0
           | Some n \<Rightarrow> (case stoul n of Inl e \<Rightarrow> Inl e | Inr k \<Rightarrow> Inr (word_of_nat k))))"

definition cseqMethod :: "osip_message \<Rightarrow> string" where
  "cseqMethod m = (case m_cseq m of None \<Rightarrow> [] | Some c \<Rightarrow> or_empty (cs_method c))"

definition setCSeq :: "osip_lib \<Rightarrow> 32 word \<Rightarrow> string \<Rightarrow> osip_message \<Rightarrow> osip_message" where
  "setCSeq L seq meth m = L_set_cseq L (show_nat (unat seq) @ '' '' @ meth) m"

subsection \<open>Via and routes\<close>

definition topVia :: "osip_lib \<Rightarrow> osip_message \<Rightarrow> string" where
  "topVia L m = (case m_vias m of [] \<Rightarrow> [] | v # _ \<Rightarrow> via_to_string L v)"

definition addVia :: "osip_lib \<Rightarrow> string \<Rightarrow> osip_message \<Rightarrow> osip_message" where
  "addVia L s m = (case L_via_parse L s of None \<Rightarrow> m | Some v \<Rightarrow> m\<lparr>m_vias := v # m_vias m\<rparr>)"

definition removeTopVia :: "osip_message \<Rightarrow> osip_message" where
  "removeTopVia m = m\<lparr>m_vias := tl (m_vias m)\<rparr>"

definition viaCount :: "osip_message \<Rightarrow> nat" where
  "viaCount m = length (m_vias m)"

definition via_branch :: "osip_lib \<Rightarrow> osip_via \<Rightarrow> string" where
  "via_branch L v = or_empty (param_gvalue L (via_params v) ''branch'')"

definition viaBranch :: "osip_lib \<Rightarrow> osip_message \<Rightarrow> string" where
  "viaBranch L m = (case m_vias m of [] \<Rightarrow> [] | v # _ \<Rightarrow> via_branch L v)"

definition routes :: "osip_lib \<Rightarrow> osip_message \<Rightarrow> string list" where
  "routes L m = getHeaders L ''Route'' m"

definition addRoute :: "osip_lib \<Rightarrow> string \<Rightarrow> osip_message \<Rightarrow> osip_message" where
  "addRoute L r m = L_set_route L r m"

definition addRecordRoute :: "osip_lib \<Rightarrow> string \<Rightarrow> osip_message \<Rightarrow> osip_message" where
  "addRecordRoute L r m = L_set_record_route L r m"

definition removeTopRoute :: "osip_message \<Rightarrow> osip_message" where
  "removeTopRoute m = m\<lparr>m_routes := tl (m_routes m)\<rparr>"

subsection \<open>Contact and expiry\<close>

text \<open>Every caller uses the default index 0.\<close>

definition contact :: "osip_lib \<Rightarrow> osip_message \<Rightarrow> string option" where
  "contact L m = (case m_contacts m of [] \<Rightarrow> None | c # _ \<Rightarrow> Some (contact_to_string L c))"

definition message_contact_uri :: "osip_lib \<Rightarrow> osip_message \<Rightarrow> string option" where
  "message_contact_uri L m =
     (case m_contacts m of
        [] \<Rightarrow> None
      | c # _ \<Rightarrow>
          if na_url c = None then
            (let v = contact_to_string L c in
             if v = ''*'' then Some v
             else (let e = extract_uri_from_name_addr v in if e = [] then None else Some e))
          else (let v = uri_to_string L (na_url c) in if v = [] then None else Some v))"

definition contact_param :: "osip_lib \<Rightarrow> string \<Rightarrow> osip_message \<Rightarrow> string option" where
  "contact_param L key m =
     (case m_contacts m of [] \<Rightarrow> None | c # _ \<Rightarrow> param_value L (na_params c) key)"

definition contact_expires :: "osip_lib \<Rightarrow> osip_message \<Rightarrow> 32 word option" where
  "contact_expires L m =
     (case contact_param L ''expires'' m of None \<Rightarrow> None | Some v \<Rightarrow> parse_uint_header v)"

definition expires_value :: "osip_lib \<Rightarrow> osip_message \<Rightarrow> 32 word option" where
  "expires_value L m =
     (case getHeader L ''Expires'' m of None \<Rightarrow> None | Some v \<Rightarrow> parse_uint_header v)"

definition is_wildcard_contact :: "osip_lib \<Rightarrow> osip_message \<Rightarrow> bool" where
  "is_wildcard_contact L m = (contact L m = Some ''*'')"

definition impu_from_to :: "osip_lib \<Rightarrow> osip_message \<Rightarrow> string option" where
  "impu_from_to L m = to_uri L m"

definition impi_from_from :: "osip_lib \<Rightarrow> osip_message \<Rightarrow> string option" where
  "impi_from_from L m =
     (case from_uri L m of
        None \<Rightarrow> None
      | Some f \<Rightarrow> if starts_with ''sip:'' f then Some (drop 4 f) else Some f)"

definition impi_from_authorization_or_from :: "osip_lib \<Rightarrow> osip_message \<Rightarrow> string option" where
  "impi_from_authorization_or_from L m =
     (case getHeader L ''Authorization'' m of
        None \<Rightarrow> impi_from_from L m
      | Some a \<Rightarrow>
          (case parse_digest_authorization a of
             Inl _ \<Rightarrow> impi_from_from L m
           | Inr p \<Rightarrow> if da_username p \<noteq> [] then Some (da_username p) else impi_from_from L m))"

definition setContact :: "osip_lib \<Rightarrow> string \<Rightarrow> osip_message \<Rightarrow> osip_message" where
  "setContact L s m = L_set_contact L s (m\<lparr>m_contacts := []\<rparr>)"

subsection \<open>Body and Max-Forwards\<close>

definition message_body :: "osip_message \<Rightarrow> string option" where
  "message_body m = (case m_bodies m of [] \<Rightarrow> None | b # _ \<Rightarrow> b)"

definition setBody :: "osip_lib \<Rightarrow> string \<Rightarrow> string \<Rightarrow> osip_message \<Rightarrow> osip_message" where
  "setBody L body_str content_type m =
     L_set_content_length L (show_nat (length body_str))
       ((L_set_content_type L content_type (L_set_body L body_str (m\<lparr>m_bodies := []\<rparr>)))
          \<lparr>m_content_length := None\<rparr>)"

definition maxForwards :: "osip_lib \<Rightarrow> osip_message \<Rightarrow> std_exception + int" where
  "maxForwards L m =
     (case L_header_byname L (m_headers m) ''max-forwards'' 0 of
        Some (i, h) \<Rightarrow> (case hvalue h of Some v \<Rightarrow> stoi v | None \<Rightarrow> Inr (-1))
      | None \<Rightarrow> Inr (-1))"

definition setMaxForwards :: "osip_lib \<Rightarrow> int \<Rightarrow> osip_message \<Rightarrow> osip_message" where
  "setMaxForwards L v m =
     (case L_header_byname L (m_headers m) ''max-forwards'' 0 of
        Some (i, h) \<Rightarrow> m\<lparr>m_headers := (m_headers m)[i := h\<lparr>hvalue := Some (show_int v)\<rparr>]\<rparr>
      | None \<Rightarrow> addHeader L ''Max-Forwards'' (show_int v) m)"

definition decrementMaxForwards :: "osip_lib \<Rightarrow> osip_message \<Rightarrow> std_exception + osip_message" where
  "decrementMaxForwards L m =
     (case maxForwards L m of
        Inl e \<Rightarrow> Inl e
      | Inr mf \<Rightarrow> Inr (if 0 < mf then setMaxForwards L (mf - 1) m else m))"

subsection \<open>Responses and requests\<close>

definition createResponse ::
  "osip_lib \<Rightarrow> string \<Rightarrow> osip_message \<Rightarrow> int \<Rightarrow> string \<Rightarrow> osip_message result" where
  "createResponse L tag request code reason =
     (case create L of
        Inl e \<Rightarrow> Inl e
      | Inr m0 \<Rightarrow>
          (let r1 = setStatus code reason m0;
               r2 = r1\<lparr>m_vias := m_vias r1 @ List.map_filter (L_via_clone L) (m_vias request)\<rparr>;
               r3 = (case m_from request of None \<Rightarrow> r2 | Some f \<Rightarrow> r2\<lparr>m_from := L_from_clone L f\<rparr>);
               r4 = (case m_to request of None \<Rightarrow> r3 | Some t \<Rightarrow> r3\<lparr>m_to := L_from_clone L t\<rparr>);
               r5 = (if 100 < code \<and> toTag L r4 = [] then setToTag L tag r4 else r4);
               r6 = (case m_call_id request of None \<Rightarrow> r5
                       | Some c \<Rightarrow> r5\<lparr>m_call_id := L_call_id_clone L c\<rparr>);
               r7 = (case m_cseq request of None \<Rightarrow> r6 | Some c \<Rightarrow> r6\<lparr>m_cseq := L_cseq_clone L c\<rparr>)
           in Inr r7))"

definition createRequest :: "osip_lib \<Rightarrow> string \<Rightarrow> string \<Rightarrow> osip_message result" where
  "createRequest L meth request_uri =
     (case create L of
        Inl e \<Rightarrow> Inl e
      | Inr m0 \<Rightarrow> Inr (setRequestUri L request_uri (setMethod meth (L_set_version L ''SIP/2.0'' m0))))"

definition generateBranch :: "string \<Rightarrow> string" where
  "generateBranch random_hex_16 = ''z9hG4bK'' @ random_hex_16"

subsection \<open>Lemmas\<close>

lemma isRequest_simps [simp]:
  "isRequest m \<longleftrightarrow> m_status_code m = 0" "isResponse m \<longleftrightarrow> m_status_code m \<noteq> 0"
  by (simp_all add: isRequest_def isResponse_def MSG_IS_REQUEST_def MSG_IS_RESPONSE_def)

lemma map_filter_Some: "List.map_filter Some xs = xs"
  by (induction xs) (simp_all add: List.map_filter_simps)

text \<open>What the library's search by name finds.\<close>

definition named :: "string \<Rightarrow> osip_header \<Rightarrow> bool" where
  "named name h \<longleftrightarrow> lowercase (hname h) = lowercase name"

lemma filter_upt_ge: "filter (\<lambda>i. pos \<le> i \<and> P i) [0..<n] = filter P [pos..<n]"
proof (cases "pos \<le> n")
  case True
  have "filter (\<lambda>i. pos \<le> i \<and> P i) [0..<n] =
      filter (\<lambda>i. pos \<le> i \<and> P i) [0..<pos] @ filter (\<lambda>i. pos \<le> i \<and> P i) [pos..<n]"
    using upt_add_eq_append [of 0 pos "n - pos"] True by simp
  also have "filter (\<lambda>i. pos \<le> i \<and> P i) [0..<pos] = []" by (simp add: filter_empty_conv)
  also have "filter (\<lambda>i. pos \<le> i \<and> P i) [pos..<n] = filter P [pos..<n]"
    by (rule filter_cong) simp_all
  finally show ?thesis by simp
qed (simp add: filter_empty_conv)

lemma header_lookup:
  "header_lookup_ok L \<Longrightarrow> L_header_byname L hs n pos =
     (case filter (\<lambda>i. named n (hs ! i)) [pos..<length hs] of [] \<Rightarrow> None | i # _ \<Rightarrow> Some (i, hs ! i))"
  by (simp add: header_lookup_ok_def named_def filter_upt_ge)

lemma header_lookup_first:
  assumes "header_lookup_ok L" "\<forall>x \<in> set pre. \<not> named n x" "named n h" "pos \<le> length pre"
  shows "L_header_byname L (pre @ h # post) n pos = Some (length pre, h)"
proof -
  let ?hs = "pre @ h # post"
  have "[pos..<length ?hs] = [pos..<length pre] @ length pre # [Suc (length pre)..<length ?hs]"
    using upt_add_eq_append [OF assms(4), of "Suc (length post)"]
      upt_conv_Cons [of "length pre" "length ?hs"] by (simp del: upt_Suc)
  moreover have "filter (\<lambda>i. named n (?hs ! i)) [pos..<length pre] = []"
    using assms(2) by (auto simp: filter_empty_conv nth_append)
  ultimately show ?thesis
    using assms(3) unfolding header_lookup [OF assms(1)] by simp
qed

lemma header_lookup_none:
  assumes "header_lookup_ok L" "\<forall>x \<in> set (drop pos hs). \<not> named n x"
  shows "L_header_byname L hs n pos = None"
proof -
  have "hs ! i \<in> set (drop pos hs)" if "pos \<le> i" "i < length hs" for i
    using nth_mem [of "i - pos" "drop pos hs"] that by simp
  then have "filter (\<lambda>i. named n (hs ! i)) [pos..<length hs] = []"
    using assms(2) by (auto simp: filter_empty_conv)
  then show ?thesis unfolding header_lookup [OF assms(1)] by simp
qed

lemma header_values_loop_repeats:
  assumes L: "header_lookup_ok L" and pre: "\<forall>x \<in> set pre. \<not> named n x"
    and post: "\<forall>x \<in> set post. \<not> named n x" and h: "named n h" "hvalue h = Some v"
  shows "pos \<le> Suc (length pre) \<Longrightarrow> length pre + 2 \<le> fuel + pos \<Longrightarrow>
    header_values_loop fuel L (pre @ h # post) n pos = replicate (Suc (length pre) - pos) v"
proof (induction fuel arbitrary: pos)
  case (Suc fuel)
  show ?case
  proof (cases "pos \<le> length pre")
    case True
    with Suc have "header_values_loop fuel L (pre @ h # post) n (Suc pos) =
        replicate (Suc (length pre) - Suc pos) v" by simp
    with True h show ?thesis
      by (simp add: header_lookup_first [OF L pre] Suc_diff_le)
  next
    case False
    with Suc.prems have "pos = Suc (length pre)" by simp
    then show ?thesis using header_lookup_none [OF L, of pos "pre @ h # post" n] post by simp
  qed
qed simp

definition special_names :: "string list" where
  "special_names = [''contact'', ''route'', ''record-route'', ''authorization'',
     ''proxy-authorization'', ''www-authenticate'', ''proxy-authenticate'']"

lemma getHeaders_generic:
  "lowercase name \<notin> set special_names \<Longrightarrow>
   getHeaders L name m = header_values_loop (Suc (length (m_headers m))) L (m_headers m) name 0"
  by (simp add: getHeaders_def special_names_def)

subsection \<open>Properties\<close>

lemma copy_if_present:
  "m_from r = None \<Longrightarrow> (case f of None \<Rightarrow> r | Some x \<Rightarrow> r\<lparr>m_from := Some x\<rparr>) = r\<lparr>m_from := f\<rparr>"
  "m_to r = None \<Longrightarrow> (case t of None \<Rightarrow> r | Some x \<Rightarrow> r\<lparr>m_to := Some x\<rparr>) = r\<lparr>m_to := t\<rparr>"
  "m_call_id r = None \<Longrightarrow> (case c of None \<Rightarrow> r | Some x \<Rightarrow> r\<lparr>m_call_id := Some x\<rparr>) = r\<lparr>m_call_id := c\<rparr>"
  "m_cseq r = None \<Longrightarrow> (case q of None \<Rightarrow> r | Some x \<Rightarrow> r\<lparr>m_cseq := Some x\<rparr>) = r\<lparr>m_cseq := q\<rparr>"
  by (cases r; cases f; cases t; cases c; cases q; simp)+

lemma createResponse_fields:
  assumes "clone_ok L" "init_ok L" "createResponse L tag request code reason = Inr r"
  shows "m_status_code r = code \<and> m_vias r = m_vias request \<and> m_from r = m_from request \<and>
    m_call_id r = m_call_id request \<and> m_cseq r = m_cseq request \<and>
    m_to r = (if 100 < code \<and> toTag L request = []
              then map_option (L_set_to_tag L tag) (m_to request) else m_to request)"
proof -
  have c: "L_via_clone L = Some" "L_from_clone L = Some" "L_call_id_clone L = Some"
    "L_cseq_clone L = Some" "create L = Inr empty_message"
    using assms(1,2) by (simp_all add: clone_ok_def init_ok_def create_def)
  let ?r4 = "empty_message\<lparr>m_status_code := code, m_reason_phrase := Some reason,
      m_vias := m_vias request, m_from := m_from request, m_to := m_to request\<rparr>"
  have e: "m_from empty_message = None" "m_to empty_message = None" "m_call_id empty_message = None"
    "m_cseq empty_message = None" "m_vias empty_message = []"
    by (simp_all add: empty_message_def)
  have t: "toTag L ?r4 = toTag L request" by (simp add: toTag_def)
  have "r = (if 100 < code \<and> toTag L request = [] then setToTag L tag ?r4 else ?r4)
      \<lparr>m_call_id := m_call_id request, m_cseq := m_cseq request\<rparr>"
    using assms(3)
    by (cases "100 < code \<and> toTag L request = []")
      (auto simp: createResponse_def c Let_def setStatus_def setToTag_def copy_if_present e t
        map_filter_Some cong: option.case_cong)
  then show ?thesis by (simp add: setToTag_def)
qed

text \<open>A response answers its request: it carries the status, all Via headers in order, the
  From header, the Call-ID and the CSeq of the request; its To tag is the request's if it has one,
  and otherwise a fresh tag whenever the status is above 100.\<close>

theorem response_matches_request:
  assumes "clone_ok L" "init_ok L" "set_tag_ok L" "code \<noteq> 0"
    and "createResponse L tag request code reason = Inr r"
  shows "statusCode r = code \<and> m_vias r = m_vias request \<and> fromTag L r = fromTag L request \<and>
    callId r = callId request \<and> m_cseq r = m_cseq request \<and>
    (toTag L request \<noteq> [] \<longrightarrow> toTag L r = toTag L request) \<and>
    (100 < code \<and> (\<exists>t. m_to request = Some t \<and> param_gvalue L (na_params t) ''tag'' = None) \<longrightarrow>
      toTag L r = tag)"
  using assms(3,4) createResponse_fields [OF assms(1,2,5)]
  by (auto simp: statusCode_def fromTag_def callId_def toTag_def tag_of_def set_tag_ok_def
      MSG_IS_RESPONSE_def)

definition demo_request :: osip_message where
  "demo_request = empty_message
     \<lparr>m_method := Some ''INVITE'',
      m_vias := [\<lparr>via_protocol = None, via_host = None, via_port = None,
                  via_params = [\<lparr>gname = ''branch'', gvalue = Some ''z9hG4bKa''\<rparr>], via_opaque = ''v1''\<rparr>],
      m_from := Some \<lparr>na_url = None, na_params = [\<lparr>gname = ''tag'', gvalue = Some ''f1''\<rparr>], na_opaque = ''alice''\<rparr>,
      m_to := Some \<lparr>na_url = None, na_params = [], na_opaque = ''bob''\<rparr>,
      m_call_id := Some \<lparr>cid_number = Some ''c1'', cid_host = None\<rparr>,
      m_cseq := Some \<lparr>cs_number = Some ''7'', cs_method = Some ''INVITE''\<rparr>,
      m_headers := [\<lparr>hname = ''max-forwards'', hvalue = Some ''70''\<rparr>,
                    \<lparr>hname = ''Security-Client'', hvalue = Some ''ipsec''\<rparr>]\<rparr>"

lemma response_matches_request_witness:
  "toTag demo_lib (projr (createResponse demo_lib ''t9'' demo_request 200 ''OK'')) = ''t9''"
  using response_matches_request [OF demo_lib_ok(2,3,4), of 200 "''t9''" demo_request "''OK''"
      "projr (createResponse demo_lib ''t9'' demo_request 200 ''OK'')"]
  by (simp add: createResponse_def create_def demo_lib_def demo_request_def param_gvalue_def Let_def)

text \<open>Reading a header that occurs once, at position n of the list, yields its value n + 1
  times: the search position advances by one in each turn instead of past the header found.\<close>

theorem getHeaders_repeats_the_value:
  assumes "header_lookup_ok L" and "lowercase name \<notin> set special_names"
    and "m_headers m = pre @ h # post" and "named name h" and "hvalue h = Some v"
    and "\<forall>x \<in> set pre. \<not> named name x" and "\<forall>x \<in> set post. \<not> named name x"
  shows "getHeaders L name m = replicate (Suc (length pre)) v"
  unfolding getHeaders_generic [OF assms(2)] assms(3)
  by (subst header_values_loop_repeats [OF assms(1,6,7,4,5)]) simp_all

lemma getHeaders_repeats_the_value_witness:
  "getHeaders demo_lib ''Security-Client'' demo_request = [''ipsec'', ''ipsec'']"
  using getHeaders_repeats_the_value [OF demo_lib_ok(1), of "''Security-Client''" demo_request
      "[hd (m_headers demo_request)]" "m_headers demo_request ! 1" "[]" "''ipsec''"]
  by (simp add: demo_request_def named_def special_names_def lowercase_def tolower_def char_code_def
      Let_def numeral_eq_Suc)

text \<open>C30: Removing a generic header whose first occurrence is not at the front of the list
  takes another header out of the message, the first of the list, and frees the header that was found while
  it stays linked: the message keeps it, freed, one position further to the front.\<close>

theorem removeHeader_frees_a_linked_header:
  assumes "header_lookup_ok L" and "lowercase name \<notin> set special_names"
    and "m_headers m = pre @ h # post" and "pre \<noteq> []" and "named name h"
    and "\<forall>x \<in> set pre. \<not> named name x"
  shows "removeHeader L name m = Freed_linked (m\<lparr>m_headers := tl pre @ h # post\<rparr>) (length pre - 1) \<and>
    (tl pre @ h # post) ! (length pre - 1) = h \<and> \<not> named name (hd pre)"
proof -
  obtain x xs where pre: "pre = x # xs" using assms(4) by (cases pre) auto
  have "removeHeader L name m = Freed_linked (m\<lparr>m_headers := tl pre @ h # post\<rparr>) (length pre - 1)"
    using assms header_lookup_first [OF assms(1,6,5), of 0 post]
    by (auto simp: removeHeader_def special_names_def pre)
  then show ?thesis using assms(6) by (simp add: pre nth_append)
qed

lemma removeHeader_frees_a_linked_header_witness:
  "removeHeader demo_lib ''Security-Client'' demo_request =
     Freed_linked (demo_request\<lparr>m_headers := tl (m_headers demo_request)\<rparr>) 0"
  using removeHeader_frees_a_linked_header [OF demo_lib_ok(1), of "''Security-Client''" demo_request
      "[hd (m_headers demo_request)]" "m_headers demo_request ! 1" "[]"]
  by (simp add: demo_request_def named_def special_names_def lowercase_def tolower_def char_code_def
      Let_def)

lemma named_first_split:
  assumes "\<exists>x \<in> set hs. named n x"
  obtains pre h post where "hs = pre @ h # post" "\<forall>x \<in> set pre. \<not> named n x" "named n h"
  using split_list_first_prop [OF assms] by blast

text \<open>Each hop takes one off Max-Forwards: when the header holds a positive number, the
  decremented message reads one less, and a message without the header stays as it is.\<close>

lemma hop_decrements_max_forwards:
  assumes "header_lookup_ok L" and "maxForwards L m = Inr k" and "decrementMaxForwards L m = Inr m'"
    and "k \<le> 2 ^ 31"
  shows "maxForwards L m' = Inr (if 0 < k then k - 1 else k)"
proof (cases "0 < k")
  case True
  then have "L_header_byname L (m_headers m) ''max-forwards'' 0 \<noteq> None"
    using assms(2) by (cases "L_header_byname L (m_headers m) ''max-forwards'' 0") (simp_all add: maxForwards_def)
  then have "\<exists>x \<in> set (m_headers m). named ''max-forwards'' x"
    using header_lookup_none [OF assms(1), of 0 "m_headers m" "''max-forwards''"] by force
  then obtain pre h post where hs: "m_headers m = pre @ h # post"
      "\<forall>x \<in> set pre. \<not> named ''max-forwards'' x" "named ''max-forwards'' h"
    by (rule named_first_split)
  let ?h = "h\<lparr>hvalue := Some (show_int (k - 1))\<rparr>"
  have m': "m' = m\<lparr>m_headers := pre @ ?h # post\<rparr>"
    using True assms(2,3) header_lookup_first [OF assms(1) hs(2,3), of 0 post]
    by (simp add: decrementMaxForwards_def setMaxForwards_def hs(1))
  have "named ''max-forwards'' ?h" using hs(3) by (simp add: named_def)
  then have "L_header_byname L (m_headers m') ''max-forwards'' 0 = Some (length pre, ?h)"
    using header_lookup_first [OF assms(1) hs(2), of ?h 0 post] by (simp add: m')
  then show ?thesis using True assms(4) stoi_show_int [of "k - 1"] by (simp add: maxForwards_def)
next
  case False
  with assms(2,3) show ?thesis by (auto simp: decrementMaxForwards_def)
qed

text \<open>A generic header goes to the end of the list.\<close>

definition set_header_appends :: "osip_lib \<Rightarrow> bool" where
  "set_header_appends L \<longleftrightarrow>
     (\<forall>n v m. m_headers (L_set_header L n v m) = m_headers m @ [\<lparr>hname = n, hvalue = Some v\<rparr>])"

lemma demo_set_header_appends: "set_header_appends demo_lib"
  by (simp add: set_header_appends_def demo_lib_def)

lemma header_names: "lowercase ''Path'' = ''path''" "lowercase ''max-forwards'' = ''max-forwards''"
  by code_simp+

text \<open>The value that is set is the value that is read.\<close>

lemma set_max_forwards_reads:
  assumes "header_lookup_ok L" and "set_header_appends L" and "0 \<le> v" and "v < 2 ^ 31"
  shows "maxForwards L (setMaxForwards L v m) = Inr v"
proof (cases "\<exists>x \<in> set (m_headers m). named ''max-forwards'' x")
  case True
  then obtain pre h post where hs: "m_headers m = pre @ h # post"
      "\<forall>x \<in> set pre. \<not> named ''max-forwards'' x" "named ''max-forwards'' h"
    by (rule named_first_split)
  let ?h = "h\<lparr>hvalue := Some (show_int v)\<rparr>"
  have m': "setMaxForwards L v m = m\<lparr>m_headers := pre @ ?h # post\<rparr>"
    using header_lookup_first [OF assms(1) hs(2,3), of 0 post] by (simp add: setMaxForwards_def hs(1))
  have "named ''max-forwards'' ?h" using hs(3) by (simp add: named_def)
  then have "L_header_byname L (m_headers (setMaxForwards L v m)) ''max-forwards'' 0 = Some (length pre, ?h)"
    using header_lookup_first [OF assms(1) hs(2), of ?h 0 post] by (simp add: m')
  then show ?thesis using assms(3,4) stoi_show_int [of v] by (simp add: maxForwards_def)
next
  case False
  let ?h = "\<lparr>hname = ''Max-Forwards'', hvalue = Some (show_int v)\<rparr>"
  have "L_header_byname L (m_headers m) ''max-forwards'' 0 = None"
    using False header_lookup_none [OF assms(1), of 0 "m_headers m" "''max-forwards''"] by force
  then have hs: "m_headers (setMaxForwards L v m) = m_headers m @ [?h]"
    using assms(2) by (simp add: setMaxForwards_def addHeader_def set_header_appends_def)
  have "lowercase ''Max-Forwards'' = ''max-forwards''" by code_simp
  then have "named ''max-forwards'' ?h" by (simp add: named_def header_names)
  then have "L_header_byname L (m_headers (setMaxForwards L v m)) ''max-forwards'' 0 = Some (length (m_headers m), ?h)"
    using header_lookup_first [OF assms(1), of "m_headers m" "''max-forwards''" ?h 0 "[]"] False by (simp add: hs)
  then show ?thesis using assms(3,4) stoi_show_int [of v] by (simp add: maxForwards_def)
qed

lemma demo_max_forwards:
  "maxForwards demo_lib demo_request = Inr 70"
  "maxForwards demo_lib (projr (decrementMaxForwards demo_lib demo_request)) = Inr 69"
proof -
  have l: "L_header_byname demo_lib (m_headers demo_request) ''max-forwards'' 0 =
      Some (0, \<lparr>hname = ''max-forwards'', hvalue = Some ''70''\<rparr>)"
    using header_lookup_first [OF demo_lib_ok(1), of "[]" "''max-forwards''"
        "\<lparr>hname = ''max-forwards'', hvalue = Some ''70''\<rparr>" 0 "tl (m_headers demo_request)"]
    by (simp add: demo_request_def named_def)
  have s: "stoi ''70'' = Inr 70"
    by (simp add: stoi_def sto_signed_def scan_number_def is_space_def is_digit_def char_code_def
        digit_val_def Let_def signed_of_def)
  have k: "maxForwards demo_lib demo_request = Inr 70" by (simp add: maxForwards_def l s)
  then obtain m' where m': "decrementMaxForwards demo_lib demo_request = Inr m'"
    by (simp add: decrementMaxForwards_def)
  show "maxForwards demo_lib demo_request = Inr 70" by (rule k)
  from hop_decrements_max_forwards [OF demo_lib_ok(1) k m']
  show "maxForwards demo_lib (projr (decrementMaxForwards demo_lib demo_request)) = Inr 69" by (simp add: m')
qed

text \<open>Route headers are split back into the entries that were joined.\<close>

fun join_values :: "string list \<Rightarrow> string" where
  "join_values [] = []"
| "join_values [u] = ''<'' @ u @ ''>''"
| "join_values (u # us) = ''<'' @ u @ ''>, '' @ join_values us"

definition uri_text :: "string \<Rightarrow> bool" where
  "uri_text u \<longleftrightarrow> CHR 0x22 \<notin> set u \<and> CHR ''<'' \<notin> set u \<and> CHR ''>'' \<notin> set u"

lemma split_inside_brackets:
  "uri_text u \<Longrightarrow> split_loop (u @ rest) cur False (Suc 0) parts = split_loop rest (cur @ u) False (Suc 0) parts"
proof (induction u arbitrary: cur)
  case (Cons c u)
  then show ?case by (auto simp: uri_text_def)
qed simp

lemma split_bracketed:
  "uri_text u \<Longrightarrow> split_loop (''<'' @ u @ ''>'' @ rest) cur False 0 parts =
     split_loop rest (cur @ ''<'' @ u @ ''>'') False 0 parts"
  using split_inside_brackets [of u "''>'' @ rest" "cur @ ''<''" parts] by simp

lemma trim_bracketed: "trim ('' '' @ ''<'' @ u @ ''>'') = ''<'' @ u @ ''>''"
    "trim (''<'' @ u @ ''>'') = ''<'' @ u @ ''>''"
  by (simp_all add: trim_def)

lemma split_join:
  "us \<noteq> [] \<Longrightarrow> list_all uri_text us \<Longrightarrow> cur = [] \<or> cur = '' '' \<Longrightarrow>
   split_loop (join_values us) cur False 0 parts = parts @ map (\<lambda>u. ''<'' @ u @ ''>'') us"
proof (induction us arbitrary: cur parts rule: join_values.induct)
  case (2 u)
  then show ?case using split_bracketed [of u "[]" cur parts] trim_bracketed [of u]
    by (auto simp: push_part_def)
next
  case (3 u v us)
  have "split_loop (join_values (u # v # us)) cur False 0 parts =
      split_loop ('', '' @ join_values (v # us)) (cur @ ''<'' @ u @ ''>'') False 0 parts"
    using split_bracketed [of u "'', '' @ join_values (v # us)" cur parts] 3 by simp
  also have "\<dots> = split_loop (join_values (v # us)) '' '' False 0 (parts @ [''<'' @ u @ ''>''])"
    using 3(4) trim_bracketed [of u] by (auto simp: push_part_def)
  finally show ?case using 3 by simp
qed simp

text \<open>Splitting a Route or Record-Route header that joins bracketed URIs with commas gives back
  those URIs in order, also when the URIs themselves contain commas.\<close>

theorem route_values_split_back:
  assumes "us \<noteq> []" and "list_all uri_text us"
  shows "split_header_values (join_values us) = map (\<lambda>u. ''<'' @ u @ ''>'') us"
  using split_join [OF assms, of "[]" "[]"] by (simp add: split_header_values_def)

lemma route_values_split_back_witness:
  "split_header_values ''<sip:a;x=1,2>, <sip:b>'' = [''<sip:a;x=1,2>'', ''<sip:b>'']"
  using route_values_split_back [of "[''sip:a;x=1,2'', ''sip:b'']"] by (simp add: uri_text_def)

end
