(* ===== verification/Umap.thy ===== *)
theory Umap
  imports Cpp_Std
begin

section \<open>Hash tables: \<^verbatim>\<open>std::unordered_map\<close>\<close>

text \<open>
  A hash table is the list of its entries in the order an iteration visits them; the order is
  that of insertion here, one of the orders an implementation may show, and the properties of
  the components are stated so that they hold for every initial order.  The representation
  invariant is that no key occurs twice.  \<^verbatim>\<open>um_put\<close> is \<^verbatim>\<open>m[k] = v\<close>,
  \<^verbatim>\<open>um_emplace\<close> keeps an existing entry, \<^verbatim>\<open>um_next\<close> is the element that
  \<^verbatim>\<open>erase(it)\<close> returns an iterator to.  The locale states what the clients rely on.
\<close>

type_synonym ('k, 'v) umap = "('k \<times> 'v) list"

abbreviation um_find :: "('k, 'v) umap \<Rightarrow> 'k \<Rightarrow> 'v option" where
  "um_find m k \<equiv> map_of m k"

fun um_put :: "'k \<Rightarrow> 'v \<Rightarrow> ('k, 'v) umap \<Rightarrow> ('k, 'v) umap" where
  "um_put k v [] = [(k, v)]"
| "um_put k v ((k', v') # m) = (if k = k' then (k, v) # m else (k', v') # um_put k v m)"

definition um_emplace :: "'k \<Rightarrow> 'v \<Rightarrow> ('k, 'v) umap \<Rightarrow> ('k, 'v) umap" where
  "um_emplace k v m = (case um_find m k of None \<Rightarrow> um_put k v m | Some _ \<Rightarrow> m)"

definition um_erase_if :: "('k \<times> 'v \<Rightarrow> bool) \<Rightarrow> ('k, 'v) umap \<Rightarrow> ('k, 'v) umap" where
  "um_erase_if P m = filter (\<lambda>e. \<not> P e) m"

definition um_erase :: "'k \<Rightarrow> ('k, 'v) umap \<Rightarrow> ('k, 'v) umap" where
  "um_erase k m = um_erase_if (\<lambda>e. fst e = k) m"

fun um_next :: "'k \<Rightarrow> ('k, 'v) umap \<Rightarrow> 'k option" where
  "um_next k [] = None"
| "um_next k (e # m) =
     (if fst e = k then (case m of [] \<Rightarrow> None | e' # _ \<Rightarrow> Some (fst e')) else um_next k m)"

definition um_map_vals :: "('k \<Rightarrow> 'v \<Rightarrow> 'v) \<Rightarrow> ('k, 'v) umap \<Rightarrow> ('k, 'v) umap" where
  "um_map_vals f m = map (\<lambda>(k, v). (k, f k v)) m"

definition um_wf :: "('k, 'v) umap \<Rightarrow> bool" where
  "um_wf m \<longleftrightarrow> distinct (map fst m)"

subsection \<open>The interface\<close>

locale key_value_store =
  fixes find :: "'m \<Rightarrow> 'k \<Rightarrow> 'v option"
    and put :: "'k \<Rightarrow> 'v \<Rightarrow> 'm \<Rightarrow> 'm"
    and erase :: "'k \<Rightarrow> 'm \<Rightarrow> 'm"
    and wf :: "'m \<Rightarrow> bool"
  assumes find_put: "find (put k v m) k' = (if k' = k then Some v else find m k')"
    and find_erase: "find (erase k m) k' = (if k' = k then None else find m k')"
    and wf_put: "wf m \<Longrightarrow> wf (put k v m)"
    and wf_erase: "wf m \<Longrightarrow> wf (erase k m)"
begin

lemma rekey:
  "k \<noteq> k' \<Longrightarrow> find (put k' v (erase k m)) k = None"
  "find (put k' v (erase k m)) k' = Some v"
  "k'' \<noteq> k \<Longrightarrow> k'' \<noteq> k' \<Longrightarrow> find (put k' v (erase k m)) k'' = find m k''"
  by (simp_all add: find_put find_erase)

lemma wf_rekey: "wf m \<Longrightarrow> wf (put k' v (erase k m))"
  by (intro wf_put wf_erase)

lemma fold_put_other: "k \<notin> set ks \<Longrightarrow> find (fold (\<lambda>x. put x (f x)) ks m) k = find m k"
  by (induction ks arbitrary: m) (auto simp: find_put)

lemma fold_put_in: "k \<in> set ks \<Longrightarrow> find (fold (\<lambda>x. put x (f x)) ks m) k = Some (f k)"
proof (induction ks arbitrary: m)
  case (Cons x ks)
  then show ?case
    by (cases "k \<in> set ks") (auto simp: fold_put_other find_put)
qed simp

lemma fold_erase: "find (fold erase ks m) k = (if k \<in> set ks then None else find m k)"
  by (induction ks arbitrary: m) (auto simp: find_erase)

end

lemma um_find_put: "um_find (um_put k v m) k' = (if k' = k then Some v else um_find m k')"
  by (induction k v m rule: um_put.induct) auto

lemma um_find_erase_if:
  "um_wf m \<Longrightarrow>
   um_find (um_erase_if P m) k =
     (case um_find m k of None \<Rightarrow> None | Some v \<Rightarrow> if P (k, v) then None else Some v)"
  unfolding um_wf_def um_erase_if_def
proof (induction m)
  case (Cons e m)
  obtain k' v' where e: "e = (k', v')" by (cases e)
  have "k' = k \<Longrightarrow> map_of (filter (\<lambda>e. \<not> P e) m) k = None"
    using Cons.prems e by (force simp: map_of_eq_None_iff)
  then show ?case using Cons e by auto
qed simp

lemma um_find_erase: "um_find (um_erase k m) k' = (if k' = k then None else um_find m k')"
  unfolding um_erase_def um_erase_if_def by (induction m) auto

lemma um_find_map_vals: "um_find (um_map_vals f m) k = map_option (f k) (um_find m k)"
  unfolding um_map_vals_def by (induction m) auto

lemma fst_um_put: "fst ` set (um_put k v m) = insert k (fst ` set m)"
  by (induction k v m rule: um_put.induct) auto

lemma um_wf_put: "um_wf m \<Longrightarrow> um_wf (um_put k v m)"
proof (induction k v m rule: um_put.induct)
  case (2 k v k' v' m)
  then show ?case using fst_um_put [of k v m] by (auto simp: um_wf_def image_iff)
qed (simp add: um_wf_def)

lemma um_wf_erase_if: "um_wf m \<Longrightarrow> um_wf (um_erase_if P m)"
  by (simp add: um_wf_def um_erase_if_def distinct_map_filter)

lemma um_wf_erase: "um_wf m \<Longrightarrow> um_wf (um_erase k m)"
  by (simp add: um_erase_def um_wf_erase_if)

lemma um_wf_map_vals [simp]: "um_wf (um_map_vals f m) \<longleftrightarrow> um_wf m"
  by (simp add: um_wf_def um_map_vals_def comp_def case_prod_beta)

lemma um_wf_Nil [simp]: "um_wf []"
  by (simp add: um_wf_def)

interpretation um: key_value_store "map_of" um_put um_erase um_wf
  by unfold_locales (simp_all add: um_find_put um_find_erase um_wf_put um_wf_erase)

lemma um_wf_emplace: "um_wf m \<Longrightarrow> um_wf (um_emplace k v m)"
  by (simp add: um_emplace_def um.wf_put split: option.split)

lemma um_find_emplace:
  "um_find (um_emplace k v m) k' =
     (if k' = k \<and> um_find m k = None then Some v else um_find m k')"
  by (auto simp: um_emplace_def um_find_put split: option.split)

lemma um_erase_absent: "um_find m k = None \<Longrightarrow> um_erase k m = m"
  unfolding um_erase_def um_erase_if_def
  by (induction m) (auto split: if_splits)

lemma um_wf_in: "um_wf m \<Longrightarrow> (k, v) \<in> set m \<longleftrightarrow> um_find m k = Some v"
  by (simp add: um_wf_def)

lemma um_find_in: "um_find m k = Some v \<Longrightarrow> (k, v) \<in> set m"
  by (rule map_of_SomeD)

lemma set_um_put: "set (um_put k v m) \<subseteq> insert (k, v) (set m)"
  by (induction k v m rule: um_put.induct) auto

lemma um_find_erase_if_Some: "um_wf m \<Longrightarrow> um_find (um_erase_if P m) k = Some v \<Longrightarrow> um_find m k = Some v"
  by (metis um_erase_if_def um_find_in um_wf_in filter_is_subset subsetD)

lemmas um_lookup = um_find_put um_find_erase um_find_emplace um_find_map_vals
lemmas um_wfs = um_wf_put um_wf_erase_if um.wf_erase um_wf_emplace

end
