(* ===== verification/Transaction.thy ===== *)
theory Transaction
  imports Sip_Message Umap
begin

section \<open>The transaction layer (sip/transaction.cpp)\<close>

text \<open>
  Server and client transactions, and the layer that owns them.  A transaction object is a
  record; the layer keeps its objects in two heaps (lists; a \<^verbatim>\<open>shared_ptr\<close> is an index)
  because the application goes on using a transaction after the tables have dropped it.  A timer
  is the time it expires at, when it is armed; \<^verbatim>\<open>cancel\<close> and a new
  \<^verbatim>\<open>expires_after\<close> replace the pending wait.  Callbacks that the layer installs are the
  values they capture, and the application's callback is a number.

  The transport is an argument \<open>tr\<close> of each operation that sends: the result
  \<^verbatim>\<open>ITransport::send\<close> gives for a message and a destination.  What leaves the layer is a
  list of events.  Each definition is one critical section or a sequence of them with no other
  thread between; the two places where the code re-checks after releasing the lock are definitions
  of their own (\<open>insertClient\<close>, \<open>insertServer\<close>).
\<close>

datatype TransactionState = kTrying | kProceeding | kCompleted | kConfirmed | kTerminated

datatype event =
    Send osip_message Endpoint
  | Invoke_handler nat
  | Deliver nat nat osip_message

type_synonym transport = "osip_message \<Rightarrow> Endpoint \<Rightarrow> unit result"

definition milliseconds :: "int \<Rightarrow> int" where
  "milliseconds n = n * 1000000"

definition kTimerT1 :: int where "kTimerT1 = milliseconds 500"
definition kTimerT2 :: int where "kTimerT2 = milliseconds 4000"
definition kTimerB :: int where "kTimerB = seconds 32"
definition kTimerJ :: int where "kTimerJ = seconds 32"
definition kTimerH :: int where "kTimerH = seconds 32"

lemmas timer_values =
  milliseconds_def seconds_def kTimerT1_def kTimerT2_def kTimerB_def kTimerJ_def kTimerH_def

subsection \<open>Server transactions\<close>

record server_txn =
  s_request :: osip_message
  s_source :: Endpoint
  s_state :: TransactionState
  s_branch :: string
  s_last_response :: "osip_message option"
  s_on_terminated :: "string option"
  s_notified :: bool
  s_timer_j :: "time_point option"
  s_timer_h :: "time_point option"

definition ServerTransaction :: "osip_lib \<Rightarrow> osip_message \<Rightarrow> Endpoint \<Rightarrow> server_txn" where
  "ServerTransaction L req src =
     \<lparr>s_request = req, s_source = src, s_state = kTrying, s_branch = viaBranch L req,
      s_last_response = None, s_on_terminated = None, s_notified = False,
      s_timer_j = None, s_timer_h = None\<rparr>"

text \<open>The callback to run, when termination was not notified before.\<close>

definition markTerminatedLocked :: "server_txn \<Rightarrow> server_txn \<times> string option" where
  "markTerminatedLocked t =
     (if s_notified t then (t, None) else (t\<lparr>s_notified := True\<rparr>, s_on_terminated t))"

definition startTimers :: "time_point \<Rightarrow> int \<Rightarrow> server_txn \<Rightarrow> server_txn" where
  "startTimers now final_response_code t =
     (if message_method (s_request t) = ''INVITE'' \<and> 300 \<le> final_response_code
      then t\<lparr>s_timer_j := None, s_timer_h := Some (now + kTimerH)\<rparr>
      else t\<lparr>s_timer_h := None, s_timer_j := Some (now + kTimerJ)\<rparr>)"

text \<open>The state update of \<^verbatim>\<open>sendResponse\<close> after the transport accepted the response.\<close>

definition response_sent :: "time_point \<Rightarrow> int \<Rightarrow> server_txn \<Rightarrow> server_txn \<times> string option" where
  "response_sent now code t =
     (if 100 \<le> code \<and> code < 200 then (t\<lparr>s_state := kProceeding\<rparr>, None)
      else if 200 \<le> code then
        (if message_method (s_request t) = ''INVITE'' \<and> code < 300
         then markTerminatedLocked (t\<lparr>s_timer_j := None, s_timer_h := None, s_state := kTerminated\<rparr>)
         else (startTimers now code (t\<lparr>s_state := kCompleted\<rparr>), None))
      else (t, None))"

definition sendResponse ::
  "osip_lib \<Rightarrow> transport \<Rightarrow> time_point \<Rightarrow> osip_message \<Rightarrow> server_txn \<Rightarrow>
     server_txn \<times> string option \<times> event list \<times> unit result" where
  "sendResponse L tr now response t =
     (case clone L response of
        Inl e \<Rightarrow> (t, None, [], Inl e)
      | Inr response_copy \<Rightarrow>
          (case tr response (s_source t) of
             Inl e \<Rightarrow> (t, None, [Send response (s_source t)], Inl e)
           | Inr _ \<Rightarrow>
               (let (t', on_terminated) =
                  response_sent now (statusCode response) (t\<lparr>s_last_response := Some response_copy\<rparr>)
                in (t', on_terminated, [Send response (s_source t)], Inr ()))))"

definition retransmitLastResponse ::
  "osip_lib \<Rightarrow> transport \<Rightarrow> server_txn \<Rightarrow> event list \<times> unit result" where
  "retransmitLastResponse L tr t =
     (case s_last_response t of
        None \<Rightarrow> ([], Inl (mk_error kSipTransactionFailed ''No response available for retransmission'' []))
      | Some r \<Rightarrow>
          (case clone L r of
             Inl e \<Rightarrow> ([], Inl e)
           | Inr c \<Rightarrow> ([Send c (s_source t)], tr c (s_source t))))"

definition acknowledgeAck :: "server_txn \<Rightarrow> server_txn \<times> string option" where
  "acknowledgeAck t =
     (if message_method (s_request t) \<noteq> ''INVITE'' then (t, None)
      else if s_state t \<noteq> kCompleted then (t, None)
      else markTerminatedLocked (t\<lparr>s_timer_h := None, s_state := kTerminated\<rparr>))"

definition server_shutdown :: "server_txn \<Rightarrow> server_txn" where
  "server_shutdown t =
     t\<lparr>s_state := kTerminated, s_notified := True, s_on_terminated := None,
       s_timer_j := None, s_timer_h := None\<rparr>"

text \<open>The handlers of Timer H and Timer J.\<close>

definition due :: "time_point option \<Rightarrow> time_point \<Rightarrow> bool" where
  "due timer now \<longleftrightarrow> (case timer of None \<Rightarrow> False | Some t \<Rightarrow> t \<le> now)"

definition timerH :: "time_point \<Rightarrow> server_txn \<Rightarrow> server_txn \<times> string option" where
  "timerH now t =
     (if due (s_timer_h t) now
      then markTerminatedLocked (t\<lparr>s_timer_h := None, s_state := kTerminated\<rparr>) else (t, None))"

definition timerJ :: "time_point \<Rightarrow> server_txn \<Rightarrow> server_txn \<times> string option" where
  "timerJ now t =
     (if due (s_timer_j t) now
      then markTerminatedLocked (t\<lparr>s_timer_j := None, s_state := kTerminated\<rparr>) else (t, None))"

subsection \<open>Client transactions\<close>

text \<open>\<open>c_on_response\<close> holds the key and the application's callback (which may be empty) that the
  layer's closure captured, \<open>c_on_timeout\<close> the key.\<close>

record client_txn =
  c_request :: osip_message
  c_dest :: Endpoint
  c_state :: TransactionState
  c_branch :: string
  c_on_response :: "(string \<times> nat option) option"
  c_on_timeout :: "string option"
  c_timer_a :: "time_point option"
  c_timer_b :: "time_point option"
  c_retransmit_count :: nat

definition ClientTransaction :: "osip_lib \<Rightarrow> osip_message \<Rightarrow> Endpoint \<Rightarrow> client_txn" where
  "ClientTransaction L req dest =
     \<lparr>c_request = req, c_dest = dest, c_state = kTrying, c_branch = viaBranch L req,
      c_on_response = None, c_on_timeout = None, c_timer_a = None, c_timer_b = None,
      c_retransmit_count = 0\<rparr>"

definition is_final :: "TransactionState \<Rightarrow> bool" where
  "is_final s \<longleftrightarrow> s = kCompleted \<or> s = kTerminated"

definition client_start ::
  "transport \<Rightarrow> time_point \<Rightarrow> client_txn \<Rightarrow> client_txn \<times> event list \<times> unit result" where
  "client_start tr now c =
     (case tr (c_request c) (c_dest c) of
        Inl e \<Rightarrow> (c\<lparr>c_state := kTerminated, c_timer_a := None, c_timer_b := None\<rparr>,
                  [Send (c_request c) (c_dest c)], Inl e)
      | Inr _ \<Rightarrow>
          (let transport = lowercase (ep_transport (c_dest c));
               c1 = (if c_state c = kTrying then c\<lparr>c_retransmit_count := 0\<rparr> else c);
               c2 = (if (transport = ''udp'' \<or> transport = []) \<and> c_state c1 = kTrying
                     then c1\<lparr>c_timer_a := Some (now + kTimerT1)\<rparr> else c1);
               c3 = (if \<not> is_final (c_state c2) then c2\<lparr>c_timer_b := Some (now + kTimerB)\<rparr> else c2)
           in (c3, [Send (c_request c) (c_dest c)], Inr ())))"

definition client_matches :: "osip_lib \<Rightarrow> osip_message \<Rightarrow> client_txn \<Rightarrow> bool" where
  "client_matches L response c \<longleftrightarrow>
     viaBranch L response = c_branch c \<and> cseqMethod response = cseqMethod (c_request c)"

definition processResponse ::
  "osip_message \<Rightarrow> client_txn \<Rightarrow> client_txn \<times> (string \<times> nat option) option" where
  "processResponse response c =
     (let code = statusCode response;
          is_invite = (cseqMethod (c_request c) = ''INVITE'');
          c1 = (if 100 \<le> code \<and> code < 200 then c\<lparr>c_state := kProceeding, c_timer_a := None\<rparr>
                else if 200 \<le> code then
                  c\<lparr>c_state := (if \<not> is_invite \<or> 300 \<le> code then kTerminated else kCompleted),
                    c_timer_a := None, c_timer_b := None\<rparr>
                else c)
      in (c1, c_on_response c))"

text \<open>\<^verbatim>\<open>kTimerT1 * (1 << n)\<close>: the shift is on a 32-bit \<^verbatim>\<open>int\<close>, and undefined from
  32 on.\<close>

definition retransmit_interval :: "nat \<Rightarrow> int option" where
  "retransmit_interval n =
     (if n < 32 then
        (let interval = kTimerT1 * sint (push_bit n (1 :: 32 word)) in
         Some (if kTimerT2 < interval then kTimerT2 else interval))
      else None)"

definition retransmit :: "time_point \<Rightarrow> client_txn \<Rightarrow> (client_txn \<times> event list) option" where
  "retransmit now c =
     (if is_final (c_state c) then Some (c, [])
      else
        (let c1 = c\<lparr>c_retransmit_count := Suc (c_retransmit_count c)\<rparr> in
         case retransmit_interval (c_retransmit_count c1) of
           None \<Rightarrow> None
         | Some interval \<Rightarrow>
             Some ((if is_final (c_state c1) then c1 else c1\<lparr>c_timer_a := Some (now + interval)\<rparr>),
                   [Send (c_request c) (c_dest c)])))"

definition timerA :: "time_point \<Rightarrow> client_txn \<Rightarrow> (client_txn \<times> event list) option" where
  "timerA now c =
     (if due (c_timer_a c) now then retransmit now (c\<lparr>c_timer_a := None\<rparr>) else Some (c, []))"

definition timerB :: "time_point \<Rightarrow> client_txn \<Rightarrow> client_txn \<times> string option" where
  "timerB now c =
     (if due (c_timer_b c) now then
        (if is_final (c_state c) then (c\<lparr>c_timer_b := None\<rparr>, None)
         else (c\<lparr>c_state := kTerminated, c_timer_a := None, c_timer_b := None\<rparr>, c_on_timeout c))
      else (c, None))"

definition client_shutdown :: "client_txn \<Rightarrow> client_txn" where
  "client_shutdown c =
     c\<lparr>c_state := kTerminated, c_on_response := None, c_on_timeout := None,
       c_timer_a := None, c_timer_b := None\<rparr>"

subsection \<open>The layer\<close>

record layer =
  shutting_down :: bool
  request_handler :: bool
  server_heap :: "server_txn list"
  client_heap :: "client_txn list"
  server_txns :: "(string, nat) umap"
  client_txns :: "(string, nat) umap"

definition TransactionLayer :: layer where
  "TransactionLayer =
     \<lparr>shutting_down = False, request_handler = False, server_heap = [], client_heap = [],
      server_txns = [], client_txns = []\<rparr>"

definition setRequestHandler :: "layer \<Rightarrow> layer" where
  "setRequestHandler ly = ly\<lparr>request_handler := True\<rparr>"

definition put_server :: "nat \<Rightarrow> server_txn \<Rightarrow> layer \<Rightarrow> layer" where
  "put_server i t ly = ly\<lparr>server_heap := (server_heap ly)[i := t]\<rparr>"

definition put_client :: "nat \<Rightarrow> client_txn \<Rightarrow> layer \<Rightarrow> layer" where
  "put_client i c ly = ly\<lparr>client_heap := (client_heap ly)[i := c]\<rparr>"

text \<open>The three closures the layer installs.\<close>

definition run_on_terminated :: "nat \<Rightarrow> string option \<Rightarrow> layer \<Rightarrow> layer" where
  "run_on_terminated i cb ly =
     (case cb of
        None \<Rightarrow> ly
      | Some key \<Rightarrow>
          if shutting_down ly then ly
          else if um_find (server_txns ly) key = Some i
               then ly\<lparr>server_txns := um_erase key (server_txns ly)\<rparr> else ly)"

definition run_on_timeout :: "string option \<Rightarrow> layer \<Rightarrow> layer" where
  "run_on_timeout cb ly =
     (case cb of
        None \<Rightarrow> ly
      | Some key \<Rightarrow>
          if shutting_down ly then ly else ly\<lparr>client_txns := um_erase key (client_txns ly)\<rparr>)"

definition run_on_response ::
  "nat \<Rightarrow> (string \<times> nat option) option \<Rightarrow> osip_message \<Rightarrow> layer \<Rightarrow> layer \<times> event list" where
  "run_on_response i cb response ly =
     (case cb of
        None \<Rightarrow> (ly, [])
      | Some (key, f) \<Rightarrow>
          if shutting_down ly then (ly, [])
          else ((if 200 \<le> statusCode response
                 then ly\<lparr>client_txns := um_erase key (client_txns ly)\<rparr> else ly),
                (case f of None \<Rightarrow> [] | Some g \<Rightarrow> [Deliver i g response])))"

text \<open>\<^verbatim>\<open>sendRequest\<close>: the part under the lock, and the whole.\<close>

definition insertClient :: "string \<Rightarrow> client_txn \<Rightarrow> layer \<Rightarrow> (layer \<times> nat) result" where
  "insertClient key c ly =
     (if shutting_down ly then
        Inl (mk_error kSipTransactionFailed ''Transaction layer is shutting down'' [])
      else if um_find (client_txns ly) key \<noteq> None then
        Inl (mk_error kSipTransactionFailed (''Duplicate client transaction key '' @ key) [])
      else Inr (ly\<lparr>client_heap := client_heap ly @ [c],
                   client_txns := um_emplace key (length (client_heap ly)) (client_txns ly)\<rparr>,
                length (client_heap ly)))"

definition sendRequest ::
  "osip_lib \<Rightarrow> transport \<Rightarrow> time_point \<Rightarrow> osip_message \<Rightarrow> Endpoint \<Rightarrow> nat option \<Rightarrow> layer \<Rightarrow>
     layer \<times> event list \<times> string result" where
  "sendRequest L tr now request dest on_response ly =
     (if shutting_down ly then
        (ly, [], Inl (mk_error kSipTransactionFailed ''Transaction layer is shutting down'' []))
      else if viaBranch L request = [] then
        (ly, [], Inl (mk_error kSipTransactionFailed ''Request has no Via branch'' []))
      else
        (let key = viaBranch L request @ '':'' @ cseqMethod request;
             txn = (ClientTransaction L request dest)
                     \<lparr>c_on_response := Some (key, on_response), c_on_timeout := Some key\<rparr>
         in case insertClient key txn ly of
              Inl e \<Rightarrow> (ly, [], Inl e)
            | Inr (ly1, i) \<Rightarrow>
                (let (c, ev, start_result) = client_start tr now txn;
                     ly2 = put_client i c ly1
                 in case start_result of
                      Inl e \<Rightarrow> (ly2\<lparr>client_txns := um_erase key (client_txns ly2)\<rparr>, ev, Inl e)
                    | Inr _ \<Rightarrow> (ly2, ev, Inr key))))"

definition response_transaction_keys :: "osip_lib \<Rightarrow> osip_message \<Rightarrow> string list" where
  "response_transaction_keys L response =
     (let meth = cseqMethod response in
      if meth = [] then []
      else concat (map (\<lambda>via. case param_gvalue L (via_params via) ''branch'' of
                                None \<Rightarrow> [] | Some b \<Rightarrow> [b @ '':'' @ meth]) (m_vias response)))"

definition findClientTransaction :: "osip_lib \<Rightarrow> osip_message \<Rightarrow> layer \<Rightarrow> nat option" where
  "findClientTransaction L response ly =
     (case List.find (\<lambda>key. um_find (client_txns ly) key \<noteq> None) (response_transaction_keys L response) of
        None \<Rightarrow> None
      | Some key \<Rightarrow> um_find (client_txns ly) key)"

definition getTransactionKey :: "osip_lib \<Rightarrow> osip_message \<Rightarrow> string" where
  "getTransactionKey L msg =
     viaBranch L msg @ '':'' @ (if isRequest msg then message_method msg else cseqMethod msg)"

definition layer_acknowledge :: "nat \<Rightarrow> layer \<Rightarrow> layer" where
  "layer_acknowledge i ly =
     (let (t, cb) = acknowledgeAck (server_heap ly ! i)
      in run_on_terminated i cb (put_server i t ly))"

definition resend :: "osip_lib \<Rightarrow> transport \<Rightarrow> nat \<Rightarrow> layer \<Rightarrow> event list" where
  "resend L tr i ly = fst (retransmitLastResponse L tr (server_heap ly ! i))"

text \<open>The creation of a server transaction: a request that lost the race for its key is a
  retransmission.\<close>

definition insertServer ::
  "osip_lib \<Rightarrow> transport \<Rightarrow> string \<Rightarrow> osip_message \<Rightarrow> Endpoint \<Rightarrow> layer \<Rightarrow> layer \<times> event list" where
  "insertServer L tr key msg source ly =
     (if shutting_down ly then (ly, [])
      else
        (let txn = (ServerTransaction L msg source)\<lparr>s_on_terminated := Some key\<rparr>;
             i = length (server_heap ly)
         in case um_find (server_txns ly) key of
              Some existing \<Rightarrow> (ly, resend L tr existing ly)
            | None \<Rightarrow>
                (ly\<lparr>server_heap := server_heap ly @ [txn],
                    server_txns := um_emplace key i (server_txns ly)\<rparr>,
                 if request_handler ly then [Invoke_handler i] else [])))"

definition processRequest ::
  "osip_lib \<Rightarrow> transport \<Rightarrow> osip_message \<Rightarrow> Endpoint \<Rightarrow> layer \<Rightarrow> layer \<times> event list" where
  "processRequest L tr msg source ly =
     (let key = getTransactionKey L msg in
      case um_find (server_txns ly) key of
        Some existing \<Rightarrow> (ly, resend L tr existing ly)
      | None \<Rightarrow> insertServer L tr key msg source ly)"

definition processMessage ::
  "osip_lib \<Rightarrow> transport \<Rightarrow> osip_message \<Rightarrow> Endpoint \<Rightarrow> layer \<Rightarrow> layer \<times> event list" where
  "processMessage L tr msg source ly =
     (if shutting_down ly then (ly, [])
      else if isResponse msg then
        (case findClientTransaction L msg ly of
           None \<Rightarrow> (ly, [])
         | Some i \<Rightarrow>
             (let (c, on_response) = processResponse msg (client_heap ly ! i)
              in run_on_response i on_response msg (put_client i c ly)))
      else if message_method msg = ''ACK'' then
        (case um_find (server_txns ly) (viaBranch L msg @ '':INVITE'') of
           Some i \<Rightarrow> (layer_acknowledge i ly, [])
         | None \<Rightarrow> processRequest L tr msg source ly)
      else processRequest L tr msg source ly)"

text \<open>A response the application sends on a transaction, and the timers of both kinds.\<close>

definition layer_respond ::
  "osip_lib \<Rightarrow> transport \<Rightarrow> time_point \<Rightarrow> nat \<Rightarrow> osip_message \<Rightarrow> layer \<Rightarrow>
     layer \<times> event list \<times> unit result" where
  "layer_respond L tr now i response ly =
     (let (t, cb, ev, r) = sendResponse L tr now response (server_heap ly ! i)
      in (run_on_terminated i cb (put_server i t ly), ev, r))"

definition layer_server_timer ::
  "(server_txn \<Rightarrow> server_txn \<times> string option) \<Rightarrow> nat \<Rightarrow> layer \<Rightarrow> layer" where
  "layer_server_timer timer i ly =
     (let (t, cb) = timer (server_heap ly ! i) in run_on_terminated i cb (put_server i t ly))"

definition layer_timer_a :: "time_point \<Rightarrow> nat \<Rightarrow> layer \<Rightarrow> (layer \<times> event list) option" where
  "layer_timer_a now i ly =
     (case timerA now (client_heap ly ! i) of
        None \<Rightarrow> None | Some (c, ev) \<Rightarrow> Some (put_client i c ly, ev))"

definition layer_timer_b :: "time_point \<Rightarrow> nat \<Rightarrow> layer \<Rightarrow> layer" where
  "layer_timer_b now i ly =
     (let (c, cb) = timerB now (client_heap ly ! i) in run_on_timeout cb (put_client i c ly))"

definition shutdown_ids :: "('a \<Rightarrow> 'a) \<Rightarrow> nat list \<Rightarrow> 'a list \<Rightarrow> 'a list" where
  "shutdown_ids f ids heap = fold (\<lambda>i h. h[i := f (h ! i)]) ids heap"

definition layer_shutdown :: "layer \<Rightarrow> layer" where
  "layer_shutdown ly =
     ly\<lparr>shutting_down := True, request_handler := False, server_txns := [], client_txns := [],
        client_heap := shutdown_ids client_shutdown (map snd (client_txns ly)) (client_heap ly),
        server_heap := shutdown_ids server_shutdown (map snd (server_txns ly)) (server_heap ly)\<rparr>"

text \<open>One step of the layer, whoever takes it: the application, the network or a timer.\<close>

inductive layer_step :: "osip_lib \<Rightarrow> layer \<Rightarrow> event list \<Rightarrow> layer \<Rightarrow> bool" for L where
  handler: "layer_step L ly [] (setRequestHandler ly)"
| request: "sendRequest L tr now req dest f ly = (ly', ev, r) \<Longrightarrow> layer_step L ly ev ly'"
| message: "processMessage L tr msg src ly = (ly', ev) \<Longrightarrow> layer_step L ly ev ly'"
| respond: "i < length (server_heap ly) \<Longrightarrow> layer_respond L tr now i resp ly = (ly', ev, r) \<Longrightarrow>
    layer_step L ly ev ly'"
| timer_h: "i < length (server_heap ly) \<Longrightarrow> layer_step L ly [] (layer_server_timer (timerH now) i ly)"
| timer_j: "i < length (server_heap ly) \<Longrightarrow> layer_step L ly [] (layer_server_timer (timerJ now) i ly)"
| timer_a: "i < length (client_heap ly) \<Longrightarrow> layer_timer_a now i ly = Some (ly', ev) \<Longrightarrow>
    layer_step L ly ev ly'"
| timer_b: "i < length (client_heap ly) \<Longrightarrow> layer_step L ly [] (layer_timer_b now i ly)"
| shutdown: "layer_step L ly [] (layer_shutdown ly)"

inductive_cases layer_stepE: "layer_step L ly ev ly'"

inductive layer_trace :: "osip_lib \<Rightarrow> event list \<Rightarrow> layer \<Rightarrow> bool" for L where
  start: "layer_trace L [] TransactionLayer"
| step: "layer_trace L evs ly \<Longrightarrow> layer_step L ly ev ly' \<Longrightarrow> layer_trace L (evs @ ev) ly'"

subsection \<open>The invariant of the layer\<close>

text \<open>A table entry points to a live object that carries the key: a server transaction whose
  termination was not notified and, once it is completed, has a timer running; a client
  transaction that waits for a final response under a running Timer B.\<close>

definition server_entry_ok :: "string \<Rightarrow> server_txn \<Rightarrow> bool" where
  "server_entry_ok key t \<longleftrightarrow>
     \<not> s_notified t \<and> s_on_terminated t = Some key \<and> s_state t \<noteq> kTerminated \<and>
     (s_state t = kCompleted \<longrightarrow> s_timer_h t \<noteq> None \<or> s_timer_j t \<noteq> None)"

definition client_entry_ok :: "string \<Rightarrow> client_txn \<Rightarrow> bool" where
  "client_entry_ok key c \<longleftrightarrow>
     (c_state c = kTrying \<or> c_state c = kProceeding) \<and> c_timer_b c \<noteq> None \<and>
     c_on_timeout c = Some key \<and> (\<exists>f. c_on_response c = Some (key, f))"

definition table_ok :: "(string \<Rightarrow> 'a \<Rightarrow> bool) \<Rightarrow> 'a list \<Rightarrow> (string, nat) umap \<Rightarrow> bool" where
  "table_ok P heap table \<longleftrightarrow> um_wf table \<and>
     (\<forall>key i. um_find table key = Some i \<longrightarrow> i < length heap \<and> P key (heap ! i))"

definition layer_ok :: "layer \<Rightarrow> bool" where
  "layer_ok ly \<longleftrightarrow>
     table_ok server_entry_ok (server_heap ly) (server_txns ly) \<and>
     table_ok client_entry_ok (client_heap ly) (client_txns ly) \<and>
     (shutting_down ly \<longrightarrow> server_txns ly = [] \<and> client_txns ly = [])"

lemma table_okD:
  "table_ok P heap table \<Longrightarrow> um_find table key = Some i \<Longrightarrow> i < length heap"
  "table_ok P heap table \<Longrightarrow> um_find table key = Some i \<Longrightarrow> P key (heap ! i)"
  by (auto simp: table_ok_def)

lemma table_okI:
  assumes "um_wf table" "\<And>key i. um_find table key = Some i \<Longrightarrow> i < length heap \<and> P key (heap ! i)"
  shows "table_ok P heap table"
  using assms by (simp add: table_ok_def)

lemma table_ok_wf: "table_ok P heap table \<Longrightarrow> um_wf table"
  by (simp add: table_ok_def)

lemma table_ok_Nil [simp]: "table_ok P heap []"
  by (simp add: table_ok_def)

lemma table_ok_update:
  assumes "table_ok P heap table" "\<And>key. um_find table key = Some i \<Longrightarrow> P key x"
  shows "table_ok P (heap[i := x]) table"
proof (rule table_okI [OF table_ok_wf [OF assms(1)]])
  fix key j
  assume "um_find table key = Some j"
  then show "j < length (heap[i := x]) \<and> P key (heap[i := x] ! j)"
    using table_okD [OF assms(1)] assms(2) by (cases "j = i") simp_all
qed

lemma table_ok_erase: "table_ok P heap table \<Longrightarrow> table_ok P heap (um_erase key table)"
  by (simp add: table_ok_def um_wfs um_lookup)

lemma table_ok_update_erase:
  assumes "table_ok P heap table" "\<And>k. um_find table k = Some i \<Longrightarrow> k = key"
  shows "table_ok P (heap[i := x]) (um_erase key table)"
  by (rule table_ok_update [OF table_ok_erase [OF assms(1)]])
    (use assms(2) in \<open>auto simp: um_lookup split: if_splits\<close>)

lemma table_ok_new:
  assumes "table_ok P heap table" "um_find table key = None" "P key x"
  shows "table_ok P (heap @ [x]) (um_emplace key (length heap) table)"
proof (rule table_okI)
  show "um_wf (um_emplace key (length heap) table)" using assms(1) by (simp add: table_ok_wf um_wfs)
  fix k j
  assume "um_find (um_emplace key (length heap) table) k = Some j"
  then show "j < length (heap @ [x]) \<and> P k ((heap @ [x]) ! j)"
    using table_okD [OF assms(1), of k j] assms(2,3)
    by (cases "k = key") (auto simp: um_lookup nth_append)
qed

lemma put_sel [simp]:
  "server_txns (put_server i t ly) = server_txns ly" "client_txns (put_server i t ly) = client_txns ly"
  "client_heap (put_server i t ly) = client_heap ly" "shutting_down (put_server i t ly) = shutting_down ly"
  "server_heap (put_server i t ly) = (server_heap ly)[i := t]"
  "server_txns (put_client i c ly) = server_txns ly" "client_txns (put_client i c ly) = client_txns ly"
  "server_heap (put_client i c ly) = server_heap ly" "shutting_down (put_client i c ly) = shutting_down ly"
  "client_heap (put_client i c ly) = (client_heap ly)[i := c]"
  by (simp_all add: put_server_def put_client_def)

text \<open>What an operation on a server transaction must do to keep the invariant: leave an entry in
  good order, or hand out the callback that removes it.\<close>

definition server_op_ok :: "server_txn \<Rightarrow> server_txn \<times> string option \<Rightarrow> bool" where
  "server_op_ok t r \<longleftrightarrow>
     (\<forall>key. server_entry_ok key t \<longrightarrow>
        (case snd r of None \<Rightarrow> server_entry_ok key (fst r) | Some k \<Rightarrow> k = key))"

lemma server_op_ok_mark:
  "s_notified t' = s_notified t \<Longrightarrow> s_on_terminated t' = s_on_terminated t \<Longrightarrow>
   server_op_ok t (markTerminatedLocked t')"
  by (auto simp: server_op_ok_def markTerminatedLocked_def server_entry_ok_def)

lemma server_op_ok_same: "server_op_ok t (t, None)"
  by (simp add: server_op_ok_def)

lemma server_op_ok_response_sent:
  "server_op_ok t (response_sent now code (t\<lparr>s_last_response := r\<rparr>))"
  unfolding response_sent_def
  by (auto intro: server_op_ok_mark)
    (auto simp: server_op_ok_def server_entry_ok_def startTimers_def)

lemma server_op_ok_ops:
  "server_op_ok t (acknowledgeAck t)" "server_op_ok t (timerH now t)" "server_op_ok t (timerJ now t)"
  by (simp_all add: acknowledgeAck_def timerH_def timerJ_def server_op_ok_mark server_op_ok_same)

lemma run_on_terminated_ok:
  assumes "layer_ok ly" "server_op_ok (server_heap ly ! i) (t, cb)"
  shows "layer_ok (run_on_terminated i cb (put_server i t ly))"
proof (cases cb)
  case None
  then show ?thesis using assms
    by (auto simp: run_on_terminated_def layer_ok_def server_op_ok_def
        intro!: table_ok_update dest: table_okD)
next
  case (Some k)
  have key: "key = k" if "um_find (server_txns ly) key = Some i" for key
    using that assms Some by (auto simp: layer_ok_def server_op_ok_def dest: table_okD)
  show ?thesis
  proof (cases "shutting_down ly \<or> um_find (server_txns ly) k \<noteq> Some i")
    case True
    then have "um_find (server_txns ly) key \<noteq> Some i" for key
      using key [of key] assms(1) by (auto simp: layer_ok_def)
    with True Some assms(1) show ?thesis
      by (auto simp: run_on_terminated_def layer_ok_def intro!: table_ok_update)
  next
    case False
    with Some assms(1) key show ?thesis
      by (auto simp: run_on_terminated_def layer_ok_def intro!: table_ok_update_erase)
  qed
qed

lemma layer_server_ops_ok:
  assumes "layer_ok ly"
  shows "layer_ok (layer_acknowledge i ly)"
    "layer_ok (layer_server_timer (timerH now) i ly)" "layer_ok (layer_server_timer (timerJ now) i ly)"
    "layer_ok (fst (layer_respond L tr now i resp ly))"
proof -
  have ok: "layer_ok (run_on_terminated i (snd r) (put_server i (fst r) ly))"
    if "server_op_ok (server_heap ly ! i) r" for r
    using run_on_terminated_ok [OF assms, of i "fst r" "snd r"] that by simp
  from ok [OF server_op_ok_ops(1)] ok [OF server_op_ok_ops(2)] ok [OF server_op_ok_ops(3)]
  show "layer_ok (layer_acknowledge i ly)"
    "layer_ok (layer_server_timer (timerH now) i ly)" "layer_ok (layer_server_timer (timerJ now) i ly)"
    by (simp_all add: layer_acknowledge_def layer_server_timer_def case_prod_beta)
  show "layer_ok (fst (layer_respond L tr now i resp ly))"
    using ok [OF server_op_ok_response_sent] run_on_terminated_ok [OF assms server_op_ok_same]
    by (auto simp: layer_respond_def sendResponse_def case_prod_beta split: sum.split)
qed

lemma layer_ok_simps [simp]:
  "layer_ok TransactionLayer" "layer_ok (setRequestHandler ly) = layer_ok ly"
  "layer_ok (layer_shutdown ly)"
  by (simp_all add: layer_ok_def TransactionLayer_def setRequestHandler_def layer_shutdown_def)

lemma insertServer_ok: "layer_ok ly \<Longrightarrow> layer_ok (fst (insertServer L tr key msg src ly))"
  by (auto simp: insertServer_def layer_ok_def server_entry_ok_def ServerTransaction_def Let_def
      intro!: table_ok_new split: option.split)

lemma processResponse_ok:
  assumes "client_entry_ok key c" "statusCode resp < 200"
  shows "client_entry_ok key (fst (processResponse resp c))"
  using assms by (auto simp: client_entry_ok_def processResponse_def Let_def)

lemma findClientTransaction_in:
  "findClientTransaction L resp ly = Some i \<Longrightarrow> \<exists>key. um_find (client_txns ly) key = Some i"
  by (auto simp: findClientTransaction_def split: option.splits)

lemma client_of_table:
  assumes "layer_ok ly" "um_find (client_txns ly) key = Some i"
  obtains f where "i < length (client_heap ly)" "client_entry_ok key (client_heap ly ! i)"
    "c_on_response (client_heap ly ! i) = Some (key, f)"
  using assms table_okD [of client_entry_ok "client_heap ly" "client_txns ly" key i]
  by (auto simp: layer_ok_def client_entry_ok_def)

lemma client_key_unique:
  assumes "layer_ok ly" "um_find (client_txns ly) k = Some i" "um_find (client_txns ly) k' = Some i"
  shows "k = k'"
  using client_of_table [OF assms(1,2)] client_of_table [OF assms(1,3)] by (metis option.inject prod.inject)

lemma run_on_response_ok:
  assumes ok: "layer_ok ly" and k: "um_find (client_txns ly) key = Some i"
    and r: "processResponse msg (client_heap ly ! i) = (c, cb)"
  shows "layer_ok (fst (run_on_response i cb msg (put_client i c ly)))"
proof -
  obtain f where i: "i < length (client_heap ly)" and e: "client_entry_ok key (client_heap ly ! i)"
    and f: "c_on_response (client_heap ly ! i) = Some (key, f)"
    by (rule client_of_table [OF ok k])
  from r f have cb: "cb = Some (key, f)" by (simp add: processResponse_def Let_def)
  have uniq: "k' = key" if "um_find (client_txns ly) k' = Some i" for k'
    using client_key_unique [OF ok that k] .
  have "\<not> shutting_down ly" using ok k by (auto simp: layer_ok_def)
  moreover have "client_entry_ok key c" if "statusCode msg < 200"
    using processResponse_ok [OF e that] r by simp
  ultimately show ?thesis using ok cb uniq
    by (auto simp: run_on_response_def layer_ok_def not_le
        intro!: table_ok_update table_ok_update_erase)
qed

lemma processMessage_ok: "layer_ok ly \<Longrightarrow> layer_ok (fst (processMessage L tr msg src ly))"
  by (auto simp: processMessage_def processRequest_def insertServer_ok layer_server_ops_ok Let_def
      run_on_response_ok dest!: findClientTransaction_in split: option.split prod.split)

lemma client_start_ok:
  assumes "c_state c = kTrying" "c_on_timeout c = Some key" "c_on_response c = Some (key, f)"
    and "client_start tr now c = (c', ev, Inr u)"
  shows "client_entry_ok key c'"
  using assms by (auto simp: client_start_def client_entry_ok_def is_final_def Let_def split: sum.splits)

lemma sendRequest_ok:
  assumes ok: "layer_ok ly"
  shows "layer_ok (fst (sendRequest L tr now req dest f ly))"
proof -
  let ?key = "viaBranch L req @ '':'' @ cseqMethod req"
  let ?c = "(ClientTransaction L req dest)\<lparr>c_on_response := Some (?key, f), c_on_timeout := Some ?key\<rparr>"
  let ?n = "length (client_heap ly)"
  obtain c ev r where start: "client_start tr now ?c = (c, ev, r)" by (metis prod_cases3)
  show ?thesis
  proof (cases "shutting_down ly \<or> viaBranch L req = [] \<or> um_find (client_txns ly) ?key \<noteq> None")
    case True
    then show ?thesis using ok by (auto simp: sendRequest_def insertClient_def Let_def)
  next
    case False
    let ?ly = "ly\<lparr>client_heap := client_heap ly @ [c],
      client_txns := um_emplace ?key ?n (client_txns ly)\<rparr>"
    have tab: "table_ok client_entry_ok (client_heap ly) (client_txns ly)"
      using ok by (simp add: layer_ok_def)
    have none: "um_find (client_txns ly) ?key = None" using False by simp
    show ?thesis
    proof (cases r)
      case (Inl e)
      have "table_ok client_entry_ok (client_heap ly @ [c])
          (um_erase ?key (um_emplace ?key ?n (client_txns ly)))"
      proof (rule table_okI)
        fix k j
        assume "um_find (um_erase ?key (um_emplace ?key ?n (client_txns ly))) k = Some j"
        then have "um_find (client_txns ly) k = Some j" by (simp add: um_lookup split: if_splits)
        from table_okD [OF tab this]
        show "j < length (client_heap ly @ [c]) \<and> client_entry_ok k ((client_heap ly @ [c]) ! j)"
          by (simp add: nth_append)
      qed (simp add: um_wfs table_ok_wf [OF tab])
      then show ?thesis using False start Inl ok
        by (simp add: sendRequest_def insertClient_def put_client_def layer_ok_def Let_def)
    next
      case (Inr u)
      have "client_entry_ok ?key c"
        by (rule client_start_ok [OF _ _ _ start [unfolded Inr]]) (simp_all add: ClientTransaction_def)
      then show ?thesis using False start Inr ok table_ok_new [OF tab none]
        by (simp add: sendRequest_def insertClient_def put_client_def layer_ok_def Let_def)
    qed
  qed
qed

lemma timerA_ok:
  "client_entry_ok key c \<Longrightarrow> timerA now c = Some (c', ev) \<Longrightarrow> client_entry_ok key c'"
  by (auto simp: client_entry_ok_def timerA_def retransmit_def is_final_def Let_def split: if_splits option.splits)

lemma layer_timer_a_ok:
  assumes ok: "layer_ok ly" and "layer_timer_a now i ly = Some (ly', ev)"
  shows "layer_ok ly'"
proof -
  obtain c where c: "timerA now (client_heap ly ! i) = Some (c, ev)" and ly': "ly' = put_client i c ly"
    using assms(2) by (auto simp: layer_timer_a_def split: option.splits)
  have "client_entry_ok key c" if "um_find (client_txns ly) key = Some i" for key
    using client_of_table [OF ok that] timerA_ok [OF _ c] by metis
  with ok ly' show ?thesis by (auto simp: layer_ok_def intro!: table_ok_update)
qed

lemma layer_timer_b_ok:
  assumes ok: "layer_ok ly"
  shows "layer_ok (layer_timer_b now i ly)"
proof (cases "\<exists>key. um_find (client_txns ly) key = Some i")
  case True
  then obtain key where k: "um_find (client_txns ly) key = Some i" ..
  obtain f where e: "client_entry_ok key (client_heap ly ! i)" by (rule client_of_table [OF ok k])
  have uniq: "k' = key" if "um_find (client_txns ly) k' = Some i" for k'
    using client_key_unique [OF ok that k] .
  have "\<not> shutting_down ly" using ok k by (auto simp: layer_ok_def)
  then show ?thesis using ok e uniq
    by (auto simp: layer_timer_b_def timerB_def run_on_timeout_def layer_ok_def client_entry_ok_def is_final_def
        intro!: table_ok_update table_ok_update_erase)
next
  case False
  then have "table_ok client_entry_ok ((client_heap ly)[i := c]) (client_txns ly)" for c
    using ok by (auto simp: layer_ok_def intro!: table_ok_update)
  then show ?thesis using ok
    by (auto simp: layer_timer_b_def run_on_timeout_def layer_ok_def case_prod_beta
        intro: table_ok_erase split: option.split)
qed

lemmas layer_ops_ok =
  layer_server_ops_ok processMessage_ok sendRequest_ok layer_timer_a_ok layer_timer_b_ok

lemma layer_step_ok: "layer_step L ly ev ly' \<Longrightarrow> layer_ok ly \<Longrightarrow> layer_ok ly'"
proof (induction rule: layer_step.induct)
  case (request tr now req dest f ly ly' ev r)
  then show ?case using sendRequest_ok [of ly L tr now req dest f] by simp
next
  case (message tr msg src ly ly' ev)
  then show ?case using processMessage_ok [of ly L tr msg src] by simp
next
  case (respond i ly tr now resp ly' ev r)
  then show ?case using layer_server_ops_ok(4) [of ly L tr now i resp] by simp
qed (simp_all add: layer_ops_ok)

lemma layer_trace_ok: "layer_trace L evs ly \<Longrightarrow> layer_ok ly"
  by (induction rule: layer_trace.induct) (auto intro: layer_step_ok)

subsection \<open>What the application is told\<close>

fun delivered :: "nat \<Rightarrow> event \<Rightarrow> osip_message list" where
  "delivered i (Deliver j g m) = (if j = i then [m] else [])"
| "delivered i _ = []"

definition deliveries :: "nat \<Rightarrow> event list \<Rightarrow> osip_message list" where
  "deliveries i evs = concat (map (delivered i) evs)"

lemma deliveries_simps [simp]:
  "deliveries i [] = []" "deliveries i (e # evs) = delivered i e @ deliveries i evs"
  "deliveries i (evs @ evs') = deliveries i evs @ deliveries i evs'"
  by (simp_all add: deliveries_def)

definition waiting :: "nat \<Rightarrow> layer \<Rightarrow> bool" where
  "waiting i ly \<longleftrightarrow> (\<exists>key. um_find (client_txns ly) key = Some i)"

text \<open>How a step may change the set of waiting transactions, and whom it may tell what.\<close>

definition orderly :: "layer \<Rightarrow> event list \<Rightarrow> layer \<Rightarrow> bool" where
  "orderly ly ev ly' \<longleftrightarrow>
     length (client_heap ly) \<le> length (client_heap ly') \<and>
     (\<forall>i. waiting i ly' \<longrightarrow> waiting i ly \<or> i = length (client_heap ly)) \<and>
     (\<forall>i. deliveries i ev = [] \<or>
          waiting i ly \<and> (\<exists>m. deliveries i ev = [m] \<and> (statusCode m < 200 \<or> \<not> waiting i ly')))"

lemma orderly_silent:
  assumes "client_txns ly' = client_txns ly" "length (client_heap ly') = length (client_heap ly)"
    and "\<And>i. deliveries i ev = []"
  shows "orderly ly ev ly'"
  using assms by (simp add: orderly_def waiting_def)

lemma orderly_erase:
  assumes "client_txns ly' = um_erase key (client_txns ly)"
    and "length (client_heap ly) \<le> length (client_heap ly')" "\<And>i. deliveries i ev = []"
  shows "orderly ly ev ly'"
  using assms by (auto simp: orderly_def waiting_def um_lookup split: if_splits)

lemma run_on_terminated_client [simp]:
  "client_txns (run_on_terminated i cb ly) = client_txns ly"
  "client_heap (run_on_terminated i cb ly) = client_heap ly"
  "shutting_down (run_on_terminated i cb ly) = shutting_down ly"
  by (auto simp: run_on_terminated_def split: option.split)

lemma resend_silent [simp]: "deliveries i (resend L tr j ly) = []"
  by (auto simp: resend_def retransmitLastResponse_def split: option.split sum.split)

lemma client_start_silent: "client_start tr now c = (c', ev, r) \<Longrightarrow> deliveries i ev = []"
  by (auto simp: client_start_def Let_def split: sum.splits)

lemma processRequest_silent:
  "processRequest L tr msg src ly = (ly', ev) \<Longrightarrow> orderly ly ev ly'"
  by (auto simp: processRequest_def insertServer_def Let_def intro!: orderly_silent split: option.splits if_splits)

lemma processMessage_orderly:
  assumes ok: "layer_ok ly" and m: "processMessage L tr msg src ly = (ly', ev)"
  shows "orderly ly ev ly'"
proof (cases "\<not> shutting_down ly \<and> isResponse msg")
  case False
  with m show ?thesis
    by (auto simp: processMessage_def layer_acknowledge_def processRequest_silent case_prod_beta
        intro!: orderly_silent split: if_splits option.splits)
next
  case True
  show ?thesis
  proof (cases "findClientTransaction L msg ly")
    case None
    with True m show ?thesis by (auto simp: processMessage_def intro: orderly_silent)
  next
    case (Some i)
    then obtain key where k: "um_find (client_txns ly) key = Some i"
      using findClientTransaction_in by blast
    obtain f where cb: "c_on_response (client_heap ly ! i) = Some (key, f)"
      by (rule client_of_table [OF ok k])
    define ly1 where "ly1 = put_client i (fst (processResponse msg (client_heap ly ! i))) ly"
    have r: "run_on_response i (Some (key, f)) msg ly1 = (ly', ev)"
      using True Some m cb by (simp add: processMessage_def processResponse_def ly1_def Let_def)
    have other: "k' = key" if "um_find (client_txns ly) k' = Some i" for k'
      using client_key_unique [OF ok that k] .
    have dead: "\<not> waiting i (ly1\<lparr>client_txns := um_erase key (client_txns ly1)\<rparr>)"
      using other by (auto simp: waiting_def um_lookup ly1_def split: if_splits)
    have ly': "ly' = (if 200 \<le> statusCode msg then ly1\<lparr>client_txns := um_erase key (client_txns ly1)\<rparr> else ly1)"
      and ev: "ev = (case f of None \<Rightarrow> [] | Some g \<Rightarrow> [Deliver i g msg])"
      using r True by (auto simp: run_on_response_def ly1_def)
    have "waiting i ly" using k by (auto simp: waiting_def)
    moreover have "waiting j ly' \<Longrightarrow> waiting j ly" for j
      by (auto simp: ly' ly1_def waiting_def um_lookup split: if_splits)
    moreover have "statusCode msg < 200 \<or> \<not> waiting i ly'" using dead by (simp add: ly' not_less)
    moreover have "length (client_heap ly') = length (client_heap ly)" by (simp add: ly' ly1_def)
    ultimately show ?thesis unfolding orderly_def ev by (cases f) auto
  qed
qed

lemma sendRequest_effect:
  assumes "sendRequest L tr now req dest f ly = (ly', ev, r)"
  shows "ly' = ly \<and> ev = [] \<or>
    (\<exists>c key. client_heap ly' = client_heap ly @ [c] \<and> (\<forall>i. deliveries i ev = []) \<and>
       client_txns ly' \<in> {um_emplace key (length (client_heap ly)) (client_txns ly),
          um_erase key (um_emplace key (length (client_heap ly)) (client_txns ly))})"
  using assms
  by (auto simp: sendRequest_def insertClient_def put_client_def Let_def
      split: if_splits prod.splits sum.splits dest: client_start_silent)

lemma sendRequest_orderly:
  assumes "sendRequest L tr now req dest f ly = (ly', ev, r)"
  shows "orderly ly ev ly'"
  using sendRequest_effect [OF assms]
proof
  assume "ly' = ly \<and> ev = []"
  then show ?thesis by (simp add: orderly_silent)
qed (auto simp: orderly_def waiting_def um_lookup split: if_splits)

lemma length_shutdown_ids [simp]: "length (shutdown_ids f ids heap) = length heap"
  unfolding shutdown_ids_def by (induction ids arbitrary: heap) simp_all

lemma layer_timer_b_orderly: "orderly ly [] (layer_timer_b now i ly)"
proof -
  have "client_txns (layer_timer_b now i ly) = client_txns ly \<or>
      (\<exists>key. client_txns (layer_timer_b now i ly) = um_erase key (client_txns ly))"
    "length (client_heap (layer_timer_b now i ly)) = length (client_heap ly)"
    by (auto simp: layer_timer_b_def run_on_timeout_def case_prod_beta split: option.split)
  then show ?thesis by (auto intro: orderly_silent orderly_erase)
qed

lemma layer_step_orderly:
  assumes "layer_step L ly ev ly'" and ok: "layer_ok ly"
  shows "orderly ly ev ly'"
proof (rule layer_stepE [OF assms(1)], goal_cases)
  case 1
  then show ?case by (simp add: setRequestHandler_def orderly_silent)
next
  case 2
  then show ?case by (simp add: sendRequest_orderly)
next
  case 3
  then show ?case by (simp add: processMessage_orderly [OF ok])
next
  case 4
  then show ?case
    by (auto simp: layer_respond_def sendResponse_def case_prod_beta split: sum.splits intro!: orderly_silent)
next
  case 7
  then show ?case
    by (auto simp: layer_timer_a_def timerA_def retransmit_def Let_def
        split: if_splits option.splits intro!: orderly_silent)
next
  case 8
  then show ?case
    by (simp add: layer_timer_b_orderly)
next
  case 9
  then show ?case
    by (simp add: orderly_def waiting_def layer_shutdown_def)
qed (simp_all add: layer_server_timer_def case_prod_beta orderly_silent)

subsection \<open>Properties of the layer\<close>

text \<open>C3: In every run of the layer, whoever sends, receives, responds or lets timers expire, the
  tables stay in order: an entry points to a live object carrying its key, a completed server
  transaction has a timer that will remove it, a client transaction in the table waits under
  Timer B, and after shutdown the tables are empty.\<close>

theorem transaction_tables_in_order:
  assumes "layer_trace L evs ly"
  shows "layer_ok ly"
  by (rule layer_trace_ok [OF assms])

text \<open>A request to send, the layer after it, and the answers to it.\<close>

definition demo_invite :: osip_message where
  "demo_invite = empty_message
     \<lparr>m_method := Some ''INVITE'', m_cseq := Some \<lparr>cs_number = Some ''1'', cs_method = Some ''INVITE''\<rparr>,
      m_vias := [\<lparr>via_protocol = None, via_host = None, via_port = None,
        via_params = [\<lparr>gname = ''branch'', gvalue = Some ''b1''\<rparr>], via_opaque = []\<rparr>]\<rparr>"

definition demo_answer :: "int \<Rightarrow> osip_message" where
  "demo_answer code = demo_invite\<lparr>m_method := None, m_status_code := code\<rparr>"

definition demo_send_layer :: layer where
  "demo_send_layer = fst (sendRequest demo_lib (\<lambda>m d. Inr ()) 0 demo_invite default_endpoint (Some 7)
     TransactionLayer)"

definition demo_ringing_layer :: layer where
  "demo_ringing_layer =
     fst (processMessage demo_lib (\<lambda>m d. Inr ()) (demo_answer 180) default_endpoint demo_send_layer)"

lemmas demo_txn_defs =
  demo_invite_def demo_answer_def empty_message_def demo_lib_def default_endpoint_def

lemma demo_branch:
  "viaBranch demo_lib demo_invite = ''b1''" "cseqMethod demo_invite = ''INVITE''"
  "response_transaction_keys demo_lib (demo_answer code) = [''b1:INVITE'']"
  "isResponse (demo_answer code) = (code \<noteq> 0)" "statusCode (demo_answer code) = code"
  "m_status_code (demo_answer code) = code"
  by (simp_all add: viaBranch_def via_branch_def cseqMethod_def response_transaction_keys_def param_gvalue_def
      isResponse_def MSG_IS_RESPONSE_def statusCode_def demo_txn_defs)

lemma demo_send:
  "demo_send_layer = TransactionLayer
     \<lparr>client_heap := [(ClientTransaction demo_lib demo_invite default_endpoint)
        \<lparr>c_on_response := Some (''b1:INVITE'', Some 7), c_on_timeout := Some ''b1:INVITE'',
         c_timer_a := Some kTimerT1, c_timer_b := Some kTimerB\<rparr>],
      client_txns := [(''b1:INVITE'', 0)]\<rparr>"
proof -
  have "lowercase (ep_transport default_endpoint) = ''udp''"
    by (simp add: default_endpoint_def lowercase_def tolower_def char_code_def)
  then show ?thesis
    by (simp add: demo_send_layer_def sendRequest_def insertClient_def demo_branch TransactionLayer_def
        client_start_def Let_def put_client_def um_emplace_def ClientTransaction_def is_final_def)
qed

lemma demo_ringing:
  "demo_ringing_layer = demo_send_layer
     \<lparr>client_heap := [(ClientTransaction demo_lib demo_invite default_endpoint)
        \<lparr>c_on_response := Some (''b1:INVITE'', Some 7), c_on_timeout := Some ''b1:INVITE'',
         c_state := kProceeding, c_timer_a := None, c_timer_b := Some kTimerB\<rparr>]\<rparr>"
  by (simp add: demo_ringing_layer_def demo_send processMessage_def findClientTransaction_def demo_branch
      processResponse_def run_on_response_def put_client_def TransactionLayer_def ClientTransaction_def)

lemma demo_send_trace:
  "layer_trace demo_lib [Send demo_invite default_endpoint] demo_send_layer"
proof -
  have "snd (sendRequest demo_lib (\<lambda>m d. Inr ()) 0 demo_invite default_endpoint (Some 7) TransactionLayer) =
      ([Send demo_invite default_endpoint], Inr ''b1:INVITE'')"
    by (simp add: sendRequest_def insertClient_def demo_branch TransactionLayer_def
        client_start_def Let_def um_emplace_def ClientTransaction_def)
  then have "sendRequest demo_lib (\<lambda>m d. Inr ()) 0 demo_invite default_endpoint (Some 7) TransactionLayer =
      (demo_send_layer, [Send demo_invite default_endpoint], Inr ''b1:INVITE'')"
    by (simp add: demo_send_layer_def prod_eq_iff)
  from layer_trace.step [OF layer_trace.start layer_step.request [OF this]] show ?thesis by simp
qed

lemma transaction_tables_in_order_witness: "layer_ok demo_send_layer"
  by (rule transaction_tables_in_order [OF demo_send_trace])

text \<open>The history of a client transaction: provisional responses, then at most one final one.\<close>

definition history_ok :: "event list \<Rightarrow> layer \<Rightarrow> bool" where
  "history_ok evs ly \<longleftrightarrow> (\<forall>i.
     list_all (\<lambda>m. statusCode m < 200) (butlast (deliveries i evs)) \<and>
     (waiting i ly \<longrightarrow> list_all (\<lambda>m. statusCode m < 200) (deliveries i evs)) \<and>
     (length (client_heap ly) \<le> i \<longrightarrow> deliveries i evs = []))"

lemma waiting_bound: "layer_ok ly \<Longrightarrow> waiting i ly \<Longrightarrow> i < length (client_heap ly)"
  by (auto simp: waiting_def layer_ok_def dest: table_okD)

lemma history_step:
  assumes h: "history_ok evs ly" and ok: "layer_ok ly" and o: "orderly ly ev ly'"
  shows "history_ok (evs @ ev) ly'"
  unfolding history_ok_def
proof (intro allI conjI impI)
  fix i
  have heap: "length (client_heap ly) \<le> length (client_heap ly')" using o by (simp add: orderly_def)
  have w: "waiting i ly' \<Longrightarrow> waiting i ly \<or> deliveries i evs = []"
    using o h by (auto simp: orderly_def history_ok_def)
  have old: "list_all (\<lambda>m. statusCode m < 200) (butlast (deliveries i evs))"
    "waiting i ly \<Longrightarrow> list_all (\<lambda>m. statusCode m < 200) (deliveries i evs)"
    using h by (simp_all add: history_ok_def)
  consider "deliveries i ev = []"
    | m where "waiting i ly" "deliveries i ev = [m]" "statusCode m < 200 \<or> \<not> waiting i ly'"
    using o unfolding orderly_def by blast
  note cases = this
  show "list_all (\<lambda>m. statusCode m < 200) (butlast (deliveries i (evs @ ev)))"
    using cases by cases (use old in \<open>simp_all add: butlast_append\<close>)
  show "list_all (\<lambda>m. statusCode m < 200) (deliveries i (evs @ ev))" if "waiting i ly'"
    using cases by cases (use old w that in auto)
  show "deliveries i (evs @ ev) = []" if "length (client_heap ly') \<le> i"
    using cases
  proof cases
    case 1
    then show ?thesis using h heap that by (simp add: history_ok_def)
  next
    case 2
    then show ?thesis using waiting_bound [OF ok] heap that by force
  qed
qed

lemma layer_trace_history: "layer_trace L evs ly \<Longrightarrow> history_ok evs ly"
proof (induction rule: layer_trace.induct)
  case (step evs ly ev ly')
  then show ?case
    using history_step [OF step.IH] layer_trace_ok layer_step_orderly by metis
qed (simp add: history_ok_def)

text \<open>C16: The application that sent a request is handed its responses in order up to the first
  final one and nothing after it: in every run, all responses delivered for one client transaction,
  except the last, are provisional.\<close>

theorem nothing_follows_the_final_response:
  assumes "layer_trace L evs ly"
  shows "list_all (\<lambda>m. statusCode m < 200) (butlast (deliveries i evs))"
  using layer_trace_history [OF assms] by (simp add: history_ok_def)

lemma demo_final_trace:
  "layer_trace demo_lib [Send demo_invite default_endpoint, Deliver 0 7 (demo_answer 180),
     Deliver 0 7 (demo_answer 200)]
     (fst (processMessage demo_lib (\<lambda>m d. Inr ()) (demo_answer 200) default_endpoint demo_ringing_layer))"
proof -
  have "snd (processMessage demo_lib (\<lambda>m d. Inr ()) (demo_answer 180) default_endpoint demo_send_layer) =
      [Deliver 0 7 (demo_answer 180)]"
    by (simp add: demo_send processMessage_def findClientTransaction_def demo_branch TransactionLayer_def
      processResponse_def run_on_response_def put_client_def)
  then have 1: "processMessage demo_lib (\<lambda>m d. Inr ()) (demo_answer 180) default_endpoint demo_send_layer =
      (demo_ringing_layer, [Deliver 0 7 (demo_answer 180)])"
    by (simp add: demo_ringing_layer_def prod_eq_iff)
  have "snd (processMessage demo_lib (\<lambda>m d. Inr ()) (demo_answer 200) default_endpoint demo_ringing_layer) =
      [Deliver 0 7 (demo_answer 200)]"
    by (simp add: demo_ringing demo_send processMessage_def findClientTransaction_def demo_branch
      TransactionLayer_def processResponse_def run_on_response_def put_client_def)
  then have 2: "processMessage demo_lib (\<lambda>m d. Inr ()) (demo_answer 200) default_endpoint demo_ringing_layer =
      (fst (processMessage demo_lib (\<lambda>m d. Inr ()) (demo_answer 200) default_endpoint demo_ringing_layer),
       [Deliver 0 7 (demo_answer 200)])"
    by (simp add: prod_eq_iff)
  from layer_trace.step [OF layer_trace.step [OF demo_send_trace layer_step.message [OF 1]]
      layer_step.message [OF 2]]
  show ?thesis by simp
qed

lemma nothing_follows_the_final_response_witness:
  "list_all (\<lambda>m. statusCode m < 200) (butlast (deliveries 0 [Send demo_invite default_endpoint,
     Deliver 0 7 (demo_answer 180), Deliver 0 7 (demo_answer 200)]))"
  by (rule nothing_follows_the_final_response [OF demo_final_trace])

text \<open>C18: A retransmitted request never reaches the application: a request other than an ACK whose
  branch and method belong to a server transaction in the table changes nothing, and the only thing
  that leaves is the last response sent on it, if there was one.\<close>

theorem retransmitted_request_is_absorbed:
  assumes "\<not> shutting_down ly" and "isRequest msg" and "message_method msg \<noteq> ''ACK''" and "clone_ok L"
    and "um_find (server_txns ly) (getTransactionKey L msg) = Some i"
  shows "processMessage L tr msg src ly =
    (ly, case s_last_response (server_heap ly ! i) of
           None \<Rightarrow> [] | Some r \<Rightarrow> [Send r (s_source (server_heap ly ! i))])"
  using assms
  by (simp add: processMessage_def processRequest_def resend_def retransmitLastResponse_def clone_def
      clone_ok_def isRequest_def isResponse_def MSG_IS_REQUEST_def MSG_IS_RESPONSE_def split: option.split)

definition demo_served_layer :: layer where
  "demo_served_layer = TransactionLayer
     \<lparr>server_heap := [(ServerTransaction demo_lib demo_invite default_endpoint)
        \<lparr>s_last_response := Some (demo_answer 180), s_on_terminated := Some ''b1:INVITE''\<rparr>],
      server_txns := [(''b1:INVITE'', 0)]\<rparr>"

lemma retransmitted_request_is_absorbed_witness:
  "processMessage demo_lib (\<lambda>m d. Inr ()) demo_invite default_endpoint demo_served_layer =
     (demo_served_layer, [Send (demo_answer 180) default_endpoint])"
proof -
  have r: "isRequest demo_invite" and m: "message_method demo_invite = ''INVITE''"
    by (simp_all add: isRequest_def MSG_IS_REQUEST_def message_method_def demo_invite_def empty_message_def)
  show ?thesis
    using retransmitted_request_is_absorbed [of demo_served_layer demo_invite demo_lib 0
        "\<lambda>m d. Inr ()" default_endpoint] r m
    by (simp add: demo_served_layer_def TransactionLayer_def getTransactionKey_def demo_branch demo_lib_ok
        ServerTransaction_def)
qed

text \<open>C17: Every client transaction leaves the table: at any point of any run, an entry of the client
  table has an armed Timer B, and when it fires, at its time or later, that entry and no other is
  erased.\<close>

theorem client_transactions_drain:
  assumes "layer_trace L evs ly" and "um_find (client_txns ly) key = Some i"
  shows "\<exists>tb. c_timer_b (client_heap ly ! i) = Some tb \<and>
    client_txns (layer_timer_b (max now tb) i ly) = um_erase key (client_txns ly)"
proof -
  note ok = layer_trace_ok [OF assms(1)]
  obtain f where e: "client_entry_ok key (client_heap ly ! i)" by (rule client_of_table [OF ok assms(2)])
  moreover have "\<not> shutting_down ly" using ok assms(2) by (auto simp: layer_ok_def)
  ultimately show ?thesis
    by (auto simp: layer_timer_b_def timerB_def due_def is_final_def run_on_timeout_def client_entry_ok_def)
qed

lemma client_transactions_drain_witness:
  "client_txns (layer_timer_b (max 0 kTimerB) 0 demo_send_layer) = []"
  using client_transactions_drain [OF demo_send_trace, of "''b1:INVITE''" 0 0]
  by (auto simp: demo_send um_erase_def um_erase_if_def)

text \<open>The times of the retransmissions of a request over UDP.\<close>

definition backoff :: "nat \<Rightarrow> int" where
  "backoff n = min (kTimerT1 * 2 ^ n) kTimerT2"

fun elapsed :: "nat \<Rightarrow> int" where
  "elapsed 0 = 0"
| "elapsed (Suc n) = elapsed n + backoff n"

lemma sint_shift: "n \<le> 10 \<Longrightarrow> sint (push_bit n (1 :: 32 word)) = 2 ^ n"
proof -
  have "list_all (\<lambda>n. sint (push_bit n (1 :: 32 word)) = 2 ^ n) [0..<11]" by code_simp
  moreover assume "n \<le> 10"
  then have "n \<in> set [0..<11]" by simp
  ultimately show ?thesis by (simp only: list_all_iff)
qed

lemma retransmit_interval_backoff: "n \<le> 10 \<Longrightarrow> retransmit_interval n = Some (backoff n)"
  using sint_shift [of n] unfolding retransmit_interval_def backoff_def Let_def min_def by simp

lemma backoff_pos: "0 < backoff n"
  by (simp add: backoff_def timer_values)

lemma elapsed_mono: "m \<le> n \<Longrightarrow> elapsed m \<le> elapsed n"
proof (induction n)
  case (Suc n)
  then show ?case using backoff_pos [of n] by (cases "m = Suc n") auto
qed simp

lemma elapsed_11: "kTimerB < elapsed 11"
  by (simp add: eval_nat_numeral backoff_def timer_values)

lemma elapsed_small: "elapsed n \<le> t \<Longrightarrow> t < kTimerB \<Longrightarrow> n \<le> 10"
  using elapsed_mono [of 11 n] elapsed_11 by (cases "n \<le> 10") simp_all

text \<open>A run of one client transaction, started at \<open>t0\<close>.\<close>

inductive client_run :: "time_point \<Rightarrow> time_point \<Rightarrow> client_txn \<Rightarrow> bool" for t0 where
  start: "c_retransmit_count c0 = 0 \<Longrightarrow> c_timer_a c0 = None \<Longrightarrow> client_start tr t0 c0 = (c, ev, Inr ()) \<Longrightarrow>
    client_run t0 t0 c"
| wait: "client_run t0 now c \<Longrightarrow> now \<le> now' \<Longrightarrow> client_run t0 now' c"
| response: "client_run t0 now c \<Longrightarrow> processResponse m c = (c', cb) \<Longrightarrow> client_run t0 now c'"
| timer_a: "client_run t0 now c \<Longrightarrow> timerA now c = Some (c', ev) \<Longrightarrow> client_run t0 now c'"
| timer_b: "client_run t0 now c \<Longrightarrow> timerB now c = (c', cb) \<Longrightarrow> client_run t0 now c'"
| shutdown: "client_run t0 now c \<Longrightarrow> client_run t0 now (client_shutdown c)"

definition paced :: "time_point \<Rightarrow> time_point \<Rightarrow> client_txn \<Rightarrow> bool" where
  "paced t0 now c \<longleftrightarrow> now - t0 < kTimerB \<longrightarrow>
     elapsed (c_retransmit_count c) \<le> now - t0 \<and>
     (case c_timer_a c of None \<Rightarrow> True | Some ta \<Rightarrow> t0 + elapsed (Suc (c_retransmit_count c)) \<le> ta)"

lemma paced_timer_a:
  assumes p: "paced t0 now c" and f: "timerA now c = Some (c', ev)"
  shows "paced t0 now c'"
proof (cases "now - t0 < kTimerB \<and> due (c_timer_a c) now \<and> \<not> is_final (c_state c)")
  case True
  then obtain ta where ta: "c_timer_a c = Some ta" "ta \<le> now" by (auto simp: due_def split: option.splits)
  let ?n = "c_retransmit_count c"
  have e: "elapsed (Suc ?n) \<le> now - t0" using p True ta by (simp add: paced_def)
  then have "Suc ?n \<le> 10" using elapsed_small True by blast
  from retransmit_interval_backoff [OF this] have "c' = c\<lparr>c_retransmit_count := Suc ?n,
      c_timer_a := Some (now + backoff (Suc ?n))\<rparr>"
    using True f by (simp add: timerA_def retransmit_def)
  then show ?thesis using e by (simp add: paced_def)
next
  case False
  then show ?thesis using p f
    by (auto simp: paced_def timerA_def retransmit_def split: if_splits)
qed

lemma client_run_paced: "client_run t0 now c \<Longrightarrow> paced t0 now c"
proof (induction rule: client_run.induct)
  case (start c0 tr c ev)
  then show ?case
    by (auto simp: client_start_def paced_def Let_def backoff_def timer_values split: sum.splits if_splits)
next
  case (timer_a now c c' ev)
  then show ?case by (blast intro: paced_timer_a)
qed (auto simp: paced_def processResponse_def timerB_def client_shutdown_def Let_def
      split: option.splits if_splits)

text \<open>C19: While Timer B runs, a request is retransmitted at most ten times, however late the timers
  fire: so the shift that doubles the interval never leaves the range of a 32-bit int.\<close>

theorem retransmissions_are_bounded:
  assumes "client_run t0 now c" and "now < t0 + kTimerB"
  shows "c_retransmit_count c \<le> 10"
proof -
  have "now - t0 < kTimerB" using assms(2) by simp
  with client_run_paced [OF assms(1)] show ?thesis unfolding paced_def by (blast intro: elapsed_small)
qed

lemma demo_client_run: "client_run 0 kTimerT1 ((ClientTransaction demo_lib demo_invite default_endpoint)
    \<lparr>c_timer_a := Some (kTimerT1 + milliseconds 1000), c_timer_b := Some kTimerB, c_retransmit_count := 1\<rparr>)"
proof -
  let ?c = "ClientTransaction demo_lib demo_invite default_endpoint"
  let ?c1 = "?c\<lparr>c_timer_a := Some kTimerT1, c_timer_b := Some kTimerB\<rparr>"
  have "lowercase (ep_transport default_endpoint) = ''udp''"
    by (simp add: default_endpoint_def lowercase_def tolower_def char_code_def)
  then have "client_start (\<lambda>m d. Inr ()) 0 ?c = (?c1, [Send demo_invite default_endpoint], Inr ())"
    by (simp add: client_start_def ClientTransaction_def is_final_def Let_def)
  then have "client_run 0 0 ?c1" by (rule client_run.start [rotated 2]) (simp_all add: ClientTransaction_def)
  then have "client_run 0 kTimerT1 ?c1" by (rule client_run.wait) (simp add: timer_values)
  moreover have "timerA kTimerT1 ?c1 = Some (?c\<lparr>c_timer_a := Some (kTimerT1 + milliseconds 1000),
      c_timer_b := Some kTimerB, c_retransmit_count := 1\<rparr>, [Send demo_invite default_endpoint])"
    using retransmit_interval_backoff [of 1]
    by (simp add: timerA_def due_def retransmit_def ClientTransaction_def is_final_def backoff_def timer_values)
  ultimately show ?thesis by (rule client_run.timer_a)
qed

lemma retransmissions_are_bounded_witness:
  "c_retransmit_count ((ClientTransaction demo_lib demo_invite default_endpoint)
    \<lparr>c_timer_a := Some (kTimerT1 + milliseconds 1000), c_timer_b := Some kTimerB, c_retransmit_count := 1\<rparr>) \<le> 10"
  by (rule retransmissions_are_bounded [OF demo_client_run]) (simp add: timer_values)

text \<open>A provisional response to the request with a given key, and what the layer has become after some of
  them.\<close>

definition provisional_for :: "osip_lib \<Rightarrow> string \<Rightarrow> osip_message \<Rightarrow> bool" where
  "provisional_for L key m \<longleftrightarrow>
     isResponse m \<and> response_transaction_keys L m = [key] \<and> 100 \<le> statusCode m \<and> statusCode m < 200"

definition after_messages :: "osip_lib \<Rightarrow> transport \<Rightarrow> Endpoint \<Rightarrow> osip_message list \<Rightarrow> layer \<Rightarrow> layer" where
  "after_messages L tr src ms ly = fold (\<lambda>m ly. fst (processMessage L tr m src ly)) ms ly"

text \<open>A transaction that waits for its final response with Timer B due at \<open>t\<close>.\<close>

definition waits_until :: "string \<Rightarrow> nat \<Rightarrow> time_point \<Rightarrow> layer \<Rightarrow> bool" where
  "waits_until key i t ly \<longleftrightarrow>
     layer_ok ly \<and> um_find (client_txns ly) key = Some i \<and> c_timer_b (client_heap ly ! i) = Some t"

lemma provisional_keeps_timer_b:
  assumes "waits_until key i t ly" and "provisional_for L key m"
  shows "waits_until key i t (fst (processMessage L tr m src ly)) \<and>
    c_state (client_heap (fst (processMessage L tr m src ly)) ! i) = kProceeding"
proof -
  have ok: "layer_ok ly" and k: "um_find (client_txns ly) key = Some i"
    and b: "c_timer_b (client_heap ly ! i) = Some t"
    using assms(1) by (simp_all add: waits_until_def)
  obtain f where i: "i < length (client_heap ly)" and f: "c_on_response (client_heap ly ! i) = Some (key, f)"
    by (rule client_of_table [OF ok k])
  have "\<not> shutting_down ly" using ok k by (auto simp: layer_ok_def)
  moreover have "findClientTransaction L m ly = Some i"
    using assms(2) k by (simp add: findClientTransaction_def provisional_for_def)
  ultimately have "processMessage L tr m src ly =
      run_on_response i (c_on_response (client_heap ly ! i)) m
        (put_client i (fst (processResponse m (client_heap ly ! i))) ly)"
    using assms(2) by (simp add: processMessage_def provisional_for_def processResponse_def Let_def)
  then have "fst (processMessage L tr m src ly) = put_client i (fst (processResponse m (client_heap ly ! i))) ly"
    using assms(2) f by (simp add: run_on_response_def provisional_for_def)
  then show ?thesis
    using processMessage_ok [OF ok, of L tr m src] assms(2) k b i
    by (simp add: waits_until_def put_client_def processResponse_def provisional_for_def)
qed

lemma provisionals_keep_timer_b:
  assumes "waits_until key i t ly" and "list_all (provisional_for L key) ms"
  shows "waits_until key i t (after_messages L tr src ms ly) \<and>
    (ms \<noteq> [] \<longrightarrow> c_state (client_heap (after_messages L tr src ms ly) ! i) = kProceeding)"
  using assms
proof (induction ms rule: rev_induct)
  case (snoc m ms)
  then have "waits_until key i t (after_messages L tr src ms ly)" by simp
  from provisional_keeps_timer_b [OF this, of L m tr src] snoc.prems show ?case
    by (simp add: after_messages_def)
qed (simp add: after_messages_def)

text \<open>C31: An INVITE that rings for 32 seconds is given up.  Take a request that was just sent, with its
  Timer B armed, and let any number of provisional responses arrive: the transaction is proceeding and its
  Timer B is still the one armed at the start.  When that timer expires the transaction is erased although
  the callee answered, and the final response that comes later finds no transaction and is dropped.\<close>

theorem ringing_invite_is_given_up:
  assumes "layer_trace L evs ly" and "um_find (client_txns ly) key = Some i"
    and "c_state (client_heap ly ! i) = kTrying" and "c_timer_b (client_heap ly ! i) = Some t"
    and "ringing \<noteq> []" and "list_all (provisional_for L key) ringing"
    and "t \<le> now" and "response_transaction_keys L answer = [key]" and "isResponse answer"
  shows "c_state (client_heap (after_messages L tr src ringing ly) ! i) = kProceeding \<and>
    c_timer_b (client_heap (after_messages L tr src ringing ly) ! i) = Some t \<and>
    um_find (client_txns (after_messages L tr src ringing ly)) key = Some i \<and>
    um_find (client_txns (layer_timer_b now i (after_messages L tr src ringing ly))) key = None \<and>
    processMessage L tr answer src (layer_timer_b now i (after_messages L tr src ringing ly)) =
      (layer_timer_b now i (after_messages L tr src ringing ly), [])"
proof -
  let ?ly = "after_messages L tr src ringing ly"
  have "waits_until key i t ly" using layer_trace_ok [OF assms(1)] assms(2,4) by (simp add: waits_until_def)
  from provisionals_keep_timer_b [OF this assms(6), of tr src] assms(5)
  have w: "layer_ok ?ly" "um_find (client_txns ?ly) key = Some i" "c_timer_b (client_heap ?ly ! i) = Some t"
      and p: "c_state (client_heap ?ly ! i) = kProceeding"
    by (simp_all add: waits_until_def)
  obtain f where e: "client_entry_ok key (client_heap ?ly ! i)" by (rule client_of_table [OF w(1,2)])
  have "\<not> shutting_down ?ly" using w by (auto simp: layer_ok_def)
  then have c: "client_txns (layer_timer_b now i ?ly) = um_erase key (client_txns ?ly)"
    using e p w(3) assms(7)
    by (simp add: layer_timer_b_def timerB_def is_final_def run_on_timeout_def client_entry_ok_def due_def)
  then have "findClientTransaction L answer (layer_timer_b now i ?ly) = None"
    using assms(8) by (simp add: findClientTransaction_def um_lookup)
  with assms(9) c w p show ?thesis by (simp add: processMessage_def um_lookup)
qed

lemma ringing_invite_is_given_up_witness:
  "processMessage demo_lib (\<lambda>m d. Inr ()) (demo_answer 200) default_endpoint
      (layer_timer_b (seconds 40) 0 demo_ringing_layer) = (layer_timer_b (seconds 40) 0 demo_ringing_layer, []) \<and>
   um_find (client_txns (layer_timer_b (seconds 40) 0 demo_ringing_layer)) ''b1:INVITE'' = None"
proof -
  have "after_messages demo_lib (\<lambda>m d. Inr ()) default_endpoint [demo_answer 180] demo_send_layer = demo_ringing_layer"
    by (simp add: after_messages_def demo_ringing_layer_def)
  then show ?thesis
    using ringing_invite_is_given_up [OF demo_send_trace, of "''b1:INVITE''" 0 kTimerB "[demo_answer 180]"
        "seconds 40" "demo_answer 200" "\<lambda>m d. Inr ()" default_endpoint]
    by (simp add: demo_send provisional_for_def demo_branch timer_values TransactionLayer_def ClientTransaction_def)
qed

end
