(* ===== verification/Transport.thy ===== *)
theory Transport
  imports Transaction
begin

section \<open>The transports (sip/transport.cpp)\<close>

text \<open>
  What the transports do with bytes and connections.  The sockets are the operating system's: the
  outcome of each socket call is an argument (\<open>None\<close> for success, \<open>Some message\<close> for an error
  code), and \<open>canon\<close> stands for \<^verbatim>\<open>make_address(a).to_string()\<close> of the socket library:
  \<open>None\<close> when the text is not an address.  Connection objects live in a heap and a
  \<^verbatim>\<open>shared_ptr\<close> is an index; the table of connections maps endpoint keys to indices.

  The first part is the framing of SIP messages on a stream.  Its read loop is modelled with fuel,
  and \<open>None\<close> says that the fuel was used up.
\<close>

subsection \<open>Framing\<close>

definition crlf2 :: string where
  "crlf2 = [CHR 0x0D, CHR 0x0A, CHR 0x0D, CHR 0x0A]"

definition pop_cr :: "string \<Rightarrow> string" where
  "pop_cr line = (if line \<noteq> [] \<and> last line = CHR 0x0D then butlast line else line)"

fun content_length_loop :: "string list \<Rightarrow> nat" where
  "content_length_loop [] = 0"
| "content_length_loop (raw # lines) =
     (let line = pop_cr raw in
      case find_char line (CHR '':'') of
        None \<Rightarrow> content_length_loop lines
      | Some colon \<Rightarrow>
          (let name = lowercase (trim (substr line 0 colon)) in
           if name \<noteq> ''content-length'' \<and> name \<noteq> ''l'' then content_length_loop lines
           else
             (let v = trim (drop (colon + 1) line) in
              if v = [] then 0 else (case stoul v of Inl _ \<Rightarrow> 0 | Inr n \<Rightarrow> n))))"

definition parseContentLength :: "string \<Rightarrow> nat" where
  "parseContentLength headers = content_length_loop (getlines (CHR 0x0A) headers)"

text \<open>The buffer that is left and the message, if a complete one is there.  The sum of the two
  lengths is a \<^verbatim>\<open>size_t\<close>.\<close>

definition tryExtractSipMessage :: "string \<Rightarrow> string \<times> string option" where
  "tryExtractSipMessage buffer =
     (case find0 crlf2 buffer of
        None \<Rightarrow> (buffer, None)
      | Some header_end \<Rightarrow>
          (let headers_len = header_end + length crlf2;
               full_len = (headers_len + parseContentLength (take headers_len buffer)) mod 2 ^ 64
           in if length buffer < full_len then (buffer, None)
              else (drop full_len buffer, Some (take full_len buffer))))"

fun extract_loop :: "nat \<Rightarrow> string \<Rightarrow> (string list \<times> string) option" where
  "extract_loop 0 buffer = None"
| "extract_loop (Suc fuel) buffer =
     (case tryExtractSipMessage buffer of
        (rest, None) \<Rightarrow> Some ([], rest)
      | (rest, Some raw) \<Rightarrow>
          (case extract_loop fuel rest of None \<Rightarrow> None | Some (raws, left) \<Rightarrow> Some (raw # raws, left)))"

text \<open>A chunk arrives on a connection: the raw messages it completes, in order, and the new buffer.
  With one unit of fuel for every byte the loop ends whenever each message it extracts is not
  empty.\<close>

definition feed :: "string \<Rightarrow> string \<Rightarrow> (string list \<times> string) option" where
  "feed buffer chunk = extract_loop (Suc (length (buffer @ chunk))) (buffer @ chunk)"

fun feed_all :: "string \<Rightarrow> string list \<Rightarrow> (string list \<times> string) option" where
  "feed_all buffer [] = Some ([], buffer)"
| "feed_all buffer (c # cs) =
     (case feed buffer c of
        None \<Rightarrow> None
      | Some (raws, b) \<Rightarrow>
          (case feed_all b cs of None \<Rightarrow> None | Some (raws', b') \<Rightarrow> Some (raws @ raws', b')))"

subsection \<open>UDP\<close>

record udp =
  udp_running :: bool
  udp_open :: bool

definition transport_error :: "string \<Rightarrow> string \<Rightarrow> ErrorInfo" where
  "transport_error msg detail = mk_error kSipTransportError msg detail"

text \<open>What is written to a socket.\<close>

datatype wire = Datagram string Endpoint | Written nat string

definition serialized :: "osip_lib \<Rightarrow> osip_message \<Rightarrow> string result" where
  "serialized L msg =
     (case toString L msg of
        Inl e \<Rightarrow> Inl (transport_error ''Failed to serialize message'' (err_message e))
      | Inr data \<Rightarrow> Inr data)"

definition udp_send ::
  "osip_lib \<Rightarrow> (string \<Rightarrow> string option) \<Rightarrow> string option \<Rightarrow> osip_message \<Rightarrow> Endpoint \<Rightarrow> udp \<Rightarrow>
     wire list \<times> unit result" where
  "udp_send L canon sent msg dest u =
     (case serialized L msg of
        Inl e \<Rightarrow> ([], Inl e)
      | Inr data \<Rightarrow>
          (case canon (ep_address dest) of
             None \<Rightarrow> ([], Inl (transport_error ''Invalid destination address'' []))
           | Some a \<Rightarrow>
               if \<not> udp_running u \<or> \<not> udp_open u
               then ([], Inl (transport_error ''UDP transport is stopped'' []))
               else (case sent of
                       Some e \<Rightarrow> ([], Inl (transport_error ''UDP send failed'' e))
                     | None \<Rightarrow> ([Datagram data dest], Inr ()))))"

text \<open>\<^verbatim>\<open>start\<close>: the results of opening and binding the socket (the result of setting the
  option is overwritten).\<close>

definition udp_start :: "string option \<Rightarrow> string option \<Rightarrow> udp \<Rightarrow> udp \<times> unit result" where
  "udp_start opened bound u =
     (case opened of
        Some e \<Rightarrow> (u, Inl (transport_error ''Failed to open UDP socket'' e))
      | None \<Rightarrow>
          (case bound of
             Some e \<Rightarrow> (u\<lparr>udp_open := True\<rparr>, Inl (transport_error ''Failed to bind UDP socket'' e))
           | None \<Rightarrow> (\<lparr>udp_running = True, udp_open = True\<rparr>, Inr ())))"

definition udp_stop :: "udp \<Rightarrow> udp" where
  "udp_stop u = (if \<not> udp_running u then u else \<lparr>udp_running = False, udp_open = False\<rparr>)"

text \<open>A datagram goes to the callback with its source when it parses.\<close>

definition udp_receive :: "osip_lib \<Rightarrow> string \<Rightarrow> Endpoint \<Rightarrow> (osip_message \<times> Endpoint) list" where
  "udp_receive L raw src =
     (case message_parse L raw of
        Inl _ \<Rightarrow> [] | Inr m \<Rightarrow> [(m, src\<lparr>ep_transport := ''udp''\<rparr>)])"

subsection \<open>TCP connections\<close>

record connection =
  cn_remote :: Endpoint
  cn_open :: bool
  cn_read_buffer :: string

record tcp =
  tcp_heap :: "connection list"
  tcp_connections :: "(string, nat) umap"
  tcp_connecting :: "string set"
  tcp_running :: bool
  tcp_stopped :: bool

definition TcpTransport :: tcp where
  "TcpTransport = \<lparr>tcp_heap = [], tcp_connections = [], tcp_connecting = {}, tcp_running = False,
     tcp_stopped = False\<rparr>"

definition endpointKey :: "Endpoint \<Rightarrow> string" where
  "endpointKey e = ep_address e @ '':'' @ show_nat (unat (ep_port e))"

definition new_connection :: "Endpoint \<Rightarrow> connection" where
  "new_connection remote = \<lparr>cn_remote = remote, cn_open = True, cn_read_buffer = []\<rparr>"

definition conn_close :: "nat \<Rightarrow> tcp \<Rightarrow> tcp" where
  "conn_close i t = t\<lparr>tcp_heap := (tcp_heap t)[i := (tcp_heap t ! i)\<lparr>cn_open := False\<rparr>]\<rparr>"

definition unregisterConnection :: "Endpoint \<Rightarrow> nat \<Rightarrow> tcp \<Rightarrow> tcp" where
  "unregisterConnection endpoint i t =
     (if um_find (tcp_connections t) (endpointKey endpoint) = Some i
      then t\<lparr>tcp_connections := um_erase (endpointKey endpoint) (tcp_connections t)\<rparr> else t)"

definition conn_send :: "string option \<Rightarrow> nat \<Rightarrow> string \<Rightarrow> tcp \<Rightarrow> wire list \<times> unit result" where
  "conn_send sent i payload t =
     (if \<not> cn_open (tcp_heap t ! i) \<or> tcp_stopped t
      then ([], Inl (transport_error ''TCP connection is closed'' []))
      else (case sent of
              Some e \<Rightarrow> ([], Inl (transport_error ''TCP send failed'' e))
            | None \<Rightarrow> ([Written i payload], Inr ())))"

text \<open>A connection is accepted: it replaces an entry with its key.\<close>

definition tcp_accept :: "Endpoint \<Rightarrow> tcp \<Rightarrow> tcp" where
  "tcp_accept remote t =
     t\<lparr>tcp_heap := tcp_heap t @ [new_connection remote],
       tcp_connections := um_put (endpointKey remote) (length (tcp_heap t)) (tcp_connections t)\<rparr>"

text \<open>\<^verbatim>\<open>getOrCreateConnection\<close> up to the end of its first critical section.  \<open>Wait\<close>: another
  thread is connecting to the same endpoint.\<close>

datatype tcp_begin = Refused ErrorInfo | Blocked | Existing nat | Connect

definition tcp_begin :: "Endpoint \<Rightarrow> tcp \<Rightarrow> tcp \<times> tcp_begin" where
  "tcp_begin dest t =
     (let key = endpointKey dest in
      if tcp_stopped t then (t, Refused (transport_error ''TCP transport is stopped'' []))
      else if key \<in> tcp_connecting t then (t, Blocked)
      else (case um_find (tcp_connections t) key of
              Some i \<Rightarrow> (t, Existing i)
            | None \<Rightarrow> (t\<lparr>tcp_connecting := insert key (tcp_connecting t)\<rparr>, Connect)))"

text \<open>The rest, from \<^verbatim>\<open>make_address\<close> on; \<open>connected\<close> is the result of
  \<^verbatim>\<open>socket.connect\<close>.\<close>

definition tcp_finish ::
  "(string \<Rightarrow> string option) \<Rightarrow> string option \<Rightarrow> Endpoint \<Rightarrow> tcp \<Rightarrow> tcp \<times> nat result" where
  "tcp_finish canon connected dest t0 =
     (let key = endpointKey dest; t = t0\<lparr>tcp_connecting := tcp_connecting t0 - {key}\<rparr> in
      case canon (ep_address dest) of
        None \<Rightarrow> (t, Inl (transport_error ''Invalid TCP destination address'' []))
      | Some address \<Rightarrow>
          (case connected of
             Some e \<Rightarrow> (t, Inl (transport_error ''TCP connect failed'' e))
           | None \<Rightarrow>
               (let remote = \<lparr>ep_address = address, ep_port = ep_port dest, ep_transport = ''tcp''\<rparr>;
                    i = length (tcp_heap t);
                    t1 = t\<lparr>tcp_heap := tcp_heap t @ [new_connection remote]\<rparr>
                in if tcp_stopped t then (conn_close i t1, Inl (transport_error ''TCP transport is stopped'' []))
                   else (case um_find (tcp_connections t) key of
                           Some j \<Rightarrow> (conn_close i t1, Inr j)
                         | None \<Rightarrow> (t1\<lparr>tcp_connections := um_put key i (tcp_connections t1)\<rparr>, Inr i)))))"

definition getOrCreateConnection ::
  "(string \<Rightarrow> string option) \<Rightarrow> string option \<Rightarrow> Endpoint \<Rightarrow> tcp \<Rightarrow> (tcp \<times> nat result) option" where
  "getOrCreateConnection canon connected dest t =
     (case tcp_begin dest t of
        (t', Refused e) \<Rightarrow> Some (t', Inl e)
      | (t', Blocked) \<Rightarrow> None
      | (t', Existing i) \<Rightarrow> Some (t', Inr i)
      | (t', Connect) \<Rightarrow> Some (tcp_finish canon connected dest t'))"

text \<open>The last part of \<^verbatim>\<open>send\<close>: the payload on the connection that was found.\<close>

definition tcp_write :: "string option \<Rightarrow> nat \<Rightarrow> string \<Rightarrow> tcp \<Rightarrow> tcp \<times> wire list \<times> unit result" where
  "tcp_write sent i payload t =
     (case conn_send sent i payload t of
        (out, Inl e) \<Rightarrow> (unregisterConnection (cn_remote (tcp_heap t ! i)) i t, out, Inl e)
      | (out, Inr _) \<Rightarrow> (t, out, Inr ()))"

text \<open>\<open>None\<close>: the caller waits.\<close>

definition tcp_send ::
  "osip_lib \<Rightarrow> (string \<Rightarrow> string option) \<Rightarrow> string option \<Rightarrow> string option \<Rightarrow> osip_message \<Rightarrow> Endpoint \<Rightarrow>
     tcp \<Rightarrow> (tcp \<times> wire list \<times> unit result) option" where
  "tcp_send L canon connected sent msg dest t =
     (case serialized L msg of
        Inl e \<Rightarrow> Some (t, [], Inl e)
      | Inr data \<Rightarrow>
          (case getOrCreateConnection canon connected dest t of
             None \<Rightarrow> None
           | Some (t1, Inl e) \<Rightarrow> Some (t1, [], Inl e)
           | Some (t1, Inr i) \<Rightarrow> Some (tcp_write sent i data t1)))"
text \<open>Bytes arrive: the messages they complete, each with the endpoint of the peer when it parses.
  \<open>None\<close>: the loop over the buffer does not end.\<close>

definition handleIncomingMessage :: "osip_lib \<Rightarrow> Endpoint \<Rightarrow> string \<Rightarrow> (osip_message \<times> Endpoint) list" where
  "handleIncomingMessage L src raw = (case message_parse L raw of Inl _ \<Rightarrow> [] | Inr m \<Rightarrow> [(m, src)])"

definition conn_read ::
  "osip_lib \<Rightarrow> nat \<Rightarrow> string \<Rightarrow> tcp \<Rightarrow> (tcp \<times> (osip_message \<times> Endpoint) list) option" where
  "conn_read L i chunk t =
     (let c = tcp_heap t ! i in
      case feed (cn_read_buffer c) chunk of
        None \<Rightarrow> None
      | Some (raws, left) \<Rightarrow>
          Some (t\<lparr>tcp_heap := (tcp_heap t)[i := c\<lparr>cn_read_buffer := left\<rparr>]\<rparr>,
                concat (map (handleIncomingMessage L (cn_remote c)) raws)))"

text \<open>The read fails: the peer closed the connection, or an error.\<close>

definition conn_read_error :: "nat \<Rightarrow> tcp \<Rightarrow> tcp" where
  "conn_read_error i t = conn_close i (unregisterConnection (cn_remote (tcp_heap t ! i)) i t)"

text \<open>\<^verbatim>\<open>start\<close>: the results of opening the acceptor, setting its option, binding it and
  listening.\<close>

definition tcp_start ::
  "string option \<Rightarrow> string option \<Rightarrow> string option \<Rightarrow> string option \<Rightarrow> tcp \<Rightarrow> tcp \<times> unit result" where
  "tcp_start opened option_set bound listening t =
     (case (opened, option_set, bound, listening) of
        (Some e, _, _, _) \<Rightarrow> (t, Inl (transport_error ''Failed to open TCP acceptor'' e))
      | (None, Some e, _, _) \<Rightarrow> (t, Inl (transport_error ''Failed to set TCP reuse_address'' e))
      | (None, None, Some e, _) \<Rightarrow> (t, Inl (transport_error ''Failed to bind TCP acceptor'' e))
      | (None, None, None, Some e) \<Rightarrow> (t, Inl (transport_error ''Failed to listen on TCP acceptor'' e))
      | (None, None, None, None) \<Rightarrow> (t\<lparr>tcp_stopped := False, tcp_running := True\<rparr>, Inr ()))"

definition tcp_stop :: "tcp \<Rightarrow> tcp" where
  "tcp_stop t =
     (if tcp_stopped t then t
      else fold conn_close (map snd (tcp_connections t))
             (t\<lparr>tcp_stopped := True, tcp_running := False, tcp_connecting := {}, tcp_connections := []\<rparr>))"

subsection \<open>Both transports\<close>

record dual =
  dt_udp :: udp
  dt_tcp :: tcp

definition dual_send ::
  "osip_lib \<Rightarrow> (string \<Rightarrow> string option) \<Rightarrow> string option \<Rightarrow> string option \<Rightarrow> osip_message \<Rightarrow> Endpoint \<Rightarrow>
     dual \<Rightarrow> (dual \<times> wire list \<times> unit result) option" where
  "dual_send L canon connected sent msg dest d =
     (if lowercase (ep_transport dest) = ''tcp''
      then map_option (\<lambda>(t, out, r). (d\<lparr>dt_tcp := t\<rparr>, out, r)) (tcp_send L canon connected sent msg dest (dt_tcp d))
      else Some (d, udp_send L canon sent msg (dest\<lparr>ep_transport := ''udp''\<rparr>) (dt_udp d)))"

definition dual_start ::
  "string option \<Rightarrow> string option \<Rightarrow> string option \<Rightarrow> string option \<Rightarrow> string option \<Rightarrow> string option \<Rightarrow>
     dual \<Rightarrow> dual \<times> unit result" where
  "dual_start udp_opened udp_bound opened option_set bound listening d =
     (case udp_start udp_opened udp_bound (dt_udp d) of
        (u, Inl e) \<Rightarrow> (d\<lparr>dt_udp := u\<rparr>, Inl e)
      | (u, Inr _) \<Rightarrow>
          (case tcp_start opened option_set bound listening (dt_tcp d) of
             (t, Inl e) \<Rightarrow> (\<lparr>dt_udp = udp_stop u, dt_tcp = t\<rparr>, Inl e)
           | (t, Inr _) \<Rightarrow> (\<lparr>dt_udp = u, dt_tcp = t\<rparr>, Inr ())))"

text \<open>What the sockets answer while both transports start.\<close>

record dual_env =
  de_udp_opened :: "string option"
  de_udp_bound :: "string option"
  de_opened :: "string option"
  de_option_set :: "string option"
  de_bound :: "string option"
  de_listening :: "string option"

definition dual_start_in :: "dual_env \<Rightarrow> dual \<Rightarrow> dual \<times> unit result" where
  "dual_start_in env d =
     dual_start (de_udp_opened env) (de_udp_bound env) (de_opened env) (de_option_set env) (de_bound env)
       (de_listening env) d"

definition sockets_ok :: dual_env where
  "sockets_ok = \<lparr>de_udp_opened = None, de_udp_bound = None, de_opened = None, de_option_set = None,
     de_bound = None, de_listening = None\<rparr>"

definition DualTransport :: dual where
  "DualTransport = \<lparr>dt_udp = \<lparr>udp_running = False, udp_open = False\<rparr>, dt_tcp = TcpTransport\<rparr>"

definition dual_stop :: "dual \<Rightarrow> dual" where
  "dual_stop d = \<lparr>dt_udp = udp_stop (dt_udp d), dt_tcp = tcp_stop (dt_tcp d)\<rparr>"

subsection \<open>Messages on a stream\<close>

text \<open>A message that announces its own length: the header section ends at the first empty line, and
  its Content-Length is the length of the body.\<close>

definition framed :: "string \<Rightarrow> bool" where
  "framed m \<longleftrightarrow>
     (\<exists>h body. m = h @ crlf2 @ body \<and> find0 crlf2 (h @ crlf2) = Some (length h) \<and>
        parseContentLength (h @ crlf2) = length body \<and> length m < 2 ^ 64)"

lemma prefix_extend: "prefix p s \<Longrightarrow> prefix p (s @ t)"
  by (auto simp: prefix_def)

lemma prefix_restrict: "prefix p (s @ t) \<Longrightarrow> length p \<le> length s \<Longrightarrow> prefix p s"
  by (rule prefix_length_prefix [of _ "s @ t"]) simp_all

lemma find0_append: "find0 p s = Some i \<Longrightarrow> find0 p (s @ t) = Some i"
proof (induction p s arbitrary: i rule: find0.induct)
  case (1 p)
  then show ?case by (cases t) (auto split: if_splits)
next
  case (2 p c s)
  show ?case
  proof (cases "prefix p (c # s)")
    case True
    with 2(2) prefix_extend [of p "c # s" t] show ?thesis by simp
  next
    case False
    with 2(2) obtain j where j: "find0 p s = Some j" "i = Suc j" by auto
    have "\<not> prefix p (c # s @ t)"
      using False prefix_restrict [of p "c # s" t] find0_bound [OF j(1)] by auto
    with 2(1) [OF False j(1)] j show ?thesis by simp
  qed
qed

lemma framed_nonempty: "framed m \<Longrightarrow> m \<noteq> []"
  by (auto simp: framed_def crlf2_def)

lemma extract_framed:
  assumes "framed m"
  shows "tryExtractSipMessage (m @ rest) = (rest, Some m)"
proof -
  obtain h body where m: "m = h @ crlf2 @ body" and f: "find0 crlf2 (h @ crlf2) = Some (length h)"
    and len: "parseContentLength (h @ crlf2) = length body" "length m < 2 ^ 64"
    using assms unfolding framed_def by blast
  have "find0 crlf2 (m @ rest) = Some (length h)"
    using find0_append [OF f, of "body @ rest"] by (simp add: m)
  moreover have "take (length h + length crlf2) (m @ rest) = h @ crlf2" by (simp add: m)
  moreover have "(length h + length crlf2 + length body) mod 2 ^ 64 = length m"
    using len by (simp add: m)
  ultimately show ?thesis using len by (simp add: tryExtractSipMessage_def Let_def)
qed

lemma extract_incomplete:
  assumes "framed m" and "m = p @ q" and "q \<noteq> []"
  shows "tryExtractSipMessage p = (p, None)"
proof -
  obtain h body where m: "m = h @ crlf2 @ body" and f: "find0 crlf2 (h @ crlf2) = Some (length h)"
    and len: "parseContentLength (h @ crlf2) = length body" "length m < 2 ^ 64"
    using assms(1) unfolding framed_def by blast
  have whole: "find0 crlf2 m = Some (length h)"
    using find0_append [OF f, of body] by (simp add: m)
  show ?thesis
  proof (cases "find0 crlf2 p")
    case None
    then show ?thesis by (simp add: tryExtractSipMessage_def)
  next
    case (Some i)
    then have i: "i = length h"
      using find0_append [OF Some, of q] whole assms(2) by simp
    then have "length h + length crlf2 \<le> length p" using find0_bound [OF Some] by simp
    then have "take (length h + length crlf2) p = take (length h + length crlf2) m"
      by (simp add: assms(2))
    also have "\<dots> = h @ crlf2" by (simp add: m)
    finally have t: "take (length h + length crlf2) p = h @ crlf2" .
    have "length p < length m" using assms(2,3) by simp
    with len have "length p < (length h + length crlf2 + length body) mod 2 ^ 64"
      by (simp add: m)
    with Some i t len show ?thesis by (simp add: tryExtractSipMessage_def Let_def)
  qed
qed
lemma extract_loop_stream:
  assumes "\<forall>m \<in> set ms. framed m" and "p @ r = concat ms" and "length p < fuel"
  shows "\<exists>got todo q. ms = got @ todo \<and> extract_loop fuel p = Some (got, q) \<and> q @ r = concat todo \<and>
    (todo = [] \<or> length q < length (hd todo))"
  using assms
proof (induction ms arbitrary: p fuel)
  case Nil
  then obtain f where "fuel = Suc f" by (cases fuel) auto
  with Nil show ?case by (simp add: tryExtractSipMessage_def crlf2_def)
next
  case (Cons m ms)
  then obtain f where f: "fuel = Suc f" by (cases fuel) auto
  show ?case
  proof (cases "length p < length m")
    case True
    have "take (length p) (p @ r) = take (length p) (m @ concat ms)" using Cons.prems(2) by simp
    with True have p: "p = take (length p) m" by simp
    have "drop (length p) m \<noteq> []" using True by simp
    with Cons.prems(1) p have "tryExtractSipMessage p = (p, None)"
      using extract_incomplete [of m p "drop (length p) m"] by (metis append_take_drop_id list.set_intros(1))
    with f True Cons.prems(2) show ?thesis
      by (intro exI [of _ "[]"] exI [of _ "m # ms"] exI [of _ p]) simp
  next
    case False
    have "take (length m) (p @ r) = take (length m) (m @ concat ms)" using Cons.prems(2) by simp
    with False have "take (length m) p = m" by simp
    then obtain p' where p: "p = m @ p'" by (metis append_take_drop_id)
    have m: "framed m" using Cons.prems(1) by simp
    have "length p' < f" using p f Cons.prems(3) framed_nonempty [OF m] by (cases m) auto
    moreover have "p' @ r = concat ms" using Cons.prems(2) p by simp
    ultimately obtain got todo q where q: "ms = got @ todo" "extract_loop f p' = Some (got, q)"
      "q @ r = concat todo" "todo = [] \<or> length q < length (hd todo)"
      using Cons.IH [of p' f] Cons.prems(1) by auto
    with p f extract_framed [OF m, of p'] show ?thesis
      by (intro exI [of _ "m # got"] exI [of _ todo] exI [of _ q]) simp
  qed
qed

lemma feed_all_stream:
  assumes "\<forall>m \<in> set ms. framed m" and "b @ concat cs = concat ms"
    and "ms = [] \<or> length b < length (hd ms)"
  shows "feed_all b cs = Some (ms, [])"
  using assms
proof (induction cs arbitrary: b ms)
  case Nil
  then show ?case by (cases ms) auto
next
  case (Cons c cs)
  have "(b @ c) @ concat cs = concat ms" using Cons.prems(2) by simp
  from extract_loop_stream [OF Cons.prems(1) this lessI] obtain got todo q where
    q: "ms = got @ todo" "feed b c = Some (got, q)" "q @ concat cs = concat todo"
      "todo = [] \<or> length q < length (hd todo)"
    unfolding feed_def by blast
  have "feed_all q cs = Some (todo, [])"
    using Cons.IH [of todo q] Cons.prems(1) q by auto
  with q show ?case by simp
qed

text \<open>C4: TCP framing does not depend on how the bytes are segmented: a stream of messages whose
  Content-Length is the length of their body, cut into chunks in any way, is read as exactly those
  messages in order, nothing is left in the buffer, and the read loop ends after each chunk.\<close>

theorem framing_ignores_segmentation:
  assumes "\<forall>m \<in> set ms. framed m" and "concat chunks = concat ms"
  shows "feed_all [] chunks = Some (ms, [])"
proof (rule feed_all_stream [OF assms(1)])
  show "[] @ concat chunks = concat ms" using assms(2) by simp
  show "ms = [] \<or> length ([] :: string) < length (hd ms)"
    using assms(1) framed_nonempty by (cases ms) auto
qed

definition demo_stream :: "string list" where
  "demo_stream =
     [''A'' @ [CHR 0x0D, CHR 0x0A] @ ''l: 2'' @ crlf2 @ ''xy'', ''B'' @ crlf2,
      ''C'' @ [CHR 0x0D, CHR 0x0A] @ ''Content-Length:1'' @ crlf2 @ ''z'']"

lemma framedI:
  assumes "m = h @ crlf2 @ body" and "find0 crlf2 (h @ crlf2) = Some (length h)"
    and "parseContentLength (h @ crlf2) = length body" and "length m < 2 ^ 64"
  shows "framed m"
  using assms unfolding framed_def by blast

lemma content_length_line:
  assumes "find_char (pop_cr raw) (CHR '':'') = Some k"
    and "lowercase (trim (substr (pop_cr raw) 0 k)) \<in> {''content-length'', ''l''}"
    and "trim (drop (k + 1) (pop_cr raw)) = v" and "v \<noteq> []" and "stoul v = Inr n"
  shows "content_length_loop (raw # lines) = n"
  using assms by (auto simp: Let_def)

lemma content_length_other:
  "find_char (pop_cr raw) (CHR '':'') = None \<Longrightarrow> content_length_loop (raw # lines) = content_length_loop lines"
  by (simp add: Let_def)

lemma stoul_digit: "stoul ''2'' = Inr 2" "stoul ''1'' = Inr 1"
proof -
  have "scan_number ''2'' = Some (False, 2)" "scan_number ''1'' = Some (False, 1)" by code_simp+
  then show "stoul ''2'' = Inr 2" "stoul ''1'' = Inr 1"
    by (simp_all add: stoul_def)
qed

lemma demo_lengths:
  "parseContentLength ((''A'' @ [CHR 0x0D, CHR 0x0A] @ ''l: 2'') @ crlf2) = 2"
  "parseContentLength (''B'' @ crlf2) = 0"
  "parseContentLength ((''C'' @ [CHR 0x0D, CHR 0x0A] @ ''Content-Length:1'') @ crlf2) = 1"
proof -
  have "getlines (CHR 0x0A) ((''A'' @ [CHR 0x0D, CHR 0x0A] @ ''l: 2'') @ crlf2) =
      [''A'' @ [CHR 0x0D], ''l: 2'' @ [CHR 0x0D], [CHR 0x0D]]" by code_simp
  moreover have "content_length_loop [''l: 2'' @ [CHR 0x0D], [CHR 0x0D]] = 2"
    by (rule content_length_line [of _ 1 "''2''", OF _ _ _ _ stoul_digit(1)]) code_simp+
  moreover have "find_char (pop_cr (''A'' @ [CHR 0x0D])) (CHR '':'') = None" by code_simp
  ultimately show "parseContentLength ((''A'' @ [CHR 0x0D, CHR 0x0A] @ ''l: 2'') @ crlf2) = 2"
    by (simp only: parseContentLength_def content_length_other)
  show "parseContentLength (''B'' @ crlf2) = 0" by code_simp
  have "getlines (CHR 0x0A) ((''C'' @ [CHR 0x0D, CHR 0x0A] @ ''Content-Length:1'') @ crlf2) =
      [''C'' @ [CHR 0x0D], ''Content-Length:1'' @ [CHR 0x0D], [CHR 0x0D]]" by code_simp
  moreover have "content_length_loop [''Content-Length:1'' @ [CHR 0x0D], [CHR 0x0D]] = 1"
    by (rule content_length_line [of _ 14 "''1''", OF _ _ _ _ stoul_digit(2)]) code_simp+
  moreover have "find_char (pop_cr (''C'' @ [CHR 0x0D])) (CHR '':'') = None" by code_simp
  ultimately show "parseContentLength ((''C'' @ [CHR 0x0D, CHR 0x0A] @ ''Content-Length:1'') @ crlf2) = 1"
    by (simp only: parseContentLength_def content_length_other)
qed

lemma demo_stream_framed: "\<forall>m \<in> set demo_stream. framed m"
proof -
  have a: "framed (''A'' @ [CHR 0x0D, CHR 0x0A] @ ''l: 2'' @ crlf2 @ ''xy'')"
  proof (rule framedI [of _ "''A'' @ [CHR 0x0D, CHR 0x0A] @ ''l: 2''" "''xy''"])
    show "find0 crlf2 ((''A'' @ [CHR 0x0D, CHR 0x0A] @ ''l: 2'') @ crlf2) =
      Some (length (''A'' @ [CHR 0x0D, CHR 0x0A] @ ''l: 2''))" by code_simp
  qed (simp_all only: demo_lengths, simp_all add: crlf2_def)
  have b: "framed (''B'' @ crlf2)"
  proof (rule framedI [of _ "''B''" "[]"])
    show "find0 crlf2 (''B'' @ crlf2) = Some (length ''B'')" by code_simp
  qed (simp_all only: demo_lengths, simp_all add: crlf2_def)
  have c: "framed (''C'' @ [CHR 0x0D, CHR 0x0A] @ ''Content-Length:1'' @ crlf2 @ ''z'')"
  proof (rule framedI [of _ "''C'' @ [CHR 0x0D, CHR 0x0A] @ ''Content-Length:1''" "''z''"])
    show "find0 crlf2 ((''C'' @ [CHR 0x0D, CHR 0x0A] @ ''Content-Length:1'') @ crlf2) =
      Some (length (''C'' @ [CHR 0x0D, CHR 0x0A] @ ''Content-Length:1''))" by code_simp
  qed (simp_all only: demo_lengths, simp_all add: crlf2_def)
  from a b c show ?thesis by (simp add: demo_stream_def)
qed

lemma framing_ignores_segmentation_witness:
  "feed_all [] [take 5 (concat demo_stream), drop 5 (concat demo_stream)] = Some (demo_stream, [])"
  by (rule framing_ignores_segmentation [OF demo_stream_framed]) simp

text \<open>The text of the Content-Length header of a header section: the value of the first line named
  \<^verbatim>\<open>Content-Length\<close> or \<^verbatim>\<open>l\<close>, trimmed.\<close>

fun content_length_text :: "string list \<Rightarrow> string option" where
  "content_length_text [] = None"
| "content_length_text (raw # lines) =
     (case find_char (pop_cr raw) (CHR '':'') of
        None \<Rightarrow> content_length_text lines
      | Some colon \<Rightarrow>
          if lowercase (trim (substr (pop_cr raw) 0 colon)) \<in> {''content-length'', ''l''}
          then Some (trim (drop (colon + 1) (pop_cr raw))) else content_length_text lines)"

definition content_length_of :: "string \<Rightarrow> string option" where
  "content_length_of headers = content_length_text (getlines (CHR 0x0A) headers)"

lemma content_length_loop_text:
  "content_length_text lines = Some v \<Longrightarrow> stoul v = Inr n \<Longrightarrow> content_length_loop lines = n"
proof (induction lines)
  case (Cons raw lines)
  have "v \<noteq> []" using Cons.prems(2) by (auto simp: stoul_def scan_number_def)
  with Cons show ?case by (auto simp: Let_def split: option.splits if_splits)
qed simp

lemma stoul_negated:
  assumes "0 < n" and "n < 2 ^ 64" shows "stoul (CHR ''-'' # show_nat n) = Inr (2 ^ 64 - n)"
proof -
  have "show_int (- int n) = CHR ''-'' # show_nat n" using assms(1) by (simp add: show_int_def)
  then have "scan_number (CHR ''-'' # show_nat n) = Some (True, n)"
    using scan_number_show_int [of "- int n"] assms(1) by simp
  with assms show ?thesis by (simp add: stoul_def)
qed

lemma empty_message_loops:
  assumes "tryExtractSipMessage buffer = (buffer, Some [])" shows "extract_loop fuel buffer = None"
  using assms by (induction fuel) simp_all

text \<open>C35: A few bytes stop the reader: any header section whose Content-Length is the negative of the
  section's own length, written in decimal, makes the 64-bit sum zero, so the read loop extracts an empty
  message and never ends, whatever follows on the stream.\<close>

theorem negative_length_hangs_the_reader:
  assumes "find0 crlf2 (h @ crlf2) = Some (length h)" and "length (h @ crlf2) < 2 ^ 64"
    and "content_length_of (h @ crlf2) = Some (CHR ''-'' # show_nat (length (h @ crlf2)))"
  shows "extract_loop fuel (h @ crlf2 @ rest) = None"
proof (rule empty_message_loops)
  let ?n = "length (h @ crlf2)"
  have n: "?n = length h + length crlf2" "0 < ?n" by (simp_all add: crlf2_def)
  have f: "find0 crlf2 ((h @ crlf2) @ rest) = Some (length h)" by (rule find0_append [OF assms(1)])
  have "parseContentLength (h @ crlf2) = 2 ^ 64 - ?n"
    unfolding parseContentLength_def
    by (rule content_length_loop_text [OF assms(3) [unfolded content_length_of_def] stoul_negated [OF n(2) assms(2)]])
  moreover have "take (length h + length crlf2) ((h @ crlf2) @ rest) = h @ crlf2" by simp
  ultimately have "tryExtractSipMessage ((h @ crlf2) @ rest) = ((h @ crlf2) @ rest, Some [])"
    unfolding tryExtractSipMessage_def f using assms(2) n(1) by (simp add: Let_def)
  then show "tryExtractSipMessage (h @ crlf2 @ rest) = (h @ crlf2 @ rest, Some [])" by simp
qed

text \<open>Eight bytes are enough; and a request line in front of the header changes nothing.\<close>

lemma demo_hangs_ok:
  assumes "h = ''l:-8'' \<or> h = ''A'' @ [CHR 0x0D, CHR 0x0A] @ ''Content-Length: -26''"
  shows "find0 crlf2 (h @ crlf2) = Some (length h)"
    "content_length_of (h @ crlf2) = Some (CHR ''-'' # show_nat (length (h @ crlf2)))"
proof -
  have l: "length (''l:-8'' @ crlf2) = 8"
    "length ((''A'' @ [CHR 0x0D, CHR 0x0A] @ ''Content-Length: -26'') @ crlf2) = 26" by code_simp+
  have d: "show_nat 8 = ''8''" "show_nat 26 = ''26''" by code_simp+
  have "content_length_of (''l:-8'' @ crlf2) = Some ''-8''"
    "content_length_of ((''A'' @ [CHR 0x0D, CHR 0x0A] @ ''Content-Length: -26'') @ crlf2) = Some ''-26''"
    by code_simp+
  then show "content_length_of (h @ crlf2) = Some (CHR ''-'' # show_nat (length (h @ crlf2)))"
    using assms by (elim disjE) (simp_all only: l d)
  have "find0 crlf2 (''l:-8'' @ crlf2) = Some (length ''l:-8'')"
    "find0 crlf2 ((''A'' @ [CHR 0x0D, CHR 0x0A] @ ''Content-Length: -26'') @ crlf2) =
     Some (length (''A'' @ [CHR 0x0D, CHR 0x0A] @ ''Content-Length: -26''))"
    by code_simp+
  then show "find0 crlf2 (h @ crlf2) = Some (length h)" using assms by blast
qed

lemma negative_length_hangs_the_reader_witness:
  "extract_loop 1000 (''l:-8'' @ crlf2 @ ''zz'') = None \<and>
   extract_loop 1000 ((''A'' @ [CHR 0x0D, CHR 0x0A] @ ''Content-Length: -26'') @ crlf2 @ ''zz'') = None"
  by (intro conjI negative_length_hangs_the_reader [OF demo_hangs_ok(1) _ demo_hangs_ok(2)])
    (simp_all add: crlf2_def)

subsection \<open>The table of connections\<close>

text \<open>One step of the TCP transport; \<open>D\<close> are the destinations the callers of \<^verbatim>\<open>send\<close> use.
  The peer of an accepted connection has an address that the socket library printed.\<close>

inductive tcp_step :: "(string \<Rightarrow> string option) \<Rightarrow> (Endpoint \<Rightarrow> bool) \<Rightarrow> tcp \<Rightarrow> tcp \<Rightarrow> bool" for canon D where
  start: "tcp_step canon D t (fst (tcp_start a b c d t))"
| accept: "canon (ep_address remote) = Some (ep_address remote) \<Longrightarrow> tcp_step canon D t (tcp_accept remote t)"
| begin_connect: "D dest \<Longrightarrow> tcp_step canon D t (fst (tcp_begin dest t))"
| finish_connect: "D dest \<Longrightarrow> tcp_step canon D t (fst (tcp_finish canon connected dest t))"
| write_to: "i < length (tcp_heap t) \<Longrightarrow> tcp_step canon D t (fst (tcp_write sent i payload t))"
| read: "i < length (tcp_heap t) \<Longrightarrow> conn_read L i chunk t = Some (t', msgs) \<Longrightarrow> tcp_step canon D t t'"
| read_error: "i < length (tcp_heap t) \<Longrightarrow> tcp_step canon D t (conn_read_error i t)"
| stop: "tcp_step canon D t (tcp_stop t)"

inductive_cases tcp_stepE: "tcp_step canon D t t'"

inductive tcp_reach :: "(string \<Rightarrow> string option) \<Rightarrow> (Endpoint \<Rightarrow> bool) \<Rightarrow> tcp \<Rightarrow> bool" for canon D where
  init: "tcp_reach canon D TcpTransport"
| step: "tcp_reach canon D t \<Longrightarrow> tcp_step canon D t t' \<Longrightarrow> tcp_reach canon D t'"

definition canonical :: "(string \<Rightarrow> string option) \<Rightarrow> Endpoint \<Rightarrow> bool" where
  "canonical canon d \<longleftrightarrow> canon (ep_address d) = None \<or> canon (ep_address d) = Some (ep_address d)"

text \<open>An entry of the table is a live object; when every destination is written the way the library
  prints it, the object is open and filed under the key of its peer.\<close>

definition entry_in_order :: "bool \<Rightarrow> connection list \<Rightarrow> string \<Rightarrow> nat \<Rightarrow> bool" where
  "entry_in_order strict heap k i \<longleftrightarrow>
     i < length heap \<and> (strict \<longrightarrow> cn_open (heap ! i) \<and> endpointKey (cn_remote (heap ! i)) = k)"

definition tcp_in_order :: "bool \<Rightarrow> tcp \<Rightarrow> bool" where
  "tcp_in_order strict t \<longleftrightarrow>
     (\<forall>k i. um_find (tcp_connections t) k = Some i \<longrightarrow> entry_in_order strict (tcp_heap t) k i)"

lemma tcp_in_orderD:
  "tcp_in_order strict t \<Longrightarrow> um_find (tcp_connections t) k = Some i \<Longrightarrow> entry_in_order strict (tcp_heap t) k i"
  by (simp add: tcp_in_order_def)

lemma entry_new:
  "entry_in_order strict heap k i \<Longrightarrow> entry_in_order strict (heap @ [c]) k i"
  by (auto simp: entry_in_order_def nth_append)

lemma tcp_in_order_erase:
  "tcp_in_order strict t \<Longrightarrow> tcp_in_order strict (unregisterConnection e i t)"
  by (auto simp: tcp_in_order_def unregisterConnection_def um_find_erase split: if_splits)

lemma tcp_in_order_add:
  assumes "tcp_in_order strict t" and "strict \<Longrightarrow> endpointKey remote = k"
  shows "tcp_in_order strict (t\<lparr>tcp_heap := tcp_heap t @ [new_connection remote],
     tcp_connections := um_put k (length (tcp_heap t)) (tcp_connections t)\<rparr>)"
  using assms entry_new
  by (auto simp: tcp_in_order_def um_find_put) (simp add: entry_in_order_def new_connection_def)

lemma tcp_in_order_push:
  "tcp_in_order strict t \<Longrightarrow> tcp_in_order strict (t\<lparr>tcp_heap := tcp_heap t @ [c]\<rparr>)"
  using entry_new by (auto simp: tcp_in_order_def)

lemma tcp_in_order_close:
  assumes "tcp_in_order strict t" and "\<And>k. strict \<Longrightarrow> um_find (tcp_connections t) k \<noteq> Some i"
  shows "tcp_in_order strict (conn_close i t)"
  unfolding tcp_in_order_def
proof (intro allI impI)
  fix k j
  assume "um_find (tcp_connections (conn_close i t)) k = Some j"
  then have j: "um_find (tcp_connections t) k = Some j" by (simp add: conn_close_def)
  with assms(2) have "strict \<Longrightarrow> i \<noteq> j" by blast
  with tcp_in_orderD [OF assms(1) j] show "entry_in_order strict (tcp_heap (conn_close i t)) k j"
    by (auto simp: conn_close_def entry_in_order_def)
qed

lemma tcp_in_order_connecting [simp]:
  "tcp_in_order strict (t\<lparr>tcp_connecting := x\<rparr>) = tcp_in_order strict t"
  by (simp add: tcp_in_order_def)

lemma tcp_in_order_finish:
  assumes "tcp_in_order strict t" and "strict \<Longrightarrow> canonical canon dest"
  shows "tcp_in_order strict (fst (tcp_finish canon connected dest t))"
proof -
  have fresh: "um_find (tcp_connections t) k \<noteq> Some (length (tcp_heap t))" for k
    using tcp_in_orderD [OF assms(1)] by (auto simp: entry_in_order_def)
  have "tcp_in_order strict (conn_close (length (tcp_heap t))
      (t\<lparr>tcp_connecting := x, tcp_heap := tcp_heap t @ [c]\<rparr>))" for x c
    using tcp_in_order_close [of strict "t\<lparr>tcp_connecting := x, tcp_heap := tcp_heap t @ [c]\<rparr>"
        "length (tcp_heap t)"] tcp_in_order_push [of strict "t\<lparr>tcp_connecting := x\<rparr>" c] assms(1) fresh
    by simp
  moreover have "canon (ep_address dest) = Some a \<Longrightarrow>
    tcp_in_order strict (t\<lparr>tcp_connecting := x,
      tcp_heap := tcp_heap t @ [new_connection \<lparr>ep_address = a, ep_port = ep_port dest, ep_transport = ''tcp''\<rparr>],
      tcp_connections := um_put (endpointKey dest) (length (tcp_heap t)) (tcp_connections t)\<rparr>)" for x a
    using tcp_in_order_add [of strict "t\<lparr>tcp_connecting := x\<rparr>"
        "\<lparr>ep_address = a, ep_port = ep_port dest, ep_transport = ''tcp''\<rparr>" "endpointKey dest"] assms
    by (simp add: canonical_def endpointKey_def)
  ultimately show ?thesis
    using assms(1) by (auto simp: tcp_finish_def Let_def split: option.split)
qed

lemma close_connections [simp]: "tcp_connections (conn_close i t) = tcp_connections t"
  by (simp add: conn_close_def)

lemma fold_close_connections [simp]: "tcp_connections (fold conn_close is t) = tcp_connections t"
  by (induction "is" arbitrary: t) simp_all

lemma tcp_step_in_order:
  assumes "tcp_step canon D t t'" and "tcp_in_order strict t" and "\<And>d. strict \<Longrightarrow> D d \<Longrightarrow> canonical canon d"
  shows "tcp_in_order strict t'"
  using assms(1)
proof cases
  case (start a b c d)
  with assms(2) show ?thesis by (auto simp: tcp_start_def tcp_in_order_def split: option.split)
next
  case (accept remote)
  with tcp_in_order_add [OF assms(2), of remote] show ?thesis by (simp add: tcp_accept_def)
next
  case (begin_connect dest)
  with assms(2) show ?thesis by (auto simp: tcp_begin_def Let_def split: option.split)
next
  case (finish_connect dest connected)
  with tcp_in_order_finish [OF assms(2)] assms(3) show ?thesis by blast
next
  case (write_to i sent payload)
  with assms(2) show ?thesis
    by (auto simp: tcp_write_def split: prod.split sum.split intro: tcp_in_order_erase)
next
  case (read i L chunk msgs)
  with assms(2) show ?thesis
    by (auto simp: conn_read_def Let_def tcp_in_order_def entry_in_order_def nth_list_update split: option.splits)
next
  case (read_error i)
  have "um_find (tcp_connections (unregisterConnection (cn_remote (tcp_heap t ! i)) i t)) k \<noteq> Some i" if strict for k
    using that tcp_in_orderD [OF assms(2), of k i]
    by (auto simp: unregisterConnection_def um_find_erase entry_in_order_def)
  with read_error tcp_in_order_close [OF tcp_in_order_erase [OF assms(2)]] show ?thesis
    by (simp add: conn_read_error_def)
next
  case stop
  with assms(2) show ?thesis by (auto simp: tcp_stop_def tcp_in_order_def)
qed

lemma tcp_reach_in_order:
  "tcp_reach canon D t \<Longrightarrow> (\<And>d. strict \<Longrightarrow> D d \<Longrightarrow> canonical canon d) \<Longrightarrow> tcp_in_order strict t"
proof (induction rule: tcp_reach.induct)
  case init
  then show ?case by (simp add: tcp_in_order_def TcpTransport_def)
next
  case (step t t')
  then show ?case using tcp_step_in_order by blast
qed

text \<open>C24: In every run of the TCP transport whose destinations are written the way the socket library
  prints them, each entry of the table of connections is an open connection filed under the address and port of
  its peer, so a failed connection is never used twice.\<close>

theorem tcp_table_holds_open_connections:
  assumes "tcp_reach canon D t" and "\<forall>d. D d \<longrightarrow> canonical canon d"
  shows "tcp_in_order True t"
  using tcp_reach_in_order [OF assms(1)] assms(2) by blast

definition demo_dest :: "string \<Rightarrow> Endpoint" where
  "demo_dest a = \<lparr>ep_address = a, ep_port = 5060, ep_transport = ''tcp''\<rparr>"

definition demo_canon :: "string \<Rightarrow> string option" where
  "demo_canon a = (if a = ''ABC::1'' then Some ''abc::1'' else Some a)"

definition demo_tcp :: tcp where
  "demo_tcp = fst (tcp_finish demo_canon None (demo_dest ''abc::1'') (fst (tcp_begin (demo_dest ''abc::1'') TcpTransport)))"

lemma demo_tcp_reach: "tcp_reach demo_canon (\<lambda>d. d = demo_dest ''abc::1'') demo_tcp"
  unfolding demo_tcp_def
  by (rule tcp_reach.step [OF tcp_reach.step [OF tcp_reach.init]]) (rule begin_connect finish_connect; simp)+

lemma tcp_table_holds_open_connections_witness: "tcp_in_order True demo_tcp"
  by (rule tcp_table_holds_open_connections [OF demo_tcp_reach])
    (simp add: canonical_def demo_canon_def demo_dest_def)

text \<open>A destination that is not written the way the library prints it is lost after its
  connection closes: the connection stays in the table under the key of the caller's text, and every
  later send to that destination fails on it and changes nothing.\<close>

theorem closed_connection_is_never_replaced:
  assumes "tcp_reach canon D t" and "um_find (tcp_connections t) (endpointKey dest) = None"
    and "getOrCreateConnection canon None dest t = Some (t1, Inr i)"
    and "canon (ep_address dest) \<noteq> Some (ep_address dest)"
    and "toString L msg = Inr data"
  shows "tcp_send L canon connected sent msg dest (conn_read_error i t1) =
    Some (conn_read_error i t1, [], Inl (transport_error ''TCP connection is closed'' []))"
proof -
  have ids: "um_find (tcp_connections t) k \<noteq> Some (length (tcp_heap t))" for k
    using tcp_in_orderD [OF tcp_reach_in_order [OF assms(1), of False], of k "length (tcp_heap t)"]
    by (auto simp: entry_in_order_def)
  obtain a where a: "canon (ep_address dest) = Some a" "a \<noteq> ep_address dest"
    and t1: "i = length (tcp_heap t)" "\<not> tcp_stopped t" "endpointKey dest \<notin> tcp_connecting t1"
      "t1 = t\<lparr>tcp_connecting := tcp_connecting t1,
        tcp_heap := tcp_heap t @ [new_connection \<lparr>ep_address = a, ep_port = ep_port dest, ep_transport = ''tcp''\<rparr>],
        tcp_connections := um_put (endpointKey dest) (length (tcp_heap t)) (tcp_connections t)\<rparr>"
    using assms(2-4)
    by (auto simp: getOrCreateConnection_def tcp_begin_def tcp_finish_def Let_def split: if_splits option.splits)
  let ?r = "\<lparr>ep_address = a, ep_port = ep_port dest, ep_transport = ''tcp''\<rparr>"
  have key: "endpointKey ?r \<noteq> endpointKey dest" using a by (simp add: endpointKey_def)
  have sel: "tcp_heap t1 ! i = new_connection ?r" "length (tcp_heap t1) = Suc i"
    "um_find (tcp_connections t1) (endpointKey dest) = Some i" "tcp_stopped t1 = tcp_stopped t"
    "um_find (tcp_connections t1) (endpointKey ?r) \<noteq> Some i"
    by (subst t1(4), use t1(1) key ids in \<open>simp add: um_find_put\<close>)+
  then have "conn_read_error i t1 = conn_close i t1"
    by (simp add: conn_read_error_def unregisterConnection_def new_connection_def)
  moreover have "tcp_send L canon connected sent msg dest (conn_close i t1) =
      Some (conn_close i t1, [], Inl (transport_error ''TCP connection is closed'' []))"
    using sel t1 assms(5)
    by (simp add: tcp_send_def serialized_def getOrCreateConnection_def tcp_begin_def conn_close_def
        tcp_write_def conn_send_def unregisterConnection_def new_connection_def)
  ultimately show ?thesis by simp
qed

lemma closed_connection_is_never_replaced_witness:
  "tcp_send (demo_lib\<lparr>L_to_str := \<lambda>m. Some ''INVITE''\<rparr>) demo_canon None None demo_request (demo_dest ''ABC::1'')
     (conn_read_error 0 (fst (the (getOrCreateConnection demo_canon None (demo_dest ''ABC::1'') TcpTransport)))) =
   Some (conn_read_error 0 (fst (the (getOrCreateConnection demo_canon None (demo_dest ''ABC::1'') TcpTransport))),
     [], Inl (transport_error ''TCP connection is closed'' []))"
proof (rule closed_connection_is_never_replaced [OF tcp_reach.init [of demo_canon "\<lambda>d. True"]])
  show "um_find (tcp_connections TcpTransport) (endpointKey (demo_dest ''ABC::1'')) = None"
    by (simp add: TcpTransport_def)
  show "getOrCreateConnection demo_canon None (demo_dest ''ABC::1'') TcpTransport =
      Some (fst (the (getOrCreateConnection demo_canon None (demo_dest ''ABC::1'') TcpTransport)), Inr 0)"
    by (simp add: getOrCreateConnection_def tcp_begin_def tcp_finish_def TcpTransport_def demo_canon_def
        demo_dest_def Let_def)
  show "demo_canon (ep_address (demo_dest ''ABC::1'')) \<noteq> Some (ep_address (demo_dest ''ABC::1''))"
    by (simp add: demo_canon_def demo_dest_def)
  show "toString (demo_lib\<lparr>L_to_str := \<lambda>m. Some ''INVITE''\<rparr>) demo_request = Inr ''INVITE''"
    by (simp add: toString_def)
qed

end
