(* ===== verification/Proxy_Core.thy ===== *)
theory Proxy_Core
  imports Transaction
begin

section \<open>The proxy functions (sip/proxy_core.cpp)\<close>

text \<open>
  What a proxy does with a message before it passes it on.  The proxy's own address and port are
  the record \<open>proxy\<close>; a fresh branch is an argument.  An operation that reads Max-Forwards can
  leave with the exception of \<^verbatim>\<open>std::stoi\<close>.  What an operation gives away is a list of
  actions: a response handed to the upstream server transaction, a request handed to the transaction
  layer, or a message sent without a transaction.
\<close>

record proxy =
  local_address :: string
  local_port :: port

datatype action =
    Upstream osip_message
  | Downstream osip_message Endpoint
  | Stateless osip_message Endpoint

definition show_port :: "port \<Rightarrow> string" where
  "show_port p = show_nat (unat p)"

definition proxy_via :: "string \<Rightarrow> string \<Rightarrow> port \<Rightarrow> string \<Rightarrow> string" where
  "proxy_via transport address p branch =
     ''SIP/2.0/'' @ uppercase transport @ '' '' @ address @ '':'' @ show_port p @ '';branch='' @ branch @
     '';rport''"

subsection \<open>Requests\<close>

text \<open>The message is changed in place, so it comes back on the error path too.\<close>

definition prepareRequestForForward ::
  "osip_lib \<Rightarrow> proxy \<Rightarrow> string \<Rightarrow> string \<Rightarrow> osip_message \<Rightarrow> std_exception + (osip_message \<times> unit result)" where
  "prepareRequestForForward L px branch transport msg =
     (case maxForwards L msg of
        Inl ex \<Rightarrow> Inl ex
      | Inr mf0 \<Rightarrow>
          (let (msg1, mf) = (if mf0 < 0 then (setMaxForwards L 70 msg, 70) else (msg, mf0)) in
           if mf = 0 then
             Inr (msg1, Inl (mk_error kSipTransactionFailed ''Max-Forwards is zero, cannot forward'' []))
           else (case decrementMaxForwards L msg1 of
                   Inl ex \<Rightarrow> Inl ex
                 | Inr msg2 \<Rightarrow>
                     (let token = (if transport = [] then ''udp'' else transport) in
                      Inr (addVia L (proxy_via token (local_address px) (local_port px) branch) msg2, Inr ())))))"

definition forwardRequest ::
  "osip_lib \<Rightarrow> proxy \<Rightarrow> string \<Rightarrow> osip_message \<Rightarrow> Endpoint \<Rightarrow> transport \<Rightarrow>
     std_exception + (osip_message \<times> action list \<times> unit result)" where
  "forwardRequest L px branch msg dest tr =
     (case prepareRequestForForward L px branch (ep_transport dest) msg of
        Inl ex \<Rightarrow> Inl ex
      | Inr (msg1, Inl e) \<Rightarrow> Inr (msg1, [], Inl e)
      | Inr (msg1, Inr _) \<Rightarrow> Inr (msg1, [Stateless msg1 dest], tr msg1 dest))"

subsection \<open>Responses\<close>

text \<open>The endpoint a Via names: \<^verbatim>\<open>received\<close> before the host, \<^verbatim>\<open>rport\<close> (unless
  empty) before the port.\<close>

definition via_destination :: "osip_lib \<Rightarrow> osip_via \<Rightarrow> Endpoint" where
  "via_destination L v =
     (let host = (case param_gvalue L (via_params v) ''received'' of
                    Some h \<Rightarrow> h | None \<Rightarrow> or_empty (via_host v));
          p = (case param_gvalue L (via_params v) ''rport'' of
                 Some r \<Rightarrow> if r \<noteq> [] then to_port (atoi r)
                           else (case via_port v of Some q \<Rightarrow> to_port (atoi q) | None \<Rightarrow> 5060)
               | None \<Rightarrow> (case via_port v of Some q \<Rightarrow> to_port (atoi q) | None \<Rightarrow> 5060));
          tr = (case via_protocol v of
                  None \<Rightarrow> ''udp'' | Some pr \<Rightarrow> if lowercase pr = ''tcp'' then ''tcp'' else ''udp'')
      in \<lparr>ep_address = host, ep_port = p, ep_transport = tr\<rparr>)"

definition forwardResponse ::
  "osip_lib \<Rightarrow> osip_message \<Rightarrow> transport \<Rightarrow> osip_message \<times> action list \<times> unit result" where
  "forwardResponse L msg tr =
     (if viaCount msg < 1 then (msg, [], Inl (mk_error kSipTransportError ''No Via header in response'' []))
      else
        (let msg1 = removeTopVia msg in
         case m_vias msg1 of
           [] \<Rightarrow> (msg1, [], Inl (mk_error kSipTransportError ''No remaining Via header after removal'' []))
         | v # _ \<Rightarrow> (let dest = via_destination L v in (msg1, [Stateless msg1 dest], tr msg1 dest))))"

text \<open>\<open>sent\<close> is the result \<^verbatim>\<open>txn->sendResponse\<close> gives.\<close>

definition forwardResponseUpstream ::
  "osip_lib \<Rightarrow> osip_message \<Rightarrow> unit result \<Rightarrow> action list \<times> unit result" where
  "forwardResponseUpstream L response sent =
     (case clone L response of
        Inl e \<Rightarrow> ([], Inl e)
      | Inr upstream \<Rightarrow>
          ([Upstream (if 1 < viaCount upstream then removeTopVia upstream else upstream)], sent))"

subsection \<open>Path, Route and loops\<close>

definition usable_address :: "string \<Rightarrow> bool" where
  "usable_address a \<longleftrightarrow> a \<noteq> [] \<and> a \<noteq> ''0.0.0.0''"

definition lr_uri :: "proxy \<Rightarrow> string" where
  "lr_uri px = ''<sip:'' @ local_address px @ '':'' @ show_port (local_port px) @ '';lr>''"

definition buildPathHeader :: "proxy \<Rightarrow> string" where
  "buildPathHeader px = (if \<not> usable_address (local_address px) then [] else lr_uri px)"

definition addPathHeader :: "osip_lib \<Rightarrow> proxy \<Rightarrow> osip_message \<Rightarrow> osip_message" where
  "addPathHeader L px msg =
     (if buildPathHeader px = [] then msg else addHeader L ''Path'' (buildPathHeader px) msg)"

definition proxy_addRecordRoute :: "osip_lib \<Rightarrow> proxy \<Rightarrow> osip_message \<Rightarrow> osip_message" where
  "proxy_addRecordRoute L px msg =
     (if \<not> usable_address (local_address px) then msg else addRecordRoute L (lr_uri px) msg)"

definition processRouteHeaders :: "osip_lib \<Rightarrow> proxy \<Rightarrow> osip_message \<Rightarrow> osip_message \<times> bool" where
  "processRouteHeaders L px msg =
     (case routes L msg of
        [] \<Rightarrow> (msg, False)
      | top_route # _ \<Rightarrow>
          if route_points_to_endpoint L top_route
               \<lparr>ep_address = local_address px, ep_port = local_port px, ep_transport = ''udp''\<rparr> ''udp''
          then (removeTopRoute msg, True) else (msg, False))"

definition via_address :: "osip_via \<Rightarrow> string" where
  "via_address v = or_empty (via_host v) @ '':'' @ (case via_port v of Some p \<Rightarrow> p | None \<Rightarrow> ''5060'')"

definition isLoopDetected :: "proxy \<Rightarrow> osip_message \<Rightarrow> bool" where
  "isLoopDetected px msg =
     list_ex (\<lambda>v. via_address v = local_address px @ '':'' @ show_port (local_port px)) (m_vias msg)"

subsection \<open>CANCEL\<close>

record CancelForwardContext =
  cc_transport :: string
  cc_invite_branch :: string
  cc_local_address :: string
  cc_local_port :: port
  cc_decrement_max_forwards :: bool
  cc_process_route_headers :: bool

fun removeAllVias :: "nat \<Rightarrow> osip_message \<Rightarrow> osip_message" where
  "removeAllVias 0 msg = msg"
| "removeAllVias (Suc n) msg = (if 0 < viaCount msg then removeAllVias n (removeTopVia msg) else msg)"

definition buildForwardedCancel ::
  "osip_lib \<Rightarrow> proxy \<Rightarrow> string \<Rightarrow> osip_message \<Rightarrow> CancelForwardContext \<Rightarrow> std_exception + osip_message result" where
  "buildForwardedCancel L px fresh_branch incoming_cancel ctx =
     (case clone L incoming_cancel of
        Inl e \<Rightarrow> Inr (Inl e)
      | Inr f0 \<Rightarrow>
          (let f1 = (if cc_process_route_headers ctx then fst (processRouteHeaders L px f0) else f0);
               f2 = removeAllVias (viaCount f1) f1;
               f3 = (if cc_decrement_max_forwards ctx then
                       (case maxForwards L f2 of
                          Inl ex \<Rightarrow> Inl ex
                        | Inr mf \<Rightarrow> if mf < 0 then Inr (setMaxForwards L 70 f2) else decrementMaxForwards L f2)
                     else Inr f2)
           in case f3 of
                Inl ex \<Rightarrow> Inl ex
              | Inr f \<Rightarrow>
                  (let tr = (if cc_transport ctx = [] then ''udp'' else cc_transport ctx);
                       branch = (if cc_invite_branch ctx = [] then fresh_branch else cc_invite_branch ctx)
                   in Inr (Inr (addVia L (proxy_via tr (cc_local_address ctx) (cc_local_port ctx) branch) f)))))"

subsection \<open>Stateful forwarding\<close>

record ForwardOptions =
  fo_add_record_route :: bool
  fo_process_route_headers :: bool
  fo_detect_loop :: bool
  fo_on_response :: "(osip_message \<Rightarrow> osip_message) option"

definition upstream_error :: "osip_lib \<Rightarrow> string \<Rightarrow> osip_message \<Rightarrow> int \<Rightarrow> string \<Rightarrow> action list" where
  "upstream_error L tag request code reason =
     (case createResponse L tag request code reason of Inl _ \<Rightarrow> [] | Inr r \<Rightarrow> [Upstream r])"

text \<open>\<open>original\<close> is the request of the upstream transaction, \<open>send_result\<close> what
  \<^verbatim>\<open>SipStack::sendRequest\<close> returns.\<close>

definition forwardStateful ::
  "osip_lib \<Rightarrow> proxy \<Rightarrow> string \<Rightarrow> string \<Rightarrow> osip_message \<Rightarrow> (osip_message \<Rightarrow> unit result) \<Rightarrow>
     ForwardOptions \<Rightarrow> osip_message \<Rightarrow> Endpoint \<Rightarrow> std_exception + (action list \<times> unit result)" where
  "forwardStateful L px tag branch original send_result opts request dest =
     (if fo_detect_loop opts \<and> isLoopDetected px request then
        Inr (upstream_error L tag request 482 ''Loop Detected'', Inr ())
      else
        (let r1 = (if fo_process_route_headers opts then fst (processRouteHeaders L px request) else request);
             r2 = (if fo_add_record_route opts then proxy_addRecordRoute L px r1 else r1)
         in case prepareRequestForForward L px branch (ep_transport dest) r2 of
              Inl ex \<Rightarrow> Inl ex
            | Inr (r3, Inl e) \<Rightarrow>
                (case maxForwards L r3 of
                   Inl ex \<Rightarrow> Inl ex
                 | Inr mf \<Rightarrow>
                     Inr ((if mf = 0 then upstream_error L tag r3 483 ''Too Many Hops''
                           else upstream_error L tag r3 500 ''Internal Server Error''), Inl e))
            | Inr (r3, Inr _) \<Rightarrow>
                (case send_result r3 of
                   Inl e \<Rightarrow> Inr (Downstream r3 dest # upstream_error L tag original 500 ''Internal Server Error'', Inl e)
                 | Inr _ \<Rightarrow> Inr ([Downstream r3 dest], Inr ()))))"

definition forwardStateful_on_response ::
  "osip_lib \<Rightarrow> ForwardOptions \<Rightarrow> unit result \<Rightarrow> osip_message \<Rightarrow> action list" where
  "forwardStateful_on_response L opts sent response =
     (case clone L response of
        Inl _ \<Rightarrow> []
      | Inr copy \<Rightarrow>
          (let c = (case fo_on_response opts of None \<Rightarrow> copy | Some f \<Rightarrow> f copy)
           in fst (forwardResponseUpstream L c sent)))"

subsection \<open>Properties\<close>

text \<open>Adding a Record-Route header leaves the generic headers alone.\<close>

definition record_route_ok :: "osip_lib \<Rightarrow> bool" where
  "record_route_ok L \<longleftrightarrow> (\<forall>s m. m_headers (L_set_record_route L s m) = m_headers m)"

lemma demo_record_route_ok: "record_route_ok demo_lib"
  by (simp add: record_route_ok_def demo_lib_def)

text \<open>Adding a generic header leaves the Via headers alone.\<close>

definition set_header_ok :: "osip_lib \<Rightarrow> bool" where
  "set_header_ok L \<longleftrightarrow> (\<forall>n v m. m_vias (L_set_header L n v m) = m_vias m)"

lemma demo_set_header_ok: "set_header_ok demo_lib"
  by (simp add: set_header_ok_def demo_lib_def)

lemma maxForwards_vias:
  assumes "set_header_ok L"
  shows "m_vias (setMaxForwards L k m) = m_vias m"
    "decrementMaxForwards L m = Inr m' \<Longrightarrow> m_vias m' = m_vias m"
proof -
  show v: "m_vias (setMaxForwards L k m) = m_vias m" for k
    using assms by (auto simp: setMaxForwards_def addHeader_def set_header_ok_def split: option.split)
  show "decrementMaxForwards L m = Inr m' \<Longrightarrow> m_vias m' = m_vias m"
    using v by (auto simp: decrementMaxForwards_def split: sum.splits)
qed

lemma maxForwards_cong: "m_headers m = m_headers m' \<Longrightarrow> maxForwards L m = maxForwards L m'"
  by (simp add: maxForwards_def)

lemma headers_unchanged:
  "m_headers (addVia L v m) = m_headers m" "m_headers (fst (processRouteHeaders L px m)) = m_headers m"
  "record_route_ok L \<Longrightarrow> m_headers (proxy_addRecordRoute L px m) = m_headers m"
  by (auto simp: addVia_def processRouteHeaders_def removeTopRoute_def proxy_addRecordRoute_def addRecordRoute_def
      record_route_ok_def split: option.split list.split)

lemma prepare_spends_hop:
  assumes L: "header_lookup_ok L" and k: "maxForwards L msg = Inr k" "0 \<le> k" "k \<le> 2 ^ 31"
    and p: "prepareRequestForForward L px branch transport msg = Inr (msg', Inr u)"
  shows "0 < k" "maxForwards L msg' = Inr (k - 1)"
proof -
  show pos: "0 < k" using p k by (cases "k = 0") (simp_all add: prepareRequestForForward_def)
  with p k obtain m2 where d: "decrementMaxForwards L msg = Inr m2" and m': "m_headers msg' = m_headers m2"
    by (auto simp: prepareRequestForForward_def headers_unchanged Let_def split: sum.splits)
  have "maxForwards L m2 = Inr (k - 1)"
    using hop_decrements_max_forwards [OF L k(1) d k(3)] pos by simp
  with maxForwards_cong [OF m'] show "maxForwards L msg' = Inr (k - 1)" by simp
qed

text \<open>The same for any value of the header: without a hop count, or with a negative one, the request
  starts with 70 hops.\<close>

lemma prepare_spends_hop_or_starts:
  assumes L: "header_lookup_ok L" "set_header_appends L" and k: "maxForwards L msg = Inr k"
    and p: "prepareRequestForForward L px branch transport msg = Inr (msg', Inr u)"
  shows "k \<noteq> 0 \<and> maxForwards L msg' = Inr ((if k < 0 then 70 else k) - 1)"
proof (cases "k < 0")
  case True
  have s: "maxForwards L (setMaxForwards L 70 msg) = Inr 70" by (rule set_max_forwards_reads [OF L]) simp_all
  have "prepareRequestForForward L px branch transport (setMaxForwards L 70 msg) = Inr (msg', Inr u)"
    using p True k by (simp add: prepareRequestForForward_def s)
  from prepare_spends_hop [OF L(1) s _ _ this] True show ?thesis by simp
next
  case False
  have "k \<le> 2 ^ 31"
    using k stoi_range by (fastforce simp: maxForwards_def split: option.splits prod.splits)
  with prepare_spends_hop [OF L(1) k _ _ p] False show ?thesis by simp
qed

lemma upstream_error_no_downstream: "Downstream m d \<notin> set (upstream_error L tag req code reason)"
  by (auto simp: upstream_error_def split: sum.split)

text \<open>A request that is passed on was prepared for its destination.\<close>

lemma forwardStateful_prepared:
  assumes "forwardStateful L px tag branch original send_result opts request dest = Inr (acts, r)"
    and "Downstream m d \<in> set acts"
  obtains r0 u where "prepareRequestForForward L px branch (ep_transport dest) r0 = Inr (m, Inr u)" and "d = dest"
  using assms upstream_error_no_downstream
  by (auto simp: forwardStateful_def Let_def split: sum.splits prod.splits if_splits)

lemma prepare_with_hops:
  assumes "maxForwards L m = Inr k" and "0 < k"
  shows "\<exists>m'. prepareRequestForForward L px branch transport m = Inr (m', Inr ())"
proof -
  have "\<exists>m2. decrementMaxForwards L m = Inr m2" using assms by (simp add: decrementMaxForwards_def)
  with assms show ?thesis by (auto simp: prepareRequestForForward_def Let_def)
qed

text \<open>A request that is prepared and not seen as a loop is sent to its destination.\<close>

lemma forward_prepared:
  assumes "\<not> (fo_detect_loop opts \<and> isLoopDetected px request)"
    and "prepareRequestForForward L px branch (ep_transport dest)
      (if fo_add_record_route opts
       then proxy_addRecordRoute L px (if fo_process_route_headers opts then fst (processRouteHeaders L px request) else request)
       else if fo_process_route_headers opts then fst (processRouteHeaders L px request) else request) = Inr (m, Inr ())"
  obtains acts r where "forwardStateful L px tag branch original send_result opts request dest = Inr (acts, r)"
    and "Downstream m dest \<in> set acts"
  using assms by (cases "send_result m") (auto simp: forwardStateful_def Let_def)

text \<open>C33: A proxied request loses a hop at every proxy, and one without hops left goes no further:
  whatever the options and the outcome of sending, a request that stateful forwarding passes on
  did not have a Max-Forwards of zero, and carries one less than it had; a request without the header,
  or with a negative number in it, is given 70 hops and goes on with 69.\<close>

theorem forwarding_spends_a_hop:
  assumes "header_lookup_ok L" and "record_route_ok L" and "set_header_appends L"
    and "maxForwards L request = Inr k"
    and "forwardStateful L px tag branch original send_result opts request dest = Inr (acts, r)"
    and "Downstream m d \<in> set acts"
  shows "k \<noteq> 0 \<and> maxForwards L m = Inr ((if k < 0 then 70 else k) - 1)"
proof -
  let ?r1 = "if fo_process_route_headers opts then fst (processRouteHeaders L px request) else request"
  let ?r2 = "if fo_add_record_route opts then proxy_addRecordRoute L px ?r1 else ?r1"
  have mf: "maxForwards L ?r2 = Inr k"
    using assms(4) maxForwards_cong [of ?r2 request L] headers_unchanged(2) headers_unchanged(3) [OF assms(2)] by simp
  have "\<not> (fo_detect_loop opts \<and> isLoopDetected px request)"
    using assms(5,6) upstream_error_no_downstream by (auto simp: forwardStateful_def)
  with assms(5,6) obtain m0 u where "prepareRequestForForward L px branch (ep_transport dest) ?r2 = Inr (m0, Inr u)" "m = m0"
    using upstream_error_no_downstream
    by (auto simp: forwardStateful_def Let_def split: sum.splits prod.splits if_splits)
  with prepare_spends_hop_or_starts [OF assms(1,3) mf] show ?thesis by metis
qed

definition demo_proxy :: proxy where
  "demo_proxy = \<lparr>local_address = ''10.0.0.2'', local_port = 5062\<rparr>"

definition demo_options :: ForwardOptions where
  "demo_options = \<lparr>fo_add_record_route = False, fo_process_route_headers = False, fo_detect_loop = False,
     fo_on_response = None\<rparr>"

lemma demo_prepared:
  "\<exists>m. prepareRequestForForward demo_lib demo_proxy ''b'' ''udp'' demo_request = Inr (m, Inr ())"
proof -
  obtain m where "decrementMaxForwards demo_lib demo_request = Inr m"
    by (simp add: decrementMaxForwards_def demo_max_forwards)
  then show ?thesis by (simp add: prepareRequestForForward_def demo_max_forwards Let_def)
qed

definition demo_endless :: osip_message where
  "demo_endless = demo_request\<lparr>m_headers := []\<rparr>"

lemma demo_endless_max_forwards: "maxForwards demo_lib demo_endless = Inr (- 1)"
  using header_lookup_none [OF demo_lib_ok(1), of 0 "[]" "''max-forwards''"]
  by (simp add: maxForwards_def demo_endless_def)

lemma forwarding_spends_a_hop_witness:
  "(\<exists>acts m. forwardStateful demo_lib demo_proxy ''t'' ''b'' demo_request (\<lambda>m. Inr ()) demo_options demo_request
      default_endpoint = Inr (acts, Inr ()) \<and> Downstream m default_endpoint \<in> set acts \<and> maxForwards demo_lib m = Inr 69) \<and>
   (\<exists>acts m. forwardStateful demo_lib demo_proxy ''t'' ''b'' demo_endless (\<lambda>m. Inr ()) demo_options demo_endless
      default_endpoint = Inr (acts, Inr ()) \<and> Downstream m default_endpoint \<in> set acts \<and> maxForwards demo_lib m = Inr 69)"
proof -
  have f: "\<exists>m. forwardStateful demo_lib demo_proxy ''t'' ''b'' req (\<lambda>m. Inr ()) demo_options req
      default_endpoint = Inr ([Downstream m default_endpoint], Inr ())"
    if "\<exists>m. prepareRequestForForward demo_lib demo_proxy ''b'' ''udp'' req = Inr (m, Inr ())" for req
    using that by (auto simp: forwardStateful_def demo_options_def default_endpoint_def)
  have s: "maxForwards demo_lib (setMaxForwards demo_lib 70 demo_endless) = Inr 70"
    by (rule set_max_forwards_reads [OF demo_lib_ok(1) demo_set_header_appends]) simp_all
  then obtain m0 where "decrementMaxForwards demo_lib (setMaxForwards demo_lib 70 demo_endless) = Inr m0"
    by (simp add: decrementMaxForwards_def)
  then have "\<exists>m. prepareRequestForForward demo_lib demo_proxy ''b'' ''udp'' demo_endless = Inr (m, Inr ())"
    by (simp add: prepareRequestForForward_def demo_endless_max_forwards)
  from f [OF this] obtain m where m: "forwardStateful demo_lib demo_proxy ''t'' ''b'' demo_endless (\<lambda>m. Inr ())
      demo_options demo_endless default_endpoint = Inr ([Downstream m default_endpoint], Inr ())" by blast
  from f [OF demo_prepared] obtain m' where m': "forwardStateful demo_lib demo_proxy ''t'' ''b'' demo_request (\<lambda>m. Inr ())
      demo_options demo_request default_endpoint = Inr ([Downstream m' default_endpoint], Inr ())" by blast
  note hop = forwarding_spends_a_hop [OF demo_lib_ok(1) demo_record_route_ok demo_set_header_appends]
  from hop [OF demo_endless_max_forwards m] have "maxForwards demo_lib m = Inr 69" by simp
  moreover from hop [OF demo_max_forwards(1) m'] have "maxForwards demo_lib m' = Inr 69" by simp
  ultimately show ?thesis using m m' by (metis list.set_intros(1))
qed

text \<open>A response retraces the path of its request: when a proxy has added its Via to a request, any
  response the next element creates for what it received, passed upstream by the proxy, carries
  exactly the Via headers the request had before.\<close>

theorem response_retraces_the_via_path:
  assumes "clone_ok L" and "init_ok L" and "set_header_ok L" and "m_vias msg \<noteq> []"
    and "L_via_parse L (proxy_via (if transport = [] then ''udp'' else transport) (local_address px) (local_port px) branch) = Some v"
    and "prepareRequestForForward L px branch transport msg = Inr (fwd, Inr u)"
    and "createResponse L tag fwd code reason = Inr response"
  shows "\<exists>up. fst (forwardResponseUpstream L response sent) = [Upstream up] \<and> m_vias up = m_vias msg"
proof -
  from assms(6) obtain m1 where "m_vias m1 = m_vias msg" and
      f: "fwd = addVia L (proxy_via (if transport = [] then ''udp'' else transport) (local_address px) (local_port px) branch) m1"
    using maxForwards_vias [OF assms(3)]
    by (fastforce simp: prepareRequestForForward_def Let_def split: sum.splits if_splits)
  then have "m_vias fwd = v # m_vias msg" using assms(5) by (simp add: addVia_def)
  with createResponse_fields [OF assms(1,2,7)] have "m_vias response = v # m_vias msg" by simp
  with assms(1,4) show ?thesis
    by (simp add: forwardResponseUpstream_def clone_def clone_ok_def viaCount_def removeTopVia_def)
qed

lemma response_retraces_the_via_path_witness:
  "\<exists>up :: osip_message. m_vias up = m_vias demo_request"
proof -
  obtain m where m: "prepareRequestForForward demo_lib demo_proxy ''b'' ''udp'' demo_request = Inr (m, Inr ())"
    using demo_prepared by blast
  obtain r where r: "createResponse demo_lib ''t'' m 200 ''OK'' = Inr r"
    using demo_lib_ok(3) by (auto simp: createResponse_def create_def init_ok_def Let_def)
  have v: "L_via_parse demo_lib s = Some \<lparr>via_protocol = None, via_host = None, via_port = None,
      via_params = [\<lparr>gname = ''branch'', gvalue = Some (demo_via_branch s)\<rparr>], via_opaque = s\<rparr>" for s
    by (simp add: demo_lib_def)
  have "m_vias demo_request \<noteq> []" by (simp add: demo_request_def)
  from response_retraces_the_via_path [OF demo_lib_ok(2,3) demo_set_header_ok this v m r, of "Inr ()"] show ?thesis by blast
qed

end
