(* ===== verification/Bencode.thy ===== *)
theory Bencode
  imports Cpp_Std "HOL-Library.Char_ord" "HOL-Library.List_Lexorder"
begin

section \<open>The bencode codec of the rtpengine client (rtp/bencode.cpp)\<close>

text \<open>
  The parser is a cursor \<^verbatim>\<open>pos_\<close> into the data.  It is a \<^verbatim>\<open>size_t\<close>, so the
  additions wrap modulo \<open>2 ^ 64\<close>; because of that the recursion of the source need not end, and
  the model carries fuel: running out of it is \<^verbatim>\<open>Diverged\<close>.  A dictionary is a
  \<^verbatim>\<open>std::map\<close>, the list of its entries in increasing order of the keys.
\<close>

datatype BencodeValue =
    BStr string
  | BInt int
  | BList "BencodeValue list"
  | BDict "(string \<times> BencodeValue) list"

datatype bencode_error = Thrown std_exception | Diverged

subsection \<open>Encoding\<close>

definition encode_string :: "string \<Rightarrow> string" where
  "encode_string s = show_nat (length s) @ '':'' @ s"

fun bencode_encode :: "BencodeValue \<Rightarrow> string" where
  "bencode_encode (BStr s) = encode_string s"
| "bencode_encode (BInt i) = ''i'' @ show_int i @ ''e''"
| "bencode_encode (BList vs) = ''l'' @ concat (map bencode_encode vs) @ ''e''"
| "bencode_encode (BDict kvs) =
     ''d'' @ concat (map (\<lambda>kv. encode_string (fst kv) @ bencode_encode (snd kv)) kvs) @ ''e''"

subsection \<open>Decoding\<close>

text \<open>\<^verbatim>\<open>data_.find(c, pos_)\<close>.\<close>

definition find_from :: "string \<Rightarrow> char \<Rightarrow> nat \<Rightarrow> nat option" where
  "find_from data c pos = map_option (\<lambda>i. pos + i) (find_char (drop pos data) c)"

definition throw_runtime :: "string \<Rightarrow> bencode_error + 'a" where
  "throw_runtime msg = Inl (Thrown (runtime_error msg))"

definition parseString :: "string \<Rightarrow> nat \<Rightarrow> bencode_error + (BencodeValue \<times> nat)" where
  "parseString data pos =
     (case find_from data (CHR '':'') pos of
        None \<Rightarrow> throw_runtime ''Missing colon in bencode string''
      | Some colon_pos \<Rightarrow>
          (case stoul (substr data pos (colon_pos - pos)) of
             Inl ex \<Rightarrow> Inl (Thrown ex)
           | Inr len \<Rightarrow>
               (let pos1 = colon_pos + 1 in
                if length data < (pos1 + len) mod 2 ^ 64
                then throw_runtime ''String length exceeds data''
                else Inr (BStr (substr data pos1 len), (pos1 + len) mod 2 ^ 64))))"

definition parseInteger :: "string \<Rightarrow> nat \<Rightarrow> bencode_error + (BencodeValue \<times> nat)" where
  "parseInteger data pos0 =
     (let pos = pos0 + 1 in
      case find_from data (CHR ''e'') pos of
        None \<Rightarrow> throw_runtime (''Missing '' @ [CHR 0x27, CHR ''e'', CHR 0x27] @ '' in bencode integer'')
      | Some end_pos \<Rightarrow>
          (case stoll (substr data pos (end_pos - pos)) of
             Inl ex \<Rightarrow> Inl (Thrown ex)
           | Inr num \<Rightarrow> Inr (BInt num, end_pos + 1)))"

fun dict_put :: "string \<Rightarrow> 'v \<Rightarrow> (string \<times> 'v) list \<Rightarrow> (string \<times> 'v) list" where
  "dict_put k v [] = [(k, v)]"
| "dict_put k v ((k', v') # d) =
     (if k = k' then (k, v) # d
      else if k < k' then (k, v) # (k', v') # d
      else (k', v') # dict_put k v d)"

fun parse :: "nat \<Rightarrow> string \<Rightarrow> nat \<Rightarrow> bencode_error + (BencodeValue \<times> nat)"
  and parseList :: "nat \<Rightarrow> string \<Rightarrow> nat \<Rightarrow> BencodeValue list \<Rightarrow> bencode_error + (BencodeValue \<times> nat)"
  and parseDict :: "nat \<Rightarrow> string \<Rightarrow> nat \<Rightarrow> (string \<times> BencodeValue) list \<Rightarrow>
    bencode_error + (BencodeValue \<times> nat)" where
  "parse 0 data pos = Inl Diverged"
| "parse (Suc fuel) data pos =
     (if length data \<le> pos then throw_runtime ''Unexpected end of bencode data''
      else (let c = data ! pos in
        if c = CHR ''i'' then parseInteger data pos
        else if c = CHR ''l'' then parseList fuel data (pos + 1) []
        else if c = CHR ''d'' then parseDict fuel data (pos + 1) []
        else if is_digit c then parseString data pos
        else throw_runtime (''Unexpected character in bencode: '' @ [CHR 0x27, c, CHR 0x27])))"
| "parseList 0 data pos acc = Inl Diverged"
| "parseList (Suc fuel) data pos acc =
     (if length data \<le> pos then throw_runtime (''Missing '' @ [CHR 0x27, CHR ''e'', CHR 0x27] @ '' in bencode list'')
      else if data ! pos = CHR ''e'' then Inr (BList acc, pos + 1)
      else (case parse fuel data pos of
              Inl e \<Rightarrow> Inl e
            | Inr (v, pos') \<Rightarrow> parseList fuel data pos' (acc @ [v])))"
| "parseDict 0 data pos acc = Inl Diverged"
| "parseDict (Suc fuel) data pos acc =
     (if length data \<le> pos then throw_runtime (''Missing '' @ [CHR 0x27, CHR ''e'', CHR 0x27] @ '' in bencode dict'')
      else if data ! pos = CHR ''e'' then Inr (BDict acc, pos + 1)
      else (case parse fuel data pos of
              Inl e \<Rightarrow> Inl e
            | Inr (BStr key, pos1) \<Rightarrow>
                (case parse fuel data pos1 of
                   Inl e \<Rightarrow> Inl e
                 | Inr (v, pos2) \<Rightarrow> parseDict fuel data pos2 (dict_put key v acc))
            | Inr (_, _) \<Rightarrow> throw_runtime ''Dict key must be a string''))"

text \<open>The decoder, with the fuel left to the caller; a value ends the parse even when data
  follows it.\<close>

definition bencode_decode :: "nat \<Rightarrow> string \<Rightarrow> bencode_error + BencodeValue" where
  "bencode_decode fuel data = map_sum id fst (parse fuel data 0)"

subsection \<open>Decoding what was encoded\<close>

fun bwf :: "BencodeValue \<Rightarrow> bool" where
  "bwf (BStr s) = True"
| "bwf (BInt i) = (- (2 ^ 63) \<le> i \<and> i < 2 ^ 63)"
| "bwf (BList vs) = list_all bwf vs"
| "bwf (BDict kvs) = (sorted_wrt (<) (map fst kvs) \<and> list_all (\<lambda>kv. bwf (snd kv)) kvs)"

lemma find_from_append:
  "c \<notin> set t \<Longrightarrow> find_from (pre @ t @ c # post) c (length pre) = Some (length pre + length t)"
  by (simp add: find_from_def find_char_append)

lemma substr_append [simp]: "substr (pre @ t @ post) (length pre) (length t) = t"
  by (simp add: substr_def)

lemma colon_not_digit: "\<not> is_digit (CHR '':'')" and e_not_digit: "\<not> is_digit (CHR ''e'')"
  by (simp_all add: is_digit_def char_code_def)

lemma parseString_encode:
  assumes d: "data = pre @ encode_string s @ post" and "length data < 2 ^ 64"
  shows "parseString data (length pre) = Inr (BStr s, length pre + length (encode_string s))"
proof -
  let ?n = "show_nat (length s)"
  have data: "data = pre @ ?n @ CHR '':'' # s @ post" by (simp add: d encode_string_def)
  have "CHR '':'' \<notin> set ?n" using show_nat_digits colon_not_digit by blast
  then have 1: "find_from data (CHR '':'') (length pre) = Some (length pre + length ?n)"
    unfolding data by (rule find_from_append)
  have 2: "substr data (length pre) (length ?n) = ?n" unfolding data by (rule substr_append)
  have "length s < 2 ^ 64" using assms(2) data by simp
  then have 3: "stoul ?n = Inr (length s)" by (rule stoul_show_nat)
  let ?p = "length pre + length ?n + 1"
  have len: "?p + length s \<le> length data" using data by simp
  then have 4: "(?p + length s) mod 2 ^ 64 = ?p + length s" using assms(2) by simp
  have 5: "substr data ?p (length s) = s"
    using substr_append [of "pre @ ?n @ '':''" s post] by (simp add: data)
  show ?thesis
    using len by (simp only: parseString_def 1 2 3 option.case sum.case Let_def
        add_diff_cancel_left' 4 5) (simp add: encode_string_def)
qed

lemma parseInteger_encode:
  assumes d: "data = pre @ (''i'' @ show_int i @ ''e'') @ post" and "- (2 ^ 63) \<le> i" "i < 2 ^ 63"
  shows "parseInteger data (length pre) = Inr (BInt i, length pre + length (''i'' @ show_int i @ ''e''))"
proof -
  let ?t = "show_int i"
  have data: "data = (pre @ ''i'') @ ?t @ CHR ''e'' # post" by (simp add: d)
  have "CHR ''e'' \<notin> set ?t" using show_int_chars e_not_digit by fastforce
  then have 1: "find_from data (CHR ''e'') (length (pre @ ''i'')) = Some (length (pre @ ''i'') + length ?t)"
    unfolding data by (rule find_from_append)
  have 2: "substr data (length (pre @ ''i'')) (length ?t) = ?t"
    unfolding data by (rule substr_append)
  show ?thesis
    using 1 2 stoll_show_int [OF assms(2,3)] by (simp add: parseInteger_def)
qed

lemma dict_put_append:
  "list_all (\<lambda>kv. fst kv < k) d \<Longrightarrow> dict_put k v d = d @ [(k, v)]"
  by (induction k v d rule: dict_put.induct) auto

lemma encode_string_length: "2 \<le> length (encode_string s)"
  by (cases "show_nat (length s)") (auto simp: encode_string_def)

lemma bencode_length: "2 \<le> length (bencode_encode v)"
  by (cases v) (simp_all add: encode_string_length)

lemma first_char_string:
  "\<exists>c. (pre @ encode_string s @ post) ! length pre = c \<and> is_digit c"
  using hd_show_nat_digit [of "length s"]
  by (cases "show_nat (length s)") (auto simp: encode_string_def nth_append)

lemma parse_string_encode:
  assumes d: "data = pre @ encode_string s @ post" and "length data < 2 ^ 64" and "0 < fuel"
  shows "parse fuel data (length pre) = Inr (BStr s, length pre + length (encode_string s))"
proof -
  obtain f where f: "fuel = Suc f" using assms(3) by (cases fuel) auto
  have dig: "is_digit (data ! length pre)" using first_char_string [of pre s post] d by simp
  then have ne: "data ! length pre \<noteq> CHR ''i''" "data ! length pre \<noteq> CHR ''l''"
    "data ! length pre \<noteq> CHR ''d''"
    by (auto simp: is_digit_def char_code_def)
  have "length pre < length data"
    using encode_string_length [of s] d by (cases "encode_string s") auto
  with dig ne parseString_encode [OF assms(1,2)] f show ?thesis by (simp add: Let_def)
qed

lemma parseList_encode:
  assumes "\<And>v pre post fuel. v \<in> set vs \<Longrightarrow> data = pre @ bencode_encode v @ post \<Longrightarrow>
      2 * length (bencode_encode v) \<le> fuel \<Longrightarrow>
      parse fuel data (length pre) = Inr (v, length pre + length (bencode_encode v))"
    and not_e: "\<And>v. v \<in> set vs \<Longrightarrow> hd (bencode_encode v) \<noteq> CHR ''e''"
    and "data = pre @ concat (map bencode_encode vs) @ ''e'' @ post"
    and "2 * length (concat (map bencode_encode vs)) + 1 \<le> fuel"
  shows "parseList fuel data (length pre) acc =
    Inr (BList (acc @ vs), length pre + length (concat (map bencode_encode vs)) + 1)"
  using assms
proof (induction vs arbitrary: pre fuel acc)
  case Nil
  then show ?case by (cases fuel) (auto simp: nth_append)
next
  case (Cons v vs)
  obtain f where f: "fuel = Suc f" using Cons.prems(4) by (cases fuel) auto
  let ?e = "bencode_encode v" and ?r = "concat (map bencode_encode vs)"
  have l: "2 \<le> length ?e" by (rule bencode_length)
  then obtain c t where ct: "?e = c # t" by (cases ?e) auto
  have "data ! length pre = c" using Cons.prems(3) ct by (simp add: nth_append)
  moreover have "c \<noteq> CHR ''e''" using Cons.prems(2) [of v] ct by simp
  moreover have "length pre < length data" using Cons.prems(3) ct by simp
  moreover have "parse f data (length pre) = Inr (v, length (pre @ ?e))"
    using Cons.prems(1) [of v pre "?r @ ''e'' @ post" f] Cons.prems(3,4) f by simp
  moreover have "parseList f data (length (pre @ ?e)) (acc @ [v]) =
      Inr (BList ((acc @ [v]) @ vs), length (pre @ ?e) + length ?r + 1)"
  proof (rule Cons.IH)
    show "2 * length ?r + 1 \<le> f" using Cons.prems(4) f l by simp
  qed (use Cons.prems in auto)
  ultimately show ?case using f by simp
qed

lemma parseDict_encode:
  fixes kvs :: "(string \<times> BencodeValue) list"
  defines "enc \<equiv> \<lambda>kv. encode_string (fst kv) @ bencode_encode (snd kv)"
  assumes "\<And>kv pre post fuel. kv \<in> set kvs \<Longrightarrow> data = pre @ bencode_encode (snd kv) @ post \<Longrightarrow>
      2 * length (bencode_encode (snd kv)) \<le> fuel \<Longrightarrow>
      parse fuel data (length pre) = Inr (snd kv, length pre + length (bencode_encode (snd kv)))"
    and "data = pre @ concat (map enc kvs) @ ''e'' @ post" and "length data < 2 ^ 64"
    and "2 * length (concat (map enc kvs)) + 1 \<le> fuel"
    and "sorted_wrt (<) (map fst (acc @ kvs))"
  shows "parseDict fuel data (length pre) acc =
    Inr (BDict (acc @ kvs), length pre + length (concat (map enc kvs)) + 1)"
  using assms(2-)
proof (induction kvs arbitrary: pre fuel acc)
  case Nil
  then show ?case by (cases fuel) (auto simp: nth_append)
next
  case (Cons kv kvs)
  obtain k v where kv: "kv = (k, v)" by (cases kv)
  obtain f where f: "fuel = Suc f" using Cons.prems(4) by (cases fuel) auto
  let ?k = "encode_string k" and ?e = "bencode_encode v" and ?r = "concat (map enc kvs)"
  have enc: "enc kv = ?k @ ?e" by (simp add: enc_def kv)
  have l: "2 \<le> length ?e" "2 \<le> length ?k" by (simp_all add: bencode_length encode_string_length)
  have data: "data = pre @ ?k @ (?e @ ?r @ ''e'' @ post)" using Cons.prems(2) enc by simp
  have "is_digit (data ! length pre)"
    using first_char_string [of pre k "?e @ ?r @ ''e'' @ post"] data by simp
  then have ne: "data ! length pre \<noteq> CHR ''e''" using e_not_digit by auto
  have fuel: "2 * (length ?k + length ?e + length ?r) \<le> f" using Cons.prems(4) f enc by simp
  have key: "parse f data (length pre) = Inr (BStr k, length (pre @ ?k))"
    using parse_string_encode [OF data Cons.prems(3), of f] fuel l by simp
  have val: "parse f data (length (pre @ ?k)) = Inr (v, length (pre @ ?k @ ?e))"
    using Cons.prems(1) [of kv "pre @ ?k" "?r @ ''e'' @ post" f] data fuel kv by simp
  have "list_all (\<lambda>kv. fst kv < k) acc"
    using Cons.prems(5) kv by (auto simp: sorted_wrt_append list_all_iff)
  then have put: "dict_put k v acc = acc @ [kv]" by (simp add: dict_put_append kv)
  have "parseDict f data (length (pre @ ?k @ ?e)) (acc @ [kv]) =
      Inr (BDict ((acc @ [kv]) @ kvs), length (pre @ ?k @ ?e) + length ?r + 1)"
  proof (rule Cons.IH)
    show "2 * length ?r + 1 \<le> f" using fuel l by simp
  qed (use Cons.prems enc in auto)
  moreover have "length pre < length data" using data l by simp
  ultimately show ?case using f ne key val put enc by simp
qed

lemma encode_not_e: "hd (bencode_encode v) \<noteq> CHR ''e''"
proof (cases v)
  case (BStr s)
  then show ?thesis
    using hd_show_nat_digit [of "length s"] e_not_digit by (auto simp: encode_string_def)
qed simp_all

lemma parse_encode:
  assumes "bwf v" and "data = pre @ bencode_encode v @ post" and "length data < 2 ^ 64"
    and "2 * length (bencode_encode v) \<le> fuel"
  shows "parse fuel data (length pre) = Inr (v, length pre + length (bencode_encode v))"
  using assms
proof (induction v arbitrary: pre post fuel)
  case (BStr s)
  then show ?case using parse_string_encode [of data pre s post fuel] encode_string_length [of s]
    by (cases fuel) auto
next
  case (BInt i)
  then obtain f where f: "fuel = Suc f" by (cases fuel) auto
  with BInt parseInteger_encode [of data pre i post] show ?case by (simp add: Let_def nth_append)
next
  case (BList vs)
  then obtain f where f: "fuel = Suc f" by (cases fuel) auto
  let ?b = "concat (map bencode_encode vs)"
  have "parseList f data (length (pre @ ''l'')) [] =
      Inr (BList ([] @ vs), length (pre @ ''l'') + length ?b + 1)"
  proof (rule parseList_encode)
    fix v pre' post' fuel'
    assume "v \<in> set vs" "data = pre' @ bencode_encode v @ post'"
      "2 * length (bencode_encode v) \<le> fuel'"
    then show "parse fuel' data (length pre') = Inr (v, length pre' + length (bencode_encode v))"
      using BList.IH [of v pre' post' fuel'] BList.prems(1,3) by (simp add: list_all_iff)
  qed (use BList.prems f encode_not_e in auto)
  with f BList.prems show ?case by (simp add: Let_def nth_append)
next
  case (BDict kvs)
  then obtain f where f: "fuel = Suc f" by (cases fuel) auto
  let ?b = "concat (map (\<lambda>kv. encode_string (fst kv) @ bencode_encode (snd kv)) kvs)"
  have "parseDict f data (length (pre @ ''d'')) [] =
      Inr (BDict ([] @ kvs), length (pre @ ''d'') + length ?b + 1)"
  proof (rule parseDict_encode)
    fix kv pre' post' fuel'
    assume kv: "kv \<in> set kvs" "data = pre' @ bencode_encode (snd kv) @ post'"
      "2 * length (bencode_encode (snd kv)) \<le> fuel'"
    have "snd kv \<in> Basic_BNFs.snds kv" by (cases kv) simp
    moreover have "bwf (snd kv)" using BDict.prems(1) kv(1) by (auto simp: list_all_iff)
    ultimately show "parse fuel' data (length pre') =
        Inr (snd kv, length pre' + length (bencode_encode (snd kv)))"
      using BDict.IH [OF kv(1), of "snd kv" pre' post' fuel'] kv(2,3) BDict.prems(3) by simp
  qed (use BDict.prems f in auto)
  with f BDict.prems show ?case by (simp add: Let_def nth_append)
qed

subsection \<open>When the decoder ends\<close>

text \<open>Adding a declared string length to the cursor does not wrap: a string may start at
  every digit, its length is what \<open>std::stoul\<close> reads between that digit and the next
  colon, and the string would end behind the colon by that length.\<close>

definition no_wrap :: "string \<Rightarrow> bool" where
  "no_wrap data \<longleftrightarrow>
     (\<forall>pos \<in> set [0..<length data]. is_digit (data ! pos) \<longrightarrow>
        (case find_from data (CHR '':'') pos of
           None \<Rightarrow> True
         | Some c \<Rightarrow>
             (case stoul (substr data pos (c - pos)) of
                Inl ex \<Rightarrow> True
              | Inr len \<Rightarrow> c + 1 + len < 2 ^ 64)))"

lemma find_from_bound: "find_from data c pos = Some i \<Longrightarrow> pos \<le> i \<and> i < length data"
  by (auto simp: find_from_def dest!: find_char_Some)

lemma parseString_progress:
  assumes "no_wrap data" "pos < length data" "is_digit (data ! pos)"
    and "parseString data pos = Inr (v, pos')"
  shows "pos < pos' \<and> pos' \<le> length data"
proof -
  from assms(4) obtain c len where c: "find_from data (CHR '':'') pos = Some c"
    and len: "stoul (substr data pos (c - pos)) = Inr len"
    by (auto simp: parseString_def throw_runtime_def split: option.splits sum.splits)
  have "pos \<le> c" "c < length data" using find_from_bound [OF c] by auto
  moreover have "c + 1 + len < 2 ^ 64"
    using assms(1-3) c len by (fastforce simp: no_wrap_def)
  then have "(c + 1 + len) mod 2 ^ 64 = c + 1 + len" by simp
  ultimately show ?thesis
    using assms(4) c len
    by (simp add: parseString_def throw_runtime_def split: if_splits)
qed

lemma parseInteger_progress:
  assumes "parseInteger data pos = Inr (v, pos')"
  shows "pos < pos' \<and> pos' \<le> length data"
  using assms find_from_bound [of data "CHR ''e''" "pos + 1"]
  by (auto simp: parseInteger_def throw_runtime_def split: option.splits sum.splits)

lemma not_diverged [simp]:
  "parseString data pos \<noteq> Inl Diverged" "parseInteger data pos \<noteq> Inl Diverged"
  "throw_runtime s \<noteq> Inl Diverged" "throw_runtime s \<noteq> Inr x"
  by (auto simp: parseString_def parseInteger_def throw_runtime_def Let_def
      split: option.splits sum.splits)

lemma parse_progress:
  assumes "no_wrap data"
  shows "parse fuel data pos = Inr (v, pos') \<longrightarrow> pos < pos' \<and> pos' \<le> length data"
    and "parseList fuel data pos vs = Inr (v, pos') \<longrightarrow> pos < pos' \<and> pos' \<le> length data"
    and "parseDict fuel data pos kvs = Inr (v, pos') \<longrightarrow> pos < pos' \<and> pos' \<le> length data"
proof (induction fuel arbitrary: pos v pos' vs kvs)
  case (Suc fuel)
  {
    case 1
    show ?case
      using Suc.IH(2) [where pos = "pos + 1" and v = v and pos' = pos' and vs = "[]"]
        Suc.IH(3) [where pos = "pos + 1" and v = v and pos' = pos' and kvs = "[]"]
        parseString_progress [OF assms, of pos v pos'] parseInteger_progress [of data pos v pos']
      by (auto simp: Let_def)
  next
    case 2
    show ?case
    proof (cases "parse fuel data pos")
      case (Inr r)
      then obtain w q where r: "parse fuel data pos = Inr (w, q)" by (cases r) auto
      then show ?thesis
        using Suc.IH(1) [where pos = pos and v = w and pos' = q]
          Suc.IH(2) [where pos = q and v = v and pos' = pos' and vs = "vs @ [w]"]
        by auto
    qed simp
  next
    case 3
    show ?case
    proof (cases "parse fuel data pos")
      case (Inr r)
      then obtain w q where r: "parse fuel data pos = Inr (w, q)" by (cases r) auto
      show ?thesis
      proof (cases "parse fuel data q")
        case (Inr r2)
        then obtain w2 q2 where r2: "parse fuel data q = Inr (w2, q2)" by (cases r2) auto
        show ?thesis
          using Suc.IH(1) [where pos = pos and v = w and pos' = q] r r2
            Suc.IH(1) [where pos = q and v = w2 and pos' = q2]
            Suc.IH(3) [where pos = q2 and v = v and pos' = pos' and
              kvs = "dict_put (case w of BStr k \<Rightarrow> k | _ \<Rightarrow> []) w2 kvs"]
          by (cases w) auto
      qed (use r in \<open>cases w; auto\<close>)
    qed simp
  }
qed simp_all

lemma parse_ends:
  assumes "no_wrap data"
  shows "2 * (length data - pos) + 1 \<le> fuel \<longrightarrow> parse fuel data pos \<noteq> Inl Diverged"
    and "2 * (length data - pos) + 2 \<le> fuel \<longrightarrow> parseList fuel data pos vs \<noteq> Inl Diverged"
    and "2 * (length data - pos) + 2 \<le> fuel \<longrightarrow> parseDict fuel data pos kvs \<noteq> Inl Diverged"
proof (induction fuel arbitrary: pos vs kvs)
  case (Suc fuel)
  {
    case 1
    show ?case
      using Suc.IH(2) [of "pos + 1"] Suc.IH(3) [of "pos + 1"] by (auto simp: Let_def)
  next
    case 2
    show ?case
    proof (cases "parse fuel data pos")
      case (Inl e)
      then show ?thesis using Suc.IH(1) [of pos] by auto
    next
      case (Inr r)
      then obtain w q where r: "parse fuel data pos = Inr (w, q)" by (cases r) auto
      then have "pos < q" "q \<le> length data" using parse_progress(1) [OF assms] by blast+
      then show ?thesis using r Suc.IH(2) [of q] by auto
    qed
  next
    case 3
    show ?case
    proof (cases "parse fuel data pos")
      case (Inl e)
      then show ?thesis using Suc.IH(1) [of pos] by auto
    next
      case (Inr r)
      then obtain w q where r: "parse fuel data pos = Inr (w, q)" by (cases r) auto
      then have q: "pos < q" "q \<le> length data" using parse_progress(1) [OF assms] by blast+
      show ?thesis
      proof (cases "parse fuel data q")
        case (Inl e)
        then show ?thesis using Suc.IH(1) [of q] q r by (cases w) auto
      next
        case (Inr r2)
        then obtain w2 q2 where r2: "parse fuel data q = Inr (w2, q2)" by (cases r2) auto
        then have "q < q2" "q2 \<le> length data" using parse_progress(1) [OF assms] by blast+
        then show ?thesis using r r2 q Suc.IH(3) [of q2] by (cases w) auto
      qed
    qed
  }
qed simp_all

lemma nat_of_digits_less: "\<forall>c \<in> set s. is_digit c \<Longrightarrow> nat_of_digits 0 s < 10 ^ length s"
proof (induction s rule: rev_induct)
  case (snoc c s)
  have "digit_val c < 10" using snoc.prems by (auto simp: is_digit_def digit_val_def Let_def)
  with snoc show ?case by (simp add: nat_of_digits_append)
qed simp

lemma stoul_InrD: "stoul s = Inr n \<Longrightarrow> \<exists>neg m. scan_number s = Some (neg, m) \<and> (\<not> neg \<longrightarrow> n = m)"
proof (cases "scan_number s")
  case None
  then show "stoul s = Inr n \<Longrightarrow> ?thesis" by (simp add: stoul_def)
next
  case (Some p)
  then obtain neg m where p: "scan_number s = Some (neg, m)" by (cases p) simp
  show "stoul s = Inr n \<Longrightarrow> ?thesis"
  proof (cases neg)
    case True
    with p show ?thesis by blast
  next
    case False
    then show "stoul s = Inr n \<Longrightarrow> ?thesis" using p by (simp add: stoul_def split: if_splits) blast
  qed
qed

lemma scan_number_less:
  assumes m: "scan_number (d # s) = Some (neg, m)" and d: "is_digit d"
  shows "\<not> neg \<and> m < 10 ^ length (d # s)"
proof -
  have c: "\<not> is_space d"
    using d by (simp add: is_digit_def is_space_def Let_def)
  have "d \<noteq> CHR ''-''" "d \<noteq> CHR ''+''"
    using d by (auto simp: is_digit_def char_code_def)
  with c have c: "\<not> is_space d" "d \<noteq> CHR ''-''" "d \<noteq> CHR ''+''" by simp_all
  then have neg: "\<not> neg" and "m = nat_of_digits 0 (takeWhile is_digit (d # s))"
    using m d by (auto simp: scan_number_def Let_def split: if_splits)
  then have "m < 10 ^ length (takeWhile is_digit (d # s))"
    by (metis nat_of_digits_less set_takeWhileD)
  also have "(10::nat) ^ length (takeWhile is_digit (d # s)) \<le> 10 ^ length (d # s)"
    by (rule power_increasing) (simp_all add: length_takeWhile_le)
  finally show ?thesis using neg by simp
qed

lemma stoul_less: "stoul (d # s) = Inr n \<Longrightarrow> is_digit d \<Longrightarrow> n < 10 ^ length (d # s)"
  using stoul_InrD scan_number_less by blast

lemma no_wrap_short:
  assumes "length data \<le> 18"
  shows "no_wrap data"
proof -
  have "c + 1 + len < 2 ^ 64"
    if pos: "pos < length data" "is_digit (data ! pos)"
      and c: "find_from data (CHR '':'') pos = Some c"
      and len: "stoul (substr data pos (c - pos)) = Inr len" for pos c len
  proof -
    have b: "pos \<le> c" "c < length data" using find_from_bound [OF c] by auto
    have "data ! c = CHR '':''" using c by (auto simp: find_from_def nth_append dest!: find_char_Some)
    then have "c \<noteq> pos" using pos(2) colon_not_digit by auto
    with b have "substr data pos (c - pos) =
        data ! pos # take (c - pos - 1) (drop (Suc pos) data)"
      by (cases "c - pos") (simp_all add: substr_def Cons_nth_drop_Suc [symmetric])
    with len have "len < 10 ^ length (substr data pos (c - pos))"
      using stoul_less pos(2) by metis
    also have "\<dots> \<le> 10 ^ 18" by (rule power_increasing) (use assms in \<open>auto simp: substr_def\<close>)
    finally show ?thesis using b assms by simp
  qed
  then show ?thesis by (auto simp: no_wrap_def split: option.splits sum.splits)
qed

subsection \<open>Properties\<close>

text \<open>C10: Decoding the encoding of a value gives that value back, whatever bytes follow it in the
  buffer: the integers fit 64 bits, the dictionary keys are in map order, the buffer is smaller
  than the address space, and fuel of twice the encoded length is enough.\<close>

theorem bencode_roundtrip:
  assumes "bwf v" and "length (bencode_encode v @ post) < 2 ^ 64"
    and "2 * length (bencode_encode v) \<le> fuel"
  shows "bencode_decode fuel (bencode_encode v @ post) = Inr v"
  using parse_encode [OF assms(1) _ assms(2,3), of "[]" post] by (simp add: bencode_decode_def)

definition demo_command :: BencodeValue where
  "demo_command = BDict [(''call-id'', BStr ''x1''), (''flags'', BList [BStr ''a'', BInt (-7)])]"

theorem bencode_roundtrip_witness:
  "bencode_decode 200 (bencode_encode demo_command @ ''zz'') = Inr demo_command"
proof (rule bencode_roundtrip)
  show "bwf demo_command" by (simp add: demo_command_def)
  have l: "length (bencode_encode demo_command) = 31"
    by (simp add: demo_command_def encode_string_def show_int_def show_nat.simps)
  show "length (bencode_encode demo_command @ ''zz'') < 2 ^ 64" by (simp add: l)
  show "2 * length (bencode_encode demo_command) \<le> 200" by (simp add: l)
qed

text \<open>C11: On data in which no declared string length can wrap the cursor, decoding ends (with a
  value or an exception); fuel of twice the length of the data plus one is always enough.\<close>

theorem bencode_decode_ends:
  assumes "no_wrap data" and "2 * length data + 1 \<le> fuel"
  shows "bencode_decode fuel data \<noteq> Inl Diverged"
  using parse_ends(1) [OF assms(1), of 0 fuel] assms(2)
  by (cases "parse fuel data 0") (auto simp: bencode_decode_def)

theorem bencode_decode_ends_witness: "bencode_decode 27 ''l3:abci-1e2:e'' \<noteq> Inl Diverged"
  by (rule bencode_decode_ends) (auto intro: no_wrap_short)

text \<open>There is a 22 byte reply on which the decoder never ends: the declared string length
  makes the cursor wrap back to the start of the same string, so the list loop reads it again and
  again, whatever the fuel.\<close>

theorem bencode_decode_diverges:
  "bencode_decode fuel ''l18446744073709551595:'' = Inl Diverged"
proof -
  let ?d = "''l18446744073709551595:''"
  have s: "parseString ?d 1 = Inr (BStr [], 1)"
    by (simp add: parseString_def find_from_def find_char_def substr_def stoul_def scan_number_def
        is_space_def is_digit_def char_code_def digit_val_def Let_def)
  have c: "?d ! 1 = CHR ''1''" "length ?d = 22" "?d ! 0 = CHR ''l''" by simp_all
  have dig: "is_digit (CHR ''1'')" by (simp add: is_digit_def char_code_def)
  have p: "parse f ?d 1 = Inl Diverged \<or> parse f ?d 1 = Inr (BStr [], 1)" for f
    by (cases f) (simp_all only: parse.simps c s dig Let_def, simp_all)
  have "parseList f ?d 1 acc = Inl Diverged" for f acc
  proof (induction f arbitrary: acc)
    case (Suc f)
    have "\<not> length ?d \<le> 1" "?d ! 1 \<noteq> CHR ''e''" by simp_all
    then show ?case using p [of f] Suc by (elim disjE) (simp_all only: parseList.simps, simp_all)
  qed (simp only: parseList.simps)
  then have "parse f ?d 0 = Inl Diverged" for f
    by (cases f) (simp_all only: parse.simps c Let_def, simp_all)
  then show ?thesis by (simp add: bencode_decode_def)
qed

end
