(* ===== verification/Media_Session.thy ===== *)
theory Media_Session
  imports Umap
begin

section \<open>Media sessions (rtp/media_session.cpp)\<close>

text \<open>
  The state of \<^verbatim>\<open>MediaSessionManager\<close> is the hash table from dialog keys to session
  states; every operation holds the mutex and is one atomic step.  An iterator is the key it
  points to, with \<^theory_text>\<open>None\<close> for \<^verbatim>\<open>end()\<close>.
\<close>

record MediaSession =
  ms_call_id :: string
  ms_from_tag :: string
  ms_to_tag :: string

record MediaSessionKey =
  mk_call_id :: string
  mk_from_tag :: string
  mk_to_tag :: string

datatype MediaSessionLifecycle = kEarly | kEstablished | kTerminating

record MediaSessionState =
  session :: MediaSession
  rx_session_id :: string
  caller_sdp :: string
  callee_sdp :: string
  created :: time_point
  qos_active :: bool
  lifecycle :: MediaSessionLifecycle

record InviteResponseMediaUpdate =
  iu_key :: MediaSessionKey
  iu_session :: MediaSession

record MediaTerminationPlan =
  tp_key :: MediaSessionKey
  tp_session :: MediaSession
  tp_rx_session_id :: string
  tp_qos_active :: bool

type_synonym sessions = "(MediaSessionKey, MediaSessionState) umap"

subsection \<open>Creation and lookup\<close>

definition session_of_key :: "MediaSessionKey \<Rightarrow> MediaSession" where
  "session_of_key k = \<lparr>ms_call_id = mk_call_id k, ms_from_tag = mk_from_tag k, ms_to_tag = mk_to_tag k\<rparr>"

definition createSession :: "time_point \<Rightarrow> MediaSessionKey \<Rightarrow> sessions \<Rightarrow> sessions \<times> MediaSession" where
  "createSession now k m =
     (um_put k \<lparr>session = session_of_key k, rx_session_id = [], caller_sdp = [], callee_sdp = [],
        created = now, qos_active = False, lifecycle = kEarly\<rparr> m, session_of_key k)"

definition createSession_for_call :: "time_point \<Rightarrow> string \<Rightarrow> string \<Rightarrow> sessions \<Rightarrow> sessions \<times> MediaSession" where
  "createSession_for_call now call_id from_tag m =
     createSession now \<lparr>mk_call_id = call_id, mk_from_tag = from_tag, mk_to_tag = []\<rparr> m"

definition getSession :: "MediaSessionKey \<Rightarrow> sessions \<Rightarrow> MediaSessionState option" where
  "getSession k m = um_find m k"

text \<open>The only entry of a call, or none when there is no entry or more than one.\<close>

fun findUnique_loop :: "string \<Rightarrow> sessions \<Rightarrow> MediaSessionKey option \<Rightarrow> MediaSessionKey option" where
  "findUnique_loop call_id [] found = found"
| "findUnique_loop call_id (e # m) found =
     (if mk_call_id (fst e) \<noteq> call_id then findUnique_loop call_id m found
      else (case found of Some _ \<Rightarrow> None | None \<Rightarrow> findUnique_loop call_id m (Some (fst e))))"

definition findUniqueByCallIdLocked :: "string \<Rightarrow> sessions \<Rightarrow> MediaSessionKey option" where
  "findUniqueByCallIdLocked call_id m = findUnique_loop call_id m None"

definition getSession_by_call :: "string \<Rightarrow> sessions \<Rightarrow> MediaSessionState option" where
  "getSession_by_call call_id m =
     (case findUniqueByCallIdLocked call_id m of None \<Rightarrow> None | Some k \<Rightarrow> um_find m k)"

subsection \<open>Updates\<close>

definition updateToTag :: "MediaSessionKey \<Rightarrow> string \<Rightarrow> sessions \<Rightarrow> sessions" where
  "updateToTag k to_tag m =
     (case um_find m k of
        None \<Rightarrow> m
      | Some st \<Rightarrow>
          um_put \<lparr>mk_call_id = mk_call_id k, mk_from_tag = mk_from_tag k, mk_to_tag = to_tag\<rparr>
            (st\<lparr>session := (session st)\<lparr>ms_to_tag := to_tag\<rparr>\<rparr>) (um_erase k m))"

definition updateToTag_by_call :: "string \<Rightarrow> string \<Rightarrow> sessions \<Rightarrow> sessions" where
  "updateToTag_by_call call_id to_tag m =
     (case findUniqueByCallIdLocked call_id m of None \<Rightarrow> m | Some k \<Rightarrow>
        (case um_find m k of None \<Rightarrow> m | Some st \<Rightarrow>
           um_put (k\<lparr>mk_to_tag := to_tag\<rparr>)
             (st\<lparr>session := (session st)\<lparr>ms_to_tag := to_tag\<rparr>\<rparr>) (um_erase k m)))"

text \<open>The setters: change the state of an entry if it is there.\<close>

definition modify :: "(MediaSessionState \<Rightarrow> MediaSessionState) \<Rightarrow> MediaSessionKey \<Rightarrow> sessions \<Rightarrow> sessions" where
  "modify f k m = (case um_find m k of None \<Rightarrow> m | Some st \<Rightarrow> um_put k (f st) m)"

definition modify_by_call :: "(MediaSessionState \<Rightarrow> MediaSessionState) \<Rightarrow> string \<Rightarrow> sessions \<Rightarrow> sessions" where
  "modify_by_call f call_id m =
     (case findUniqueByCallIdLocked call_id m of None \<Rightarrow> m | Some k \<Rightarrow> modify f k m)"

definition updateCallerSdp :: "MediaSessionKey \<Rightarrow> string \<Rightarrow> sessions \<Rightarrow> sessions" where
  "updateCallerSdp k sdp m = modify (\<lambda>st. st\<lparr>caller_sdp := sdp\<rparr>) k m"

definition updateCallerSdp_by_call :: "string \<Rightarrow> string \<Rightarrow> sessions \<Rightarrow> sessions" where
  "updateCallerSdp_by_call call_id sdp m = modify_by_call (\<lambda>st. st\<lparr>caller_sdp := sdp\<rparr>) call_id m"

definition updateCalleeSdp :: "MediaSessionKey \<Rightarrow> string \<Rightarrow> sessions \<Rightarrow> sessions" where
  "updateCalleeSdp k sdp m = modify (\<lambda>st. st\<lparr>callee_sdp := sdp\<rparr>) k m"

definition updateCalleeSdp_by_call :: "string \<Rightarrow> string \<Rightarrow> sessions \<Rightarrow> sessions" where
  "updateCalleeSdp_by_call call_id sdp m = modify_by_call (\<lambda>st. st\<lparr>callee_sdp := sdp\<rparr>) call_id m"

definition setRxSession :: "MediaSessionKey \<Rightarrow> string \<Rightarrow> sessions \<Rightarrow> sessions" where
  "setRxSession k rx m = modify (\<lambda>st. st\<lparr>rx_session_id := rx\<rparr>) k m"

definition setRxSession_by_call :: "string \<Rightarrow> string \<Rightarrow> sessions \<Rightarrow> sessions" where
  "setRxSession_by_call call_id rx m = modify_by_call (\<lambda>st. st\<lparr>rx_session_id := rx\<rparr>) call_id m"

definition setQosActive :: "MediaSessionKey \<Rightarrow> bool \<Rightarrow> sessions \<Rightarrow> sessions" where
  "setQosActive k a m = modify (\<lambda>st. st\<lparr>qos_active := a\<rparr>) k m"

definition setQosActive_by_call :: "string \<Rightarrow> bool \<Rightarrow> sessions \<Rightarrow> sessions" where
  "setQosActive_by_call call_id a m = modify_by_call (\<lambda>st. st\<lparr>qos_active := a\<rparr>) call_id m"

subsection \<open>INVITE responses\<close>

definition ensureInviteResponseSessionLocked ::
  "MediaSessionKey \<Rightarrow> sessions \<Rightarrow> sessions \<times> MediaSessionKey option" where
  "ensureInviteResponseSessionLocked response_key m =
     (if um_find m response_key \<noteq> None then (m, Some response_key)
      else if mk_to_tag response_key = [] then (m, None)
      else (case um_find m (response_key\<lparr>mk_to_tag := []\<rparr>) of
              None \<Rightarrow> (m, None)
            | Some initial \<Rightarrow>
                if lifecycle initial = kTerminating then (m, None)
                else (um_emplace response_key
                        (initial\<lparr>session := (session initial)\<lparr>ms_to_tag := mk_to_tag response_key\<rparr>,
                                 lifecycle := kEarly\<rparr>) m, Some response_key)))"

definition beginInviteResponse ::
  "MediaSessionKey \<Rightarrow> sessions \<Rightarrow> sessions \<times> InviteResponseMediaUpdate option" where
  "beginInviteResponse response_key m =
     (let (m', it) = ensureInviteResponseSessionLocked response_key m in
      case it of
        None \<Rightarrow> (m', None)
      | Some k \<Rightarrow>
          (case um_find m' k of
             None \<Rightarrow> (m', None)
           | Some st \<Rightarrow>
               if lifecycle st = kTerminating then (m', None)
               else (m', Some \<lparr>iu_key = k, iu_session = session st\<rparr>)))"

definition commitInviteResponse :: "MediaSessionKey \<Rightarrow> string \<Rightarrow> bool \<Rightarrow> sessions \<Rightarrow> sessions" where
  "commitInviteResponse k sdp established m =
     (case um_find m k of
        None \<Rightarrow> m
      | Some st \<Rightarrow>
          if lifecycle st = kTerminating then m
          else um_put k (st\<lparr>callee_sdp := sdp,
                            lifecycle := (if established then kEstablished else lifecycle st)\<rparr>) m)"

subsection \<open>Termination\<close>

definition makeTerminationPlan :: "MediaSessionKey \<Rightarrow> MediaSessionState \<Rightarrow> MediaTerminationPlan" where
  "makeTerminationPlan k st =
     \<lparr>tp_key = k, tp_session = session st, tp_rx_session_id = rx_session_id st,
      tp_qos_active = qos_active st\<rparr>"

text \<open>The guards of the loop over all sessions: same call leg, not an established dialog, not
  already terminating, and not the winning entry.\<close>

definition must_terminate ::
  "MediaSessionKey option \<Rightarrow> MediaSessionKey \<Rightarrow> MediaSessionKey \<times> MediaSessionState \<Rightarrow> bool" where
  "must_terminate winning rk e \<longleftrightarrow>
     Some (fst e) \<noteq> winning \<and>
     mk_call_id (fst e) = mk_call_id rk \<and> mk_from_tag (fst e) = mk_from_tag rk \<and>
     \<not> (mk_to_tag (fst e) \<noteq> [] \<and> lifecycle (snd e) = kEstablished) \<and>
     lifecycle (snd e) \<noteq> kTerminating"

fun terminate_loop ::
  "MediaSessionKey option \<Rightarrow> MediaSessionKey \<Rightarrow> sessions \<Rightarrow> sessions \<times> MediaTerminationPlan list" where
  "terminate_loop winning rk [] = ([], [])"
| "terminate_loop winning rk (e # m) =
     (let (m', plans) = terminate_loop winning rk m in
      if must_terminate winning rk e
      then ((fst e, (snd e)\<lparr>lifecycle := kTerminating\<rparr>) # m', makeTerminationPlan (fst e) (snd e) # plans)
      else (e # m', plans))"

definition markInviteFinalSuccess ::
  "MediaSessionKey \<Rightarrow> sessions \<Rightarrow> sessions \<times> MediaTerminationPlan list" where
  "markInviteFinalSuccess winning_key m =
     (let (m1, winning) = ensureInviteResponseSessionLocked winning_key m;
          m2 = (case winning of
                  None \<Rightarrow> m1
                | Some w \<Rightarrow>
                    (case um_find m1 w of
                       None \<Rightarrow> m1
                     | Some st \<Rightarrow> if lifecycle st \<noteq> kTerminating
                                then um_put w (st\<lparr>lifecycle := kEstablished\<rparr>) m1 else m1))
      in terminate_loop winning winning_key m2)"

definition markInviteFinalFailure ::
  "MediaSessionKey \<Rightarrow> sessions \<Rightarrow> sessions \<times> MediaTerminationPlan list" where
  "markInviteFinalFailure response_key m = terminate_loop None response_key m"

text \<open>The dialog may be known under the request's key, without a to tag, or the other way round.\<close>

definition find_for_termination :: "MediaSessionKey \<Rightarrow> sessions \<Rightarrow> MediaSessionKey option" where
  "find_for_termination key m =
     (if um_find m key \<noteq> None then Some key
      else if mk_to_tag key = [] then None
      else (let fallback_key = key\<lparr>mk_to_tag := []\<rparr>;
                reverse_key = \<lparr>mk_call_id = mk_call_id key, mk_from_tag = mk_to_tag key,
                               mk_to_tag = mk_from_tag key\<rparr>;
                reverse_initial = reverse_key\<lparr>mk_to_tag := []\<rparr> in
            if um_find m fallback_key \<noteq> None then Some fallback_key
            else if um_find m reverse_key \<noteq> None then Some reverse_key
            else if um_find m reverse_initial \<noteq> None then Some reverse_initial
            else None))"

definition markTerminating ::
  "MediaSessionKey \<Rightarrow> sessions \<Rightarrow> sessions \<times> MediaTerminationPlan option" where
  "markTerminating key m =
     (case find_for_termination key m of
        None \<Rightarrow> (m, None)
      | Some k \<Rightarrow>
          (case um_find m k of
             None \<Rightarrow> (m, None)
           | Some st \<Rightarrow>
               if lifecycle st = kTerminating then (m, None)
               else (um_put k (st\<lparr>lifecycle := kTerminating\<rparr>) m, Some (makeTerminationPlan k st))))"

definition completeTermination :: "MediaSessionKey \<Rightarrow> sessions \<Rightarrow> sessions" where
  "completeTermination k m =
     (case um_find m k of
        None \<Rightarrow> m
      | Some st \<Rightarrow> if lifecycle st = kTerminating then um_erase k m else m)"

definition removeSession :: "MediaSessionKey \<Rightarrow> sessions \<Rightarrow> sessions" where
  "removeSession k m = um_erase k m"

definition removeSession_by_call :: "string \<Rightarrow> sessions \<Rightarrow> sessions" where
  "removeSession_by_call call_id m =
     (case findUniqueByCallIdLocked call_id m of None \<Rightarrow> m | Some k \<Rightarrow> um_erase k m)"

definition sessionCount :: "sessions \<Rightarrow> nat" where
  "sessionCount m = length m"

subsection \<open>Lemmas\<close>

definition media_wf :: "sessions \<Rightarrow> bool" where
  "media_wf m \<longleftrightarrow> um_wf m \<and> (\<forall>k st. um_find m k = Some st \<longrightarrow> session st = session_of_key k)"

lemma media_wf_um [simp, intro]: "media_wf m \<Longrightarrow> um_wf m"
  by (simp add: media_wf_def)

lemma media_wf_put: "media_wf m \<Longrightarrow> session st = session_of_key k \<Longrightarrow> media_wf (um_put k st m)"
  by (auto simp: media_wf_def um_find_put um_wf_put)

lemma media_wf_erase: "media_wf m \<Longrightarrow> media_wf (um_erase k m)"
  by (auto simp: media_wf_def um_find_erase um_wf_erase split: if_splits)

lemma media_wf_find: "media_wf m \<Longrightarrow> um_find m k = Some st \<Longrightarrow> session st = session_of_key k"
  by (simp add: media_wf_def)

lemma session_of_key_sel [simp]:
  "ms_call_id (session_of_key k) = mk_call_id k" "ms_from_tag (session_of_key k) = mk_from_tag k"
  "ms_to_tag (session_of_key k) = mk_to_tag k"
  "(session_of_key k)\<lparr>ms_to_tag := t\<rparr> = session_of_key (k\<lparr>mk_to_tag := t\<rparr>)"
  by (simp_all add: session_of_key_def)

lemma key_update_eq: "\<lparr>mk_call_id = mk_call_id k, mk_from_tag = mk_from_tag k, mk_to_tag = t\<rparr> = k\<lparr>mk_to_tag := t\<rparr>"
  by simp

lemma terminate_loop_fst:
  "fst (terminate_loop w rk m) =
     um_map_vals (\<lambda>k st. if must_terminate w rk (k, st) then st\<lparr>lifecycle := kTerminating\<rparr> else st) m"
  by (induction w rk m rule: terminate_loop.induct)
    (auto simp: um_map_vals_def Let_def case_prod_beta)

lemma terminate_loop_snd:
  "snd (terminate_loop w rk m) =
     map (\<lambda>e. makeTerminationPlan (fst e) (snd e)) (filter (must_terminate w rk) m)"
  by (induction w rk m rule: terminate_loop.induct) (auto simp: Let_def case_prod_beta)

lemma terminate_loop_find:
  "um_find (fst (terminate_loop w rk m)) k =
     map_option (\<lambda>st. if must_terminate w rk (k, st) then st\<lparr>lifecycle := kTerminating\<rparr> else st)
       (um_find m k)"
  by (simp add: terminate_loop_fst um_find_map_vals)

lemma tp_makeTerminationPlan [simp]:
  "tp_key (makeTerminationPlan k st) = k" "tp_session (makeTerminationPlan k st) = session st"
  by (simp_all add: makeTerminationPlan_def)

lemma terminate_loop_keys:
  "um_wf m \<Longrightarrow> k \<in> tp_key ` set (snd (terminate_loop w rk m)) \<longleftrightarrow>
     (\<exists>st. um_find m k = Some st \<and> must_terminate w rk (k, st))"
  by (auto simp: terminate_loop_snd um_wf_in [symmetric] image_iff)

lemma terminate_loop_distinct:
  "um_wf m \<Longrightarrow> distinct (map tp_key (snd (terminate_loop w rk m)))"
  by (simp add: terminate_loop_snd um_wf_def comp_def distinct_map_filter)

lemma ensure_Some:
  assumes "ensureInviteResponseSessionLocked rk m = (m', Some k)"
  shows "k = rk \<and> um_find m' rk \<noteq> None \<and> (\<forall>k'. k' \<noteq> rk \<longrightarrow> um_find m' k' = um_find m k') \<and>
    (um_find m rk \<noteq> None \<longrightarrow> m' = m)"
  using assms
  by (auto simp: ensureInviteResponseSessionLocked_def um_find_emplace
      split: if_splits option.splits)

lemma ensure_None: "ensureInviteResponseSessionLocked rk m = (m', None) \<Longrightarrow> m' = m \<and> um_find m rk = None"
  by (auto simp: ensureInviteResponseSessionLocked_def split: if_splits option.splits)

lemma ensure_keeps:
  "um_find m k = Some st \<Longrightarrow> um_find (fst (ensureInviteResponseSessionLocked rk m)) k = Some st"
  by (auto simp: ensureInviteResponseSessionLocked_def um_find_emplace split: option.split)

lemma media_wf_emplace:
  "media_wf m \<Longrightarrow> session st = session_of_key k \<Longrightarrow> media_wf (um_emplace k st m)"
  by (simp add: um_emplace_def media_wf_put split: option.split)

lemma ensure_cases:
  obtains (none) "ensureInviteResponseSessionLocked rk m = (m, None)" "um_find m rk = None"
  | (some) m1 st where "ensureInviteResponseSessionLocked rk m = (m1, Some rk)"
      "um_find m1 rk = Some st" "\<And>k. k \<noteq> rk \<Longrightarrow> um_find m1 k = um_find m k"
      "um_find m rk \<noteq> None \<Longrightarrow> m1 = m"
proof (cases "ensureInviteResponseSessionLocked rk m")
  case (Pair m1 it)
  show ?thesis
  proof (cases it)
    case None
    then show ?thesis using none ensure_None Pair by metis
  next
    case (Some k)
    then have e: "ensureInviteResponseSessionLocked rk m = (m1, Some rk)"
      using Pair ensure_Some by metis
    from ensure_Some [OF this] show ?thesis using some [OF e] by auto
  qed
qed

lemma media_wf_ensure:
  assumes wf: "media_wf m" shows "media_wf (fst (ensureInviteResponseSessionLocked rk m))"
proof (cases "um_find m (rk\<lparr>mk_to_tag := []\<rparr>)")
  case None
  with wf show ?thesis by (simp add: ensureInviteResponseSessionLocked_def)
next
  case (Some i)
  have "session (i\<lparr>session := (session i)\<lparr>ms_to_tag := mk_to_tag rk\<rparr>, lifecycle := kEarly\<rparr>) =
      session_of_key rk"
    using media_wf_find [OF wf Some] by simp
  with wf Some show ?thesis
    by (simp add: ensureInviteResponseSessionLocked_def media_wf_emplace)
qed

lemma must_terminate_session [simp]:
  "session (if must_terminate w rk (k, st) then st\<lparr>lifecycle := kTerminating\<rparr> else st) = session st"
  by simp

lemma media_wf_terminate:
  assumes "media_wf m" shows "media_wf (fst (terminate_loop w rk m))"
proof -
  have "um_wf (fst (terminate_loop w rk m))"
    using assms by (simp add: terminate_loop_fst media_wf_um)
  moreover have "session st = session_of_key k"
    if "um_find (fst (terminate_loop w rk m)) k = Some st" for k st
  proof -
    from that obtain st0 where "um_find m k = Some st0"
        "st = (if must_terminate w rk (k, st0) then st0\<lparr>lifecycle := kTerminating\<rparr> else st0)"
      unfolding terminate_loop_find map_option_eq_Some by blast
    then show ?thesis using media_wf_find [OF assms] by simp
  qed
  ultimately show ?thesis by (simp add: media_wf_def)
qed

lemma media_wf_modify: "media_wf m \<Longrightarrow> (\<And>st. session (f st) = session st) \<Longrightarrow> media_wf (modify f k m)"
  by (auto simp: modify_def media_wf_find intro!: media_wf_put split: option.split)

lemma media_wf_modify_by_call:
  "media_wf m \<Longrightarrow> (\<And>st. session (f st) = session st) \<Longrightarrow> media_wf (modify_by_call f c m)"
  by (auto simp: modify_by_call_def media_wf_modify split: option.split)

lemma findUnique_loop_Some:
  "findUnique_loop c m (Some k0) = Some k \<longleftrightarrow>
     k = k0 \<and> filter (\<lambda>e. mk_call_id (fst e) = c) m = []"
  by (induction m) auto

lemma findUnique_iff:
  "findUniqueByCallIdLocked c m = Some k \<longleftrightarrow>
     map fst (filter (\<lambda>e. mk_call_id (fst e) = c) m) = [k]"
  unfolding findUniqueByCallIdLocked_def
  by (induction m) (auto simp: findUnique_loop_Some)

definition success_marked :: "MediaSessionKey \<Rightarrow> sessions \<Rightarrow> sessions \<times> MediaSessionKey option" where
  "success_marked wk m =
     (let (m1, winning) = ensureInviteResponseSessionLocked wk m in
      (case winning of
         None \<Rightarrow> m1
       | Some w \<Rightarrow>
           (case um_find m1 w of
              None \<Rightarrow> m1
            | Some st \<Rightarrow> if lifecycle st \<noteq> kTerminating
                       then um_put w (st\<lparr>lifecycle := kEstablished\<rparr>) m1 else m1), winning))"

lemma markInviteFinalSuccess_eq:
  "markInviteFinalSuccess wk m =
     terminate_loop (snd (success_marked wk m)) wk (fst (success_marked wk m))"
  by (simp add: markInviteFinalSuccess_def success_marked_def case_prod_beta Let_def)

lemma success_marked_cases:
  obtains (none) "success_marked wk m = (m, None)" "um_find m wk = None"
  | (some) m1 st where "ensureInviteResponseSessionLocked wk m = (m1, Some wk)"
      "um_find m1 wk = Some st" "\<And>k. k \<noteq> wk \<Longrightarrow> um_find m1 k = um_find m k"
      "um_find m wk \<noteq> None \<Longrightarrow> m1 = m"
      "success_marked wk m =
         (if lifecycle st \<noteq> kTerminating then um_put wk (st\<lparr>lifecycle := kEstablished\<rparr>) m1 else m1,
          Some wk)"
proof (cases rule: ensure_cases [of wk m])
  case none
  then show ?thesis using that(1) by (simp add: success_marked_def)
next
  case (some m1 st)
  then show ?thesis using that(2) [OF some] by (simp add: success_marked_def)
qed

lemma success_marked_winner: "snd (success_marked wk m) \<in> {None, Some wk}"
  by (cases rule: success_marked_cases [of wk m]) simp_all

lemma success_marked_other:
  "k \<noteq> wk \<Longrightarrow> um_find (fst (success_marked wk m)) k = um_find m k"
  by (cases rule: success_marked_cases [of wk m]) (simp_all add: um_find_put)

lemma success_marked_None:
  "snd (success_marked wk m) = None \<Longrightarrow> um_find (fst (success_marked wk m)) wk = None"
  by (cases rule: success_marked_cases [of wk m]) simp_all

lemma success_marked_Some:
  "snd (success_marked wk m) = Some w \<Longrightarrow>
   \<exists>st. um_find (fst (success_marked wk m)) wk = Some st \<and> lifecycle st \<noteq> kEarly"
  by (cases rule: success_marked_cases [of wk m])
    (auto simp: um_find_put intro: MediaSessionLifecycle.exhaust)

lemma success_marked_kept:
  "um_find m wk = Some st \<Longrightarrow>
   um_find (fst (success_marked wk m)) wk =
     Some (if lifecycle st = kTerminating then st else st\<lparr>lifecycle := kEstablished\<rparr>)"
  by (cases rule: success_marked_cases [of wk m]) (auto simp: um_find_put)

lemma media_wf_success_marked:
  assumes "media_wf m" shows "media_wf (fst (success_marked wk m))"
proof (cases rule: success_marked_cases [of wk m])
  case none
  with assms show ?thesis by simp
next
  case (some m1 st)
  have "media_wf m1" using media_wf_ensure [OF assms, of wk] some(1) by simp
  with some show ?thesis by (simp add: media_wf_put media_wf_find)
qed

lemma markInviteFinalSuccess_find:
  "um_find (fst (markInviteFinalSuccess wk m)) k =
     map_option (\<lambda>st. if must_terminate (snd (success_marked wk m)) wk (k, st)
                      then st\<lparr>lifecycle := kTerminating\<rparr> else st)
       (um_find (fst (success_marked wk m)) k)"
  by (simp add: markInviteFinalSuccess_eq terminate_loop_find)

lemma not_must_terminate_same_leg:
  assumes "mk_call_id k = mk_call_id wk" "mk_from_tag k = mk_from_tag wk"
    and "\<not> must_terminate w wk (k, st)"
  shows "lifecycle st = kTerminating \<or> Some k = w \<or> (lifecycle st = kEstablished \<and> mk_to_tag k \<noteq> [])"
  using assms by (auto simp: must_terminate_def)

subsection \<open>The sequence of operations\<close>

text \<open>The calls of the media code, as the proxy issues them, and the table they lead to.\<close>

datatype media_op =
    Create time_point MediaSessionKey
  | CallerSdp MediaSessionKey string
  | CalleeSdp MediaSessionKey string
  | RxSession MediaSessionKey string
  | QosActive MediaSessionKey bool
  | ToTag MediaSessionKey string
  | ToTagOfCall string string
  | BeginResponse MediaSessionKey
  | CommitResponse MediaSessionKey string bool
  | FinalSuccess MediaSessionKey
  | FinalFailure MediaSessionKey
  | Terminate MediaSessionKey
  | Complete MediaSessionKey
  | Remove MediaSessionKey
  | RemoveCall string

fun media_step :: "media_op \<Rightarrow> sessions \<Rightarrow> sessions" where
  "media_step (Create now k) m = fst (createSession now k m)"
| "media_step (CallerSdp k s) m = updateCallerSdp k s m"
| "media_step (CalleeSdp k s) m = updateCalleeSdp k s m"
| "media_step (RxSession k s) m = setRxSession k s m"
| "media_step (QosActive k b) m = setQosActive k b m"
| "media_step (ToTag k t) m = updateToTag k t m"
| "media_step (ToTagOfCall c t) m = updateToTag_by_call c t m"
| "media_step (BeginResponse k) m = fst (beginInviteResponse k m)"
| "media_step (CommitResponse k s b) m = commitInviteResponse k s b m"
| "media_step (FinalSuccess k) m = fst (markInviteFinalSuccess k m)"
| "media_step (FinalFailure k) m = fst (markInviteFinalFailure k m)"
| "media_step (Terminate k) m = fst (markTerminating k m)"
| "media_step (Complete k) m = completeTermination k m"
| "media_step (Remove k) m = removeSession k m"
| "media_step (RemoveCall c) m = removeSession_by_call c m"

lemma media_wf_create: "media_wf m \<Longrightarrow> media_wf (fst (createSession now k m))"
  by (simp add: createSession_def media_wf_put)

lemma media_wf_updateToTag: "media_wf m \<Longrightarrow> media_wf (updateToTag k t m)"
  by (auto simp: updateToTag_def key_update_eq media_wf_find intro!: media_wf_put media_wf_erase
      split: option.split)

lemma media_wf_updateToTag_by_call: "media_wf m \<Longrightarrow> media_wf (updateToTag_by_call c t m)"
  by (auto simp: updateToTag_by_call_def media_wf_find intro!: media_wf_put media_wf_erase
      split: option.split)

lemma media_wf_begin:
  assumes "media_wf m" shows "media_wf (fst (beginInviteResponse k m))"
proof -
  have "fst (beginInviteResponse k m) = fst (ensureInviteResponseSessionLocked k m)"
    by (auto simp: beginInviteResponse_def case_prod_beta Let_def split: option.split)
  with media_wf_ensure [OF assms] show ?thesis by simp
qed

lemma media_wf_commit: "media_wf m \<Longrightarrow> media_wf (commitInviteResponse k s b m)"
  by (auto simp: commitInviteResponse_def media_wf_find intro!: media_wf_put split: option.split)

lemma media_wf_success: "media_wf m \<Longrightarrow> media_wf (fst (markInviteFinalSuccess k m))"
  by (simp add: markInviteFinalSuccess_eq media_wf_terminate media_wf_success_marked)

lemma media_wf_mark: "media_wf m \<Longrightarrow> media_wf (fst (markTerminating k m))"
  by (auto simp: markTerminating_def media_wf_find intro!: media_wf_put split: option.split)

lemma media_wf_complete: "media_wf m \<Longrightarrow> media_wf (completeTermination k m)"
  by (auto simp: completeTermination_def intro!: media_wf_erase split: option.split)

lemma media_wf_remove_call: "media_wf m \<Longrightarrow> media_wf (removeSession_by_call c m)"
  by (auto simp: removeSession_by_call_def intro!: media_wf_erase split: option.split)

lemmas media_wf_ops = media_wf_create media_wf_updateToTag media_wf_updateToTag_by_call
  media_wf_begin media_wf_commit media_wf_success media_wf_mark media_wf_complete
  media_wf_remove_call media_wf_terminate media_wf_modify media_wf_erase

lemma media_wf_step: "media_wf m \<Longrightarrow> media_wf (media_step op m)"
  by (cases op)
    (simp_all add: media_wf_ops updateCallerSdp_def updateCalleeSdp_def setRxSession_def
      setQosActive_def markInviteFinalFailure_def removeSession_def)

lemma media_wf_run: "media_wf m \<Longrightarrow> media_wf (fold media_step ops m)"
  by (induction ops arbitrary: m) (simp_all add: media_wf_step)

text \<open>The plans a sequence of operations hands out, in order.\<close>

fun media_plans :: "media_op \<Rightarrow> sessions \<Rightarrow> MediaTerminationPlan list" where
  "media_plans (FinalSuccess k) m = snd (markInviteFinalSuccess k m)"
| "media_plans (FinalFailure k) m = snd (markInviteFinalFailure k m)"
| "media_plans (Terminate k) m = (case snd (markTerminating k m) of None \<Rightarrow> [] | Some p \<Rightarrow> [p])"
| "media_plans op m = []"

fun run_plans :: "media_op list \<Rightarrow> sessions \<Rightarrow> MediaTerminationPlan list" where
  "run_plans [] m = []"
| "run_plans (op # ops) m = media_plans op m @ run_plans ops (media_step op m)"

text \<open>The entry an operation inserts into the table: \<^verbatim>\<open>createSession\<close> always, the
  change of a to tag files the session under a new key, and an answer from a branch that has
  no entry yet copies the initial one.\<close>

fun opened :: "media_op \<Rightarrow> sessions \<Rightarrow> MediaSessionKey list" where
  "opened (Create now k) m = [k]"
| "opened (ToTag k t) m = (if um_find m k = None then [] else [k\<lparr>mk_to_tag := t\<rparr>])"
| "opened (ToTagOfCall c t) m =
     (case findUniqueByCallIdLocked c m of None \<Rightarrow> [] | Some k \<Rightarrow> [k\<lparr>mk_to_tag := t\<rparr>])"
| "opened (BeginResponse k) m =
     (if um_find m k = None \<and> um_find (media_step (BeginResponse k) m) k \<noteq> None then [k] else [])"
| "opened (FinalSuccess k) m =
     (if um_find m k = None \<and> um_find (media_step (FinalSuccess k) m) k \<noteq> None then [k] else [])"
| "opened op m = []"

fun run_opened :: "media_op list \<Rightarrow> sessions \<Rightarrow> MediaSessionKey list" where
  "run_opened [] m = []"
| "run_opened (op # ops) m = opened op m @ run_opened ops (media_step op m)"

definition is_live :: "sessions \<Rightarrow> MediaSessionKey \<Rightarrow> bool" where
  "is_live m k \<longleftrightarrow> (case um_find m k of None \<Rightarrow> False | Some st \<Rightarrow> lifecycle st \<noteq> kTerminating)"

definition is_terminating :: "sessions \<Rightarrow> MediaSessionKey \<Rightarrow> bool" where
  "is_terminating m k \<longleftrightarrow> (case um_find m k of None \<Rightarrow> False | Some st \<Rightarrow> lifecycle st = kTerminating)"

lemma is_terminatingI: "um_find m k = Some st \<Longrightarrow> lifecycle st = kTerminating \<Longrightarrow> is_terminating m k"
  by (simp add: is_terminating_def)

lemma is_terminatingE:
  assumes "is_terminating m k" obtains st where "um_find m k = Some st" "lifecycle st = kTerminating"
  using assms by (auto simp: is_terminating_def split: option.splits)

lemma success_marked_terminating:
  assumes "is_terminating m k" shows "is_terminating (fst (success_marked wk m)) k"
  using assms by (cases "k = wk")
    (auto simp: is_terminating_def success_marked_other success_marked_kept split: option.splits)

lemma terminate_loop_terminating:
  "is_terminating m k \<Longrightarrow> is_terminating (fst (terminate_loop w rk m)) k"
  by (auto simp: is_terminating_def terminate_loop_find split: option.splits)

lemma loop_plan_keys:
  assumes "um_wf m" "k \<in> tp_key ` set (snd (terminate_loop w rk m))"
  shows "\<not> is_terminating m k \<and> is_terminating (fst (terminate_loop w rk m)) k"
  using assms
  by (auto simp: terminate_loop_keys is_terminating_def terminate_loop_find must_terminate_def)

lemma markTerminating_Some:
  "snd (markTerminating k m) = Some p \<Longrightarrow>
   \<exists>st. um_find m (tp_key p) = Some st \<and> lifecycle st \<noteq> kTerminating \<and> p = makeTerminationPlan (tp_key p) st \<and>
     find_for_termination k m = Some (tp_key p) \<and>
     fst (markTerminating k m) = um_put (tp_key p) (st\<lparr>lifecycle := kTerminating\<rparr>) m"
  by (auto simp: markTerminating_def split: option.splits if_splits)

lemma step_plan_keys:
  assumes "media_wf m" "k \<in> tp_key ` set (media_plans op m)"
  shows "\<not> is_terminating m k \<and> is_terminating (media_step op m) k"
proof (cases op)
  case (FinalSuccess wk)
  have "media_wf (fst (success_marked wk m))" by (rule media_wf_success_marked [OF assms(1)])
  with assms FinalSuccess
  have "\<not> is_terminating (fst (success_marked wk m)) k \<and> is_terminating (media_step op m) k"
    by (simp add: markInviteFinalSuccess_eq loop_plan_keys media_wf_um)
  then show ?thesis using success_marked_terminating by blast
next
  case (FinalFailure wk)
  with assms show ?thesis by (simp add: markInviteFinalFailure_def loop_plan_keys media_wf_um)
next
  case (Terminate tk)
  with assms obtain p where p: "snd (markTerminating tk m) = Some p" and k: "k = tp_key p"
    by (cases "snd (markTerminating tk m)") auto
  from markTerminating_Some [OF p] k Terminate show ?thesis
    by (auto simp: is_terminating_def um_find_put)
qed (use assms in simp_all)

lemma step_plans_distinct:
  assumes "media_wf m" shows "distinct (map tp_key (media_plans op m))"
  using assms
  by (cases op)
    (simp_all add: markInviteFinalSuccess_eq markInviteFinalFailure_def terminate_loop_distinct
      media_wf_um media_wf_success_marked split: option.split)

lemma begin_live:
  assumes "is_live (fst (beginInviteResponse rk m)) k"
  shows "is_live m k \<or> k \<in> set (opened (BeginResponse rk) m)"
proof -
  have "fst (beginInviteResponse rk m) = fst (ensureInviteResponseSessionLocked rk m)"
    by (auto simp: beginInviteResponse_def case_prod_beta Let_def split: option.split)
  with assms show ?thesis
    by (cases rule: ensure_cases [of rk m]; cases "k = rk"; cases "um_find m rk")
      (auto simp: is_live_def)
qed

lemma terminate_loop_live: "is_live (fst (terminate_loop w rk m)) k \<Longrightarrow> is_live m k"
  by (auto simp: is_live_def terminate_loop_find split: option.splits if_splits)

lemma success_live:
  assumes "is_live (fst (markInviteFinalSuccess wk m)) k"
  shows "is_live m k \<or> k \<in> set (opened (FinalSuccess wk) m)"
proof -
  from assms have live: "is_live (fst (success_marked wk m)) k"
    by (simp add: markInviteFinalSuccess_eq terminate_loop_live)
  have there: "um_find (fst (markInviteFinalSuccess wk m)) k \<noteq> None"
    using assms by (auto simp: is_live_def split: option.splits)
  show ?thesis
  proof (cases "k = wk")
    case True
    with live there show ?thesis
      by (cases "um_find m wk") (auto simp: is_live_def success_marked_kept split: if_splits)
  next
    case False
    with live show ?thesis by (simp add: is_live_def success_marked_other)
  qed
qed

lemma modify_live:
  "is_live (modify f k' m) k \<Longrightarrow> (\<And>st. lifecycle (f st) = lifecycle st) \<Longrightarrow> is_live m k"
  by (auto simp: is_live_def modify_def um_find_put split: option.splits if_splits)

lemma create_live: "is_live (fst (createSession now k' m)) k \<Longrightarrow> is_live m k \<or> k = k'"
  by (auto simp: is_live_def createSession_def um_find_put split: if_splits)

lemma erase_live: "is_live (um_erase k' m) k \<Longrightarrow> is_live m k"
  by (auto simp: is_live_def um_find_erase split: if_splits)

lemma put_live: "is_live (um_put k' st m) k \<Longrightarrow> is_live m k \<or> k = k'"
  by (auto simp: is_live_def um_find_put split: if_splits)

lemma to_tag_live:
  "is_live (updateToTag k' t m) k \<Longrightarrow> is_live m k \<or> k \<in> set (opened (ToTag k' t) m)"
  by (auto simp: updateToTag_def key_update_eq split: option.splits dest!: put_live erase_live)

lemma to_tag_of_call_live:
  "is_live (updateToTag_by_call c t m) k \<Longrightarrow> is_live m k \<or> k \<in> set (opened (ToTagOfCall c t) m)"
  by (auto simp: updateToTag_by_call_def split: option.splits dest!: put_live erase_live)

lemma commit_live: "is_live (commitInviteResponse rk s b m) k \<Longrightarrow> is_live m k"
  by (auto simp: is_live_def commitInviteResponse_def um_find_put split: option.splits if_splits)

lemma mark_live: "is_live (fst (markTerminating rk m)) k \<Longrightarrow> is_live m k"
  by (auto simp: is_live_def markTerminating_def um_find_put split: option.splits if_splits)

lemma complete_live: "is_live (completeTermination k' m) k \<Longrightarrow> is_live m k"
  by (auto simp: completeTermination_def split: option.splits if_splits dest!: erase_live)

lemma remove_call_live: "is_live (removeSession_by_call c m) k \<Longrightarrow> is_live m k"
  by (auto simp: removeSession_by_call_def split: option.splits dest!: erase_live)

lemma step_live: "is_live (media_step op m) k \<Longrightarrow> is_live m k \<or> k \<in> set (opened op m)"
proof (cases op)
  case (BeginResponse rk)
  then show "is_live (media_step op m) k \<Longrightarrow> ?thesis" using begin_live by simp
next
  case (FinalSuccess wk)
  then show "is_live (media_step op m) k \<Longrightarrow> ?thesis" using success_live by simp
next
  case (ToTag k' t)
  then show "is_live (media_step op m) k \<Longrightarrow> ?thesis" using to_tag_live by simp
next
  case (ToTagOfCall c t)
  then show "is_live (media_step op m) k \<Longrightarrow> ?thesis" using to_tag_of_call_live by simp
next
  case (Create now k')
  then show "is_live (media_step op m) k \<Longrightarrow> ?thesis" using create_live by fastforce
qed (auto simp: updateCallerSdp_def updateCalleeSdp_def setRxSession_def setQosActive_def
    markInviteFinalFailure_def removeSession_def dest: modify_live commit_live mark_live
    complete_live erase_live remove_call_live terminate_loop_live)

lemma loop_plan_live:
  assumes "um_wf m" "k \<in> tp_key ` set (snd (terminate_loop w rk m))"
  shows "is_live m k"
  using assms by (auto simp: terminate_loop_keys is_live_def must_terminate_def)

lemma step_plan_live:
  assumes "media_wf m" "k \<in> tp_key ` set (media_plans op m)"
  shows "is_live m k"
proof (cases op)
  case (FinalSuccess wk)
  let ?w = "snd (success_marked wk m)" and ?m = "fst (success_marked wk m)"
  have wf: "um_wf ?m" using media_wf_success_marked [OF assms(1)] by (rule media_wf_um)
  from assms(2) FinalSuccess obtain st
    where st: "um_find ?m k = Some st" "must_terminate ?w wk (k, st)"
    by (auto simp: markInviteFinalSuccess_eq terminate_loop_keys [OF wf])
  have "k \<noteq> wk"
    using st success_marked_winner [of wk m] success_marked_None [of wk m]
    by (auto simp: must_terminate_def)
  with st show ?thesis by (simp add: success_marked_other is_live_def must_terminate_def)
next
  case (FinalFailure wk)
  with assms show ?thesis by (simp add: markInviteFinalFailure_def loop_plan_live media_wf_um)
next
  case (Terminate tk)
  with assms obtain p where p: "snd (markTerminating tk m) = Some p" and k: "k = tp_key p"
    by (cases "snd (markTerminating tk m)") auto
  from markTerminating_Some [OF p] k show ?thesis by (auto simp: is_live_def)
qed (use assms in simp_all)

text \<open>The account of one operation: what it hands out was live and is not any more, and what
  is live after it was live before or has just been inserted.\<close>

lemma count_list_distinct: "distinct xs \<Longrightarrow> count_list xs x = (if x \<in> set xs then 1 else 0)"
  by (induction xs) auto

lemma step_account:
  assumes "media_wf m"
  shows "count_list (map tp_key (media_plans op m)) k + of_bool (is_live (media_step op m) k)
    \<le> of_bool (is_live m k) + count_list (opened op m) k"
proof (cases "k \<in> tp_key ` set (media_plans op m)")
  case True
  then have "is_live m k" using step_plan_live [OF assms] by simp
  moreover have "\<not> is_live (media_step op m) k"
    using step_plan_keys [OF assms True] by (auto simp: is_terminating_def is_live_def split: option.splits)
  ultimately show ?thesis
    using True by (simp add: count_list_distinct [OF step_plans_distinct [OF assms]])
next
  case False
  then have "count_list (map tp_key (media_plans op m)) k = 0" by (simp add: count_list_0_iff)
  moreover have "0 < count_list (opened op m) k" if "k \<in> set (opened op m)"
    using that by (metis count_list_0_iff gr0I)
  ultimately show ?thesis using step_live [of op m k] by (auto simp: of_bool_def)
qed

lemma run_account:
  assumes "media_wf m"
  shows "count_list (map tp_key (run_plans ops m)) k + of_bool (is_live (fold media_step ops m) k)
    \<le> of_bool (is_live m k) + count_list (run_opened ops m) k"
  using assms
proof (induction ops arbitrary: m)
  case (Cons op ops)
  from Cons.IH [OF media_wf_step [OF Cons.prems, of op]] step_account [OF Cons.prems, of op k]
  show ?case
    by (simp only: run_plans.simps run_opened.simps fold_simps map_append count_list_append)
qed simp

subsection \<open>Properties\<close>

text \<open>C12: The final 2xx of a forked INVITE settles the call leg: afterwards every media session
  of the leg is terminating, or it is an established dialog: the winning branch or one with
  its own to tag.  The plans returned name, each once, exactly the sessions that were live and
  are terminating now.\<close>

theorem fork_winner_settles_the_leg:
  assumes "media_wf m"
  shows "(um_find (fst (markInviteFinalSuccess wk m)) k = Some st \<and>
       mk_call_id k = mk_call_id wk \<and> mk_from_tag k = mk_from_tag wk \<longrightarrow>
       lifecycle st = kTerminating \<or> lifecycle st = kEstablished \<and> (k = wk \<or> mk_to_tag k \<noteq> [])) \<and>
     distinct (map tp_key (snd (markInviteFinalSuccess wk m))) \<and>
     (k' \<in> tp_key ` set (snd (markInviteFinalSuccess wk m)) \<longleftrightarrow>
       um_find m k' \<noteq> None \<and> \<not> is_terminating m k' \<and>
       is_terminating (fst (markInviteFinalSuccess wk m)) k')"
proof (intro conjI impI)
  let ?w = "snd (success_marked wk m)" and ?m = "fst (success_marked wk m)"
  have wf: "um_wf ?m" using media_wf_success_marked [OF assms] by (rule media_wf_um)
  assume a: "um_find (fst (markInviteFinalSuccess wk m)) k = Some st \<and>
      mk_call_id k = mk_call_id wk \<and> mk_from_tag k = mk_from_tag wk"
  then obtain st0 where st0: "um_find ?m k = Some st0"
      "st = (if must_terminate ?w wk (k, st0) then st0\<lparr>lifecycle := kTerminating\<rparr> else st0)"
    unfolding markInviteFinalSuccess_find map_option_eq_Some by blast
  show "lifecycle st = kTerminating \<or> lifecycle st = kEstablished \<and> (k = wk \<or> mk_to_tag k \<noteq> [])"
  proof (cases "must_terminate ?w wk (k, st0)")
    case False
    from not_must_terminate_same_leg [OF _ _ False] a
    consider "lifecycle st0 = kTerminating" | "Some k = ?w"
      | "lifecycle st0 = kEstablished \<and> mk_to_tag k \<noteq> []" by blast
    then show ?thesis
    proof cases
      case 2
      then have "k = wk" using success_marked_winner [of wk m] by auto
      with 2 success_marked_Some [of wk m k] st0(1) have "lifecycle st0 \<noteq> kEarly" by auto
      with \<open>k = wk\<close> st0(2) False show ?thesis by (cases "lifecycle st0") simp_all
    qed (use st0(2) False in simp_all)
  qed (use st0(2) in simp)
next
  show "distinct (map tp_key (snd (markInviteFinalSuccess wk m)))"
    using media_wf_success_marked [OF assms]
    by (simp add: markInviteFinalSuccess_eq terminate_loop_distinct media_wf_um)
next
  let ?w = "snd (success_marked wk m)" and ?m = "fst (success_marked wk m)"
  have wf: "um_wf ?m" using media_wf_success_marked [OF assms] by (rule media_wf_um)
  have not_winner: "\<not> must_terminate ?w wk (wk, st)" if "um_find ?m wk = Some st" for st
    using that success_marked_winner [of wk m] success_marked_None [of wk m]
    by (auto simp: must_terminate_def)
  have "k' \<in> tp_key ` set (snd (markInviteFinalSuccess wk m)) \<longleftrightarrow>
      (\<exists>st. um_find ?m k' = Some st \<and> must_terminate ?w wk (k', st))"
    by (simp add: markInviteFinalSuccess_eq terminate_loop_keys [OF wf])
  also have "\<dots> \<longleftrightarrow> um_find m k' \<noteq> None \<and> \<not> is_terminating m k' \<and>
       is_terminating (fst (markInviteFinalSuccess wk m)) k'"
  proof (cases "k' = wk")
    case True
    then show ?thesis using not_winner success_marked_kept [of m wk]
      by (cases "um_find m wk") (auto simp: is_terminating_def markInviteFinalSuccess_find split: option.splits if_splits)
  next
    case False
    then show ?thesis
      by (auto simp: is_terminating_def markInviteFinalSuccess_find success_marked_other
          must_terminate_def split: option.splits)
  qed
  finally show "k' \<in> tp_key ` set (snd (markInviteFinalSuccess wk m)) \<longleftrightarrow>
      um_find m k' \<noteq> None \<and> \<not> is_terminating m k' \<and>
      is_terminating (fst (markInviteFinalSuccess wk m)) k'" .
qed

text \<open>C13: Over any run of any of the operations, removals, completions and changes of
  keys included, a key is handed out for teardown at most as often as a session was filed under
  it: once for the live session the table starts with, if there is one, and once for every
  entry the run inserts under that key; and a session still live at the end has not been
  handed out.  So the relay ports and the policy session of one session are planned for
  release at most once.\<close>

theorem teardown_planned_once:
  assumes "media_wf m"
  shows "count_list (map tp_key (run_plans ops m)) k + of_bool (is_live (fold media_step ops m) k)
    \<le> of_bool (is_live m k) + count_list (run_opened ops m) k"
  by (rule run_account [OF assms])

text \<open>Ending a dialog, from either side and with or without the to tag, and completing
  the plan it returned takes exactly the planned entry out of the table.\<close>

theorem terminate_then_complete_removes:
  assumes "snd (markTerminating key m) = Some p"
  shows "um_find (completeTermination (tp_key p) (fst (markTerminating key m))) k =
     (if k = tp_key p then None else um_find m k) \<and>
     find_for_termination key m = Some (tp_key p)"
  using markTerminating_Some [OF assms]
  by (auto simp: completeTermination_def um_find_put um_find_erase)

text \<open>In every table the operations can reach from the empty one, no key occurs twice and
  every entry holds the session of its own key, so that the relay is always addressed with the
  identifiers the entry is filed under.\<close>

theorem media_table_invariant:
  "um_wf (fold media_step ops []) \<and>
   (getSession k (fold media_step ops []) = Some st \<longrightarrow> session st = session_of_key k)"
  using media_wf_run [of "[]" ops] by (auto simp: media_wf_def getSession_def)

text \<open>A lookup by Call-ID alone returns a session exactly when it is the only one of that
  call: with two branches it refuses to choose.\<close>

theorem lookup_by_call_needs_uniqueness:
  assumes "um_wf m"
  shows "getSession_by_call c m = Some st \<longleftrightarrow>
    (\<exists>k. filter (\<lambda>e. mk_call_id (fst e) = c) m = [(k, st)])"
proof
  assume "getSession_by_call c m = Some st"
  then obtain k where k: "map fst (filter (\<lambda>e. mk_call_id (fst e) = c) m) = [k]"
      and f: "um_find m k = Some st"
    by (auto simp: getSession_by_call_def findUnique_iff split: option.splits)
  then obtain e where e: "filter (\<lambda>e. mk_call_id (fst e) = c) m = [e]" "fst e = k"
    by (auto simp: Cons_eq_map_conv)
  then have "e \<in> set m" by (metis filter_eq_ConsD in_set_conv_decomp)
  with e(2) have "(k, snd e) \<in> set m" by (metis prod.collapse)
  with f assms have "snd e = st" by (simp add: um_wf_in)
  with e show "\<exists>k. filter (\<lambda>e. mk_call_id (fst e) = c) m = [(k, st)]" by (metis prod.collapse)
next
  assume "\<exists>k. filter (\<lambda>e. mk_call_id (fst e) = c) m = [(k, st)]"
  then obtain k where k: "filter (\<lambda>e. mk_call_id (fst e) = c) m = [(k, st)]" by blast
  then have "(k, st) \<in> set m" by (metis filter_eq_ConsD in_set_conv_decomp)
  moreover from k have "findUniqueByCallIdLocked c m = Some k" by (simp add: findUnique_iff)
  ultimately show "getSession_by_call c m = Some st"
    using assms by (simp add: getSession_by_call_def um_wf_in)
qed

text \<open>The inputs of the witnesses: one call, forked to two branches.\<close>

definition demo_key :: "string \<Rightarrow> MediaSessionKey" where
  "demo_key t = \<lparr>mk_call_id = ''c1'', mk_from_tag = ''a'', mk_to_tag = t\<rparr>"

definition demo_sessions :: "sessions" where
  "demo_sessions = fold media_step
     [Create 0 (demo_key []), BeginResponse (demo_key ''b1''), BeginResponse (demo_key ''b2'')] []"

lemma demo_sessions_wf: "media_wf demo_sessions"
  unfolding demo_sessions_def by (rule media_wf_run) (simp add: media_wf_def)

lemmas demo_eval = demo_sessions_def demo_key_def createSession_def beginInviteResponse_def
  ensureInviteResponseSessionLocked_def um_emplace_def session_of_key_def
  markTerminating_def find_for_termination_def makeTerminationPlan_def um_wf_def

lemma demo_sessions_keys: "map fst demo_sessions = [demo_key [], demo_key ''b1'', demo_key ''b2'']"
  by (simp add: demo_eval)

lemma fork_winner_settles_the_leg_witness:
  "distinct (map tp_key (snd (markInviteFinalSuccess (demo_key ''b1'') demo_sessions)))"
  using fork_winner_settles_the_leg [OF demo_sessions_wf, of "demo_key ''b1''"] by blast

lemma teardown_planned_once_witness:
  "count_list (map tp_key (run_plans
     [Terminate (demo_key ''b1''), Terminate (demo_key ''b1''), Complete (demo_key ''b1''),
      Terminate (demo_key ''b2''), BeginResponse (demo_key ''b1''), Terminate (demo_key ''b1''),
      FinalFailure (demo_key ''b1'')] demo_sessions)) (demo_key ''b1'') \<le> 2"
proof -
  let ?ops = "[Terminate (demo_key ''b1''), Terminate (demo_key ''b1''), Complete (demo_key ''b1''),
      Terminate (demo_key ''b2''), BeginResponse (demo_key ''b1''), Terminate (demo_key ''b1''),
      FinalFailure (demo_key ''b1'')]"
  have "count_list (run_opened ?ops demo_sessions) (demo_key ''b1'') \<le> 1"
    by simp
  then show ?thesis
    using teardown_planned_once [OF demo_sessions_wf, of ?ops "demo_key ''b1''"]
    by (simp only: of_bool_def split: if_splits)
qed

lemma terminate_then_complete_removes_witness:
  "um_find (completeTermination (demo_key [])
     (fst (markTerminating (demo_key ''zz'') demo_sessions))) (demo_key []) = None"
proof -
  let ?p = "makeTerminationPlan (demo_key []) (snd (hd demo_sessions))"
  have "snd (markTerminating (demo_key ''zz'') demo_sessions) = Some ?p"
    by (simp add: demo_eval)
  from terminate_then_complete_removes [OF this, of "demo_key []"] show ?thesis by simp
qed

lemma media_table_invariant_witness:
  "um_wf (fold media_step [Create 0 (demo_key [])] []) \<and>
   session (snd (hd (fold media_step [Create 0 (demo_key [])] []))) = session_of_key (demo_key [])"
  using media_table_invariant [of "[Create 0 (demo_key [])]" "demo_key []"
      "snd (hd (fold media_step [Create 0 (demo_key [])] []))"]
  by (simp add: getSession_def createSession_def)

lemma lookup_by_call_needs_uniqueness_witness: "getSession_by_call ''c1'' demo_sessions = None"
proof -
  have wf: "um_wf demo_sessions" using demo_sessions_wf by (rule media_wf_um)
  have "length (filter (\<lambda>e. mk_call_id (fst e) = ''c1'') demo_sessions) = 3"
    by (simp add: demo_eval)
  then have "\<not> (\<exists>k. filter (\<lambda>e. mk_call_id (fst e) = ''c1'') demo_sessions = [(k, st)])" for st
    by force
  then show ?thesis
    using lookup_by_call_needs_uniqueness [OF wf, of "''c1''"] by (cases "getSession_by_call ''c1'' demo_sessions") auto
qed

end
