(* ===== verification/Rtpengine.thy ===== *)
theory Rtpengine
  imports Bencode Media_Session
begin

section \<open>The rtpengine client (rtp/rtpengine_client.cpp)\<close>

text \<open>
  Commands to the media relay: a bencoded dictionary behind a cookie in one UDP datagram, answered by
  a datagram with the same cookie.  The thread that sends a command and the receiver thread share the
  table of pending requests; each critical section is one operation here.  A pending request is an
  object in a heap (the caller keeps its \<^verbatim>\<open>shared_ptr\<close> after the table has dropped it), with
  the cookie it was sent under.
\<close>

subsection \<open>Commands and what their replies mean (rtp/types.hpp)\<close>

type_synonym dict = "(string \<times> BencodeValue) list"

record RtpengineFlags =
  fl_direction_from :: string
  fl_direction_to :: string
  fl_transport_protocol :: string
  fl_ice_remove :: bool
  fl_rtcp_mux_demux :: bool
  fl_replace :: "string option"
  fl_record_call :: "string option"

record RtpengineResult =
  rr_sdp :: string
  rr_tag :: string

definition relay_error :: "string \<Rightarrow> ErrorInfo" where
  "relay_error msg = mk_error kMediaRtpengineError msg []"

definition findStringField :: "dict \<Rightarrow> string \<Rightarrow> string option result" where
  "findStringField d key =
     (case map_of d key of
        None \<Rightarrow> Inr None
      | Some (BStr s) \<Rightarrow> Inr (Some s)
      | Some _ \<Rightarrow> Inl (relay_error (''rtpengine response field '' @ [CHR 0x27] @ key @ [CHR 0x27] @
                               '' has unexpected type'')))"

definition buildBaseCommand :: "string \<Rightarrow> MediaSession \<Rightarrow> dict" where
  "buildBaseCommand command s =
     (let cmd = dict_put ''from-tag'' (BStr (ms_from_tag s))
                  (dict_put ''call-id'' (BStr (ms_call_id s)) (dict_put ''command'' (BStr command) []))
      in if ms_to_tag s \<noteq> [] then dict_put ''to-tag'' (BStr (ms_to_tag s)) cmd else cmd)"

definition put_direction :: "RtpengineFlags \<Rightarrow> dict \<Rightarrow> dict" where
  "put_direction flags cmd =
     (if fl_direction_from flags \<noteq> []
      then dict_put ''direction'' (BList [BStr (fl_direction_from flags), BStr (fl_direction_to flags)]) cmd
      else cmd)"

definition put_ice :: "RtpengineFlags \<Rightarrow> dict \<Rightarrow> dict" where
  "put_ice flags cmd = (if fl_ice_remove flags then dict_put ''ICE'' (BStr ''remove'') cmd else cmd)"

definition offer_command :: "MediaSession \<Rightarrow> string \<Rightarrow> RtpengineFlags \<Rightarrow> dict" where
  "offer_command s sdp flags =
     (let cmd = put_ice flags (put_direction flags (dict_put ''sdp'' (BStr sdp) (buildBaseCommand ''offer'' s)))
      in case fl_replace flags of
           None \<Rightarrow> cmd | Some r \<Rightarrow> dict_put ''replace'' (BList [BStr r]) cmd)"

definition answer_command :: "MediaSession \<Rightarrow> string \<Rightarrow> RtpengineFlags \<Rightarrow> dict" where
  "answer_command s sdp flags =
     put_ice flags (put_direction flags (dict_put ''sdp'' (BStr sdp) (buildBaseCommand ''answer'' s)))"

text \<open>The value of an optional string field, the empty string when it is absent.\<close>

definition string_field_or_empty :: "dict \<Rightarrow> string \<Rightarrow> string result" where
  "string_field_or_empty d key =
     bind_result (findStringField d key) (\<lambda>v. Inr (case v of None \<Rightarrow> [] | Some s \<Rightarrow> s))"

definition offer_result :: "dict \<Rightarrow> RtpengineResult result" where
  "offer_result d =
     bind_result (findStringField d ''result'') (\<lambda>r.
       if r \<noteq> Some ''ok'' then
         bind_result (findStringField d ''error-reason'') (\<lambda>reason.
           Inl (relay_error (case reason of None \<Rightarrow> ''rtpengine offer failed'' | Some e \<Rightarrow> e)))
       else
         bind_result (string_field_or_empty d ''sdp'') (\<lambda>sdp.
           bind_result (string_field_or_empty d ''tag'') (\<lambda>tag.
             Inr \<lparr>rr_sdp = sdp, rr_tag = tag\<rparr>)))"

definition answer_result :: "dict \<Rightarrow> RtpengineResult result" where
  "answer_result d =
     bind_result (findStringField d ''result'') (\<lambda>r.
       if r \<noteq> Some ''ok'' then Inl (relay_error ''rtpengine answer failed'')
       else bind_result (string_field_or_empty d ''sdp'') (\<lambda>sdp. Inr \<lparr>rr_sdp = sdp, rr_tag = []\<rparr>))"

text \<open>The operations, given what \<^verbatim>\<open>sendCommand\<close> returns for their command.\<close>

definition relay_offer :: "dict result \<Rightarrow> RtpengineResult result" where
  "relay_offer response = bind_result response offer_result"

definition relay_answer :: "dict result \<Rightarrow> RtpengineResult result" where
  "relay_answer response = bind_result response answer_result"

definition delete_command :: "MediaSession \<Rightarrow> dict" where
  "delete_command s = buildBaseCommand ''delete'' s"

definition relay_deleteSession :: "dict result \<Rightarrow> unit result" where
  "relay_deleteSession response = bind_result response (\<lambda>_. Inr ())"

definition query_command :: "MediaSession \<Rightarrow> dict" where
  "query_command s = buildBaseCommand ''query'' s"

definition relay_query :: "dict result \<Rightarrow> string result" where
  "relay_query response = bind_result response (\<lambda>d. Inr (bencode_encode (BDict d)))"

definition ping_command :: dict where
  "ping_command = dict_put ''command'' (BStr ''ping'') []"

definition relay_ping :: "dict result \<Rightarrow> unit result" where
  "relay_ping response =
     bind_result response (\<lambda>d. bind_result (findStringField d ''result'') (\<lambda>r.
       if r = Some ''pong'' then Inr () else Inl (relay_error ''Unexpected ping response'')))"

subsection \<open>The client\<close>

record PendingRequest =
  pr_cookie :: string
  pr_completed :: bool
  pr_result :: "dict result"

text \<open>The receiver thread: never started, in its loop, or past it.  A \<^verbatim>\<open>jthread\<close> whose
  function has returned is still joinable.\<close>

datatype receiver = Not_started | Receiving | Ended

record relay_client =
  rc_cookie_counter :: "64 word"
  rc_heap :: "PendingRequest list"
  rc_pending :: "(string, nat) umap"
  rc_receiver :: receiver
  rc_shutting_down :: bool

definition RtpengineClientImpl :: relay_client where
  "RtpengineClientImpl = \<lparr>rc_cookie_counter = 0, rc_heap = [], rc_pending = [], rc_receiver = Not_started,
     rc_shutting_down = False\<rparr>"

definition shutting_down_error :: ErrorInfo where
  "shutting_down_error = relay_error ''Rtpengine client is shutting down''"

text \<open>\<open>started\<close>: the exception of starting a thread, if any.\<close>

definition ensureReceiverRunning :: "string option \<Rightarrow> relay_client \<Rightarrow> relay_client \<times> unit result" where
  "ensureReceiverRunning started c =
     (if rc_receiver c \<noteq> Not_started then (c, Inr ())
      else if rc_shutting_down c then (c, Inl shutting_down_error)
      else (case started of
              Some e \<Rightarrow> (c, Inl (mk_error kMediaRtpengineError ''Failed to start rtpengine receiver thread'' e))
            | None \<Rightarrow> (c\<lparr>rc_receiver := Receiving\<rparr>, Inr ())))"

definition generateCookie :: "relay_client \<Rightarrow> relay_client \<times> string" where
  "generateCookie c =
     (let n = rc_cookie_counter c + 1 in (c\<lparr>rc_cookie_counter := n\<rparr>, show_nat (unat n)))"

text \<open>\<^verbatim>\<open>sendCommand\<close> up to the datagram: the request that was registered and the payload.\<close>

definition begin_command ::
  "string option \<Rightarrow> dict \<Rightarrow> relay_client \<Rightarrow> relay_client \<times> (nat \<times> string) result" where
  "begin_command started cmd c =
     (if rc_shutting_down c then (c, Inl shutting_down_error)
      else (case ensureReceiverRunning started c of
              (c1, Inl e) \<Rightarrow> (c1, Inl e)
            | (c1, Inr _) \<Rightarrow>
                (let (c2, cookie) = generateCookie c1; i = length (rc_heap c2) in
                 (c2\<lparr>rc_heap := rc_heap c2 @
                        [\<lparr>pr_cookie = cookie, pr_completed = False,
                          pr_result = Inl (mk_error kInternalError ''rtpengine request not completed'' [])\<rparr>],
                     rc_pending := um_emplace cookie i (rc_pending c2)\<rparr>,
                  Inr (i, cookie @ '' '' @ bencode_encode (BDict cmd))))))"

text \<open>\<^verbatim>\<open>send_to\<close> fails.\<close>

definition command_not_sent :: "nat \<Rightarrow> string \<Rightarrow> relay_client \<Rightarrow> relay_client \<times> dict result" where
  "command_not_sent i e c =
     (c\<lparr>rc_pending := um_erase (pr_cookie (rc_heap c ! i)) (rc_pending c)\<rparr>,
      Inl (mk_error kMediaRtpengineError ''Failed to send to rtpengine'' e))"

text \<open>The end of the wait: the request is completed, or the time is over.\<close>

definition await_command :: "nat \<Rightarrow> relay_client \<Rightarrow> relay_client \<times> dict result" where
  "await_command i c =
     (let p = rc_heap c ! i in
      if pr_completed p then (c, pr_result p)
      else (c\<lparr>rc_pending := um_erase (pr_cookie p) (rc_pending c)\<rparr>,
            Inl (relay_error ''Timed out waiting for rtpengine response'')))"

text \<open>A reply.  \<open>what\<close> is the text of a standard exception; \<open>None\<close> says that the decoder does not
  return.\<close>

definition parseResponsePayload ::
  "(std_exception \<Rightarrow> string) \<Rightarrow> nat \<Rightarrow> string \<Rightarrow> (string \<times> dict) result option" where
  "parseResponsePayload what fuel response =
     (case find_char response (CHR '' '') of
        None \<Rightarrow> Some (Inl (relay_error ''Invalid rtpengine response format''))
      | Some space_pos \<Rightarrow>
          (case bencode_decode fuel (drop (space_pos + 1) response) of
             Inl Diverged \<Rightarrow> None
           | Inl (Thrown e) \<Rightarrow>
               Some (Inl (mk_error kMediaRtpengineError ''Failed to decode rtpengine response'' (what e)))
           | Inr (BDict d) \<Rightarrow> Some (Inr (substr response 0 space_pos, d))
           | Inr _ \<Rightarrow> Some (Inl (relay_error ''Expected dict in rtpengine response''))))"

definition completePendingRequest :: "string \<Rightarrow> dict result \<Rightarrow> relay_client \<Rightarrow> relay_client" where
  "completePendingRequest cookie r c =
     (case um_find (rc_pending c) cookie of
        None \<Rightarrow> c
      | Some i \<Rightarrow>
          c\<lparr>rc_pending := um_erase cookie (rc_pending c),
            rc_heap := (rc_heap c)[i := (rc_heap c ! i)\<lparr>pr_result := r, pr_completed := True\<rparr>]\<rparr>)"

fun fail_requests :: "ErrorInfo \<Rightarrow> nat list \<Rightarrow> PendingRequest list \<Rightarrow> PendingRequest list" where
  "fail_requests e [] heap = heap"
| "fail_requests e (i # is) heap =
     fail_requests e is (heap[i := (heap ! i)\<lparr>pr_result := Inl e, pr_completed := True\<rparr>])"

definition failAllPendingRequests :: "ErrorInfo \<Rightarrow> relay_client \<Rightarrow> relay_client" where
  "failAllPendingRequests e c =
     c\<lparr>rc_pending := [], rc_heap := fail_requests e (map snd (rc_pending c)) (rc_heap c)\<rparr>"

text \<open>One turn of the receiver's loop after its test of the flag: an error of the socket, with whether
  it says that the socket was closed, or a datagram and whether it came from the relay.\<close>

datatype received = Socket_error bool string | Datagram_in bool string

definition receiver_turn ::
  "(std_exception \<Rightarrow> string) \<Rightarrow> nat \<Rightarrow> received \<Rightarrow> relay_client \<Rightarrow> relay_client option" where
  "receiver_turn what fuel r c =
     (case r of
        Socket_error closed e \<Rightarrow>
          Some ((if rc_shutting_down c \<or> closed then c
                 else failAllPendingRequests
                        (mk_error kMediaRtpengineError ''Failed to receive from rtpengine'' e) c)
                \<lparr>rc_receiver := Ended\<rparr>)
      | Datagram_in from_relay payload \<Rightarrow>
          if \<not> from_relay then Some c
          else map_option (\<lambda>parsed. case parsed of
                   Inl _ \<Rightarrow> c
                 | Inr (cookie, d) \<Rightarrow> completePendingRequest cookie (Inr d) c)
                 (parseResponsePayload what fuel payload))"

definition relay_shutdown :: "relay_client \<Rightarrow> relay_client" where
  "relay_shutdown c = failAllPendingRequests shutting_down_error (c\<lparr>rc_shutting_down := True\<rparr>)"

subsection \<open>Runs\<close>

inductive relay_step ::
  "(std_exception \<Rightarrow> string) \<Rightarrow> nat \<Rightarrow> relay_client \<Rightarrow> received list \<Rightarrow> relay_client \<Rightarrow> bool" for what fuel where
  begin_step: "begin_command started cmd c = (c', r) \<Longrightarrow> relay_step what fuel c [] c'"
| not_sent: "i < length (rc_heap c) \<Longrightarrow> relay_step what fuel c [] (fst (command_not_sent i e c))"
| await: "i < length (rc_heap c) \<Longrightarrow> relay_step what fuel c [] (fst (await_command i c))"
| turn: "rc_receiver c = Receiving \<Longrightarrow> receiver_turn what fuel r c = Some c' \<Longrightarrow> relay_step what fuel c [r] c'"
| leave_loop: "rc_receiver c = Receiving \<Longrightarrow> rc_shutting_down c \<Longrightarrow>
    relay_step what fuel c [] (c\<lparr>rc_receiver := Ended\<rparr>)"
| shutdown: "relay_step what fuel c [] (relay_shutdown c)"

inductive_cases relay_stepE: "relay_step what fuel c rs c'"

inductive relay_steps ::
  "(std_exception \<Rightarrow> string) \<Rightarrow> nat \<Rightarrow> relay_client \<Rightarrow> received list \<Rightarrow> relay_client \<Rightarrow> bool" for what fuel c where
  run_nil: "relay_steps what fuel c [] c"
| run_step: "relay_steps what fuel c rs c' \<Longrightarrow> relay_step what fuel c' r c'' \<Longrightarrow> relay_steps what fuel c (rs @ r) c''"

text \<open>What holds in every run: a table entry leads to a request that waits under its key, cookies
  count the requests, and a request that was answered was answered under its cookie.\<close>

definition pending_ok :: "relay_client \<Rightarrow> bool" where
  "pending_ok c \<longleftrightarrow>
     (\<forall>k i. um_find (rc_pending c) k = Some i \<longrightarrow> i < length (rc_heap c) \<and> pr_cookie (rc_heap c ! i) = k)"

definition cookies_ok :: "relay_client \<Rightarrow> bool" where
  "cookies_ok c \<longleftrightarrow>
     (length (rc_heap c) < 2 ^ 64 \<longrightarrow> unat (rc_cookie_counter c) = length (rc_heap c) \<and>
       (\<forall>i < length (rc_heap c). pr_cookie (rc_heap c ! i) = show_nat (Suc i)))"

definition answered_by ::
  "(std_exception \<Rightarrow> string) \<Rightarrow> nat \<Rightarrow> received list \<Rightarrow> PendingRequest \<Rightarrow> bool" where
  "answered_by what fuel rs p \<longleftrightarrow>
     (\<forall>d. pr_result p = Inr d \<longrightarrow>
        (\<exists>payload. Datagram_in True payload \<in> set rs \<and>
           parseResponsePayload what fuel payload = Some (Inr (pr_cookie p, d))))"

lemma fail_one_effect:
  "length (heap[i := (heap ! i)\<lparr>pr_result := Inl e, pr_completed := True\<rparr>]) = length heap"
  "pr_cookie (heap[i := (heap ! i)\<lparr>pr_result := Inl e, pr_completed := True\<rparr>] ! j) = pr_cookie (heap ! j)"
  "pr_result (heap[i := (heap ! i)\<lparr>pr_result := Inl e, pr_completed := True\<rparr>] ! j) = pr_result (heap ! j) \<or>
   pr_result (heap[i := (heap ! i)\<lparr>pr_result := Inl e, pr_completed := True\<rparr>] ! j) = Inl e"
proof -
  show "length (heap[i := (heap ! i)\<lparr>pr_result := Inl e, pr_completed := True\<rparr>]) = length heap" by simp
  show "pr_cookie (heap[i := (heap ! i)\<lparr>pr_result := Inl e, pr_completed := True\<rparr>] ! j) = pr_cookie (heap ! j)"
  proof (cases "i < length heap \<and> i = j")
    case False
    then have "heap[i := x] ! j = heap ! j" for x by (cases "i < length heap") (auto simp: not_less list_update_beyond)
    then show ?thesis by simp
  qed simp
  show "pr_result (heap[i := (heap ! i)\<lparr>pr_result := Inl e, pr_completed := True\<rparr>] ! j) = pr_result (heap ! j) \<or>
   pr_result (heap[i := (heap ! i)\<lparr>pr_result := Inl e, pr_completed := True\<rparr>] ! j) = Inl e"
  proof (cases "i < length heap \<and> i = j")
    case False
    then have "heap[i := x] ! j = heap ! j" for x by (cases "i < length heap") (auto simp: not_less list_update_beyond)
    then show ?thesis by simp
  qed simp
qed

lemma fail_requests_length: "length (fail_requests e is heap) = length heap"
  by (induction "is" arbitrary: heap) simp_all

lemma fail_requests_cookie: "pr_cookie (fail_requests e is heap ! j) = pr_cookie (heap ! j)"
  by (induction "is" arbitrary: heap) (simp_all add: fail_one_effect(2))

lemma fail_requests_result:
  "pr_result (fail_requests e is heap ! j) = pr_result (heap ! j) \<or> pr_result (fail_requests e is heap ! j) = Inl e"
proof (induction "is" arbitrary: heap)
  case (Cons i "is" heap)
  then show ?case using fail_one_effect(3) [of heap i e j] by (simp del: nth_list_update) metis
qed simp

lemmas fail_requests_effect = fail_requests_length fail_requests_cookie fail_requests_result

lemma answered_by_mono: "answered_by what fuel rs p \<Longrightarrow> answered_by what fuel (rs @ r) p"
  unfolding answered_by_def by fastforce

definition relay_ok :: "(std_exception \<Rightarrow> string) \<Rightarrow> nat \<Rightarrow> received list \<Rightarrow> relay_client \<Rightarrow> bool" where
  "relay_ok what fuel rs c \<longleftrightarrow>
     pending_ok c \<and> cookies_ok c \<and> (\<forall>i < length (rc_heap c). answered_by what fuel rs (rc_heap c ! i))"

lemma relay_ok_cong:
  assumes "relay_ok what fuel rs c" and "rc_heap c' = rc_heap c" and "rc_cookie_counter c' = rc_cookie_counter c"
    and "rc_pending c' = rc_pending c"
  shows "relay_ok what fuel (rs @ r) c'"
  using assms answered_by_mono by (simp add: relay_ok_def pending_ok_def cookies_ok_def)

lemma relay_ok_erase:
  "relay_ok what fuel rs c \<Longrightarrow> relay_ok what fuel rs (c\<lparr>rc_pending := um_erase k (rc_pending c)\<rparr>)"
  by (auto simp: relay_ok_def pending_ok_def cookies_ok_def um_find_erase split: if_splits)

lemma relay_ok_begin:
  assumes "relay_ok what fuel rs c" and "begin_command started cmd c = (c', r)"
  shows "relay_ok what fuel rs c'"
proof (cases r)
  case (Inl e)
  then have "rc_heap c' = rc_heap c" "rc_cookie_counter c' = rc_cookie_counter c" "rc_pending c' = rc_pending c"
    using assms(2)
    by (auto simp: begin_command_def ensureReceiverRunning_def Let_def split: if_splits option.splits prod.splits)
  with relay_ok_cong [OF assms(1), of c' "[]"] show ?thesis by simp
next
  case (Inr a)
  define n where "n = rc_cookie_counter c + 1"
  have c': "rc_cookie_counter c' = n" "rc_heap c' = rc_heap c @ [\<lparr>pr_cookie = show_nat (unat n), pr_completed = False,
      pr_result = Inl (mk_error kInternalError ''rtpengine request not completed'' [])\<rparr>]"
    "rc_pending c' = um_emplace (show_nat (unat n)) (length (rc_heap c)) (rc_pending c)"
    using assms(2) Inr
    by (auto simp: begin_command_def ensureReceiverRunning_def generateCookie_def n_def Let_def
        split: if_splits option.splits prod.splits)
  have "pending_ok c'"
    using assms(1)
    by (auto simp: relay_ok_def pending_ok_def c' um_find_emplace nth_append less_Suc_eq split: if_splits)
  moreover have "cookies_ok c'"
  proof -
    have "unat n = Suc (length (rc_heap c))" if "Suc (length (rc_heap c)) < 2 ^ 64"
    proof -
      have u: "unat (rc_cookie_counter c) = length (rc_heap c)"
        using assms(1) that by (simp add: relay_ok_def cookies_ok_def)
      have "unat n = Suc (unat (rc_cookie_counter c)) mod 2 ^ 64"
        unfolding n_def by (simp add: unat_word_ariths)
      with u that show ?thesis by simp
    qed
    with assms(1) show ?thesis
      by (auto simp: relay_ok_def cookies_ok_def c' nth_append less_Suc_eq)
  qed
  moreover have "\<forall>i < length (rc_heap c'). answered_by what fuel rs (rc_heap c' ! i)"
    using assms(1) by (auto simp: relay_ok_def c' nth_append answered_by_def less_Suc_eq)
  ultimately show ?thesis by (simp add: relay_ok_def)
qed

lemma relay_ok_failAll:
  assumes "relay_ok what fuel rs c" shows "relay_ok what fuel rs (failAllPendingRequests e c)"
proof -
  have "answered_by what fuel rs (fail_requests e is (rc_heap c) ! i)" if "i < length (rc_heap c)" for i "is"
    using assms that fail_requests_cookie [of e "is" "rc_heap c" i] fail_requests_result [of e "is" "rc_heap c" i]
    by (auto simp: relay_ok_def answered_by_def)
  with assms show ?thesis
    by (simp add: relay_ok_def failAllPendingRequests_def pending_ok_def cookies_ok_def fail_requests_effect)
qed

lemma relay_ok_complete:
  assumes "relay_ok what fuel rs c"
    and "Datagram_in True payload \<in> set rs" and "parseResponsePayload what fuel payload = Some (Inr (cookie, d))"
  shows "relay_ok what fuel rs (completePendingRequest cookie (Inr d) c)"
proof (cases "um_find (rc_pending c) cookie")
  case None
  with assms(1) show ?thesis by (simp add: completePendingRequest_def)
next
  case (Some i)
  with assms(1) have i: "i < length (rc_heap c)" "pr_cookie (rc_heap c ! i) = cookie"
    by (auto simp: relay_ok_def pending_ok_def)
  let ?h = "(rc_heap c)[i := (rc_heap c ! i)\<lparr>pr_result := Inr d, pr_completed := True\<rparr>]"
  have ck: "pr_cookie (?h ! j) = pr_cookie (rc_heap c ! j)" for j
    using i(1) by (cases "i = j") simp_all
  have "answered_by what fuel rs (?h ! j)" if "j < length (rc_heap c)" for j
    using assms i that by (cases "i = j") (auto simp: relay_ok_def answered_by_def)
  with assms(1) ck show ?thesis
    by (simp add: completePendingRequest_def Some relay_ok_def pending_ok_def cookies_ok_def um_find_erase)
qed

lemma relay_step_ok:
  assumes "relay_step what fuel c r c'" and "relay_ok what fuel rs c"
  shows "relay_ok what fuel (rs @ r) c'"
  using assms(1)
proof cases
  case (begin_step started cmd res)
  with relay_ok_begin [OF assms(2)] show ?thesis by simp
next
  case (not_sent i e)
  then show ?thesis using relay_ok_erase [OF assms(2)] by (simp add: command_not_sent_def)
next
  case (await i)
  then show ?thesis using relay_ok_erase [OF assms(2)] assms(2) by (auto simp: await_command_def Let_def)
next
  case (turn x)
  have ok: "relay_ok what fuel (rs @ r) c" by (rule relay_ok_cong [OF assms(2)]) simp_all
  show ?thesis
  proof (cases x)
    case (Socket_error closed e)
    let ?e = "mk_error kMediaRtpengineError ''Failed to receive from rtpengine'' e"
    have "relay_ok what fuel ((rs @ r) @ []) (d\<lparr>rc_receiver := Ended\<rparr>)" if "relay_ok what fuel (rs @ r) d" for d
      by (rule relay_ok_cong [OF that]) simp_all
    with turn Socket_error ok relay_ok_failAll [OF ok, of ?e] show ?thesis
      by (auto simp: receiver_turn_def split: if_splits)
  next
    case (Datagram_in from_relay payload)
    show ?thesis
    proof (cases from_relay)
      case True
      with turn Datagram_in obtain parsed where
        "parseResponsePayload what fuel payload = Some parsed" and
        "c' = (case parsed of Inl _ \<Rightarrow> c | Inr (cookie, d) \<Rightarrow> completePendingRequest cookie (Inr d) c)"
        by (auto simp: receiver_turn_def)
      with turn Datagram_in True ok relay_ok_complete [OF ok, of payload] show ?thesis
        by (cases parsed) auto
    qed (use turn Datagram_in ok in \<open>simp add: receiver_turn_def\<close>)
  qed
next
  case leave_loop
  then show ?thesis using relay_ok_cong [OF assms(2), of c' r] by auto
next
  case shutdown
  have "relay_ok what fuel (rs @ []) (c\<lparr>rc_shutting_down := True\<rparr>)" by (rule relay_ok_cong [OF assms(2)]) simp_all
  with shutdown show ?thesis by (simp add: relay_shutdown_def relay_ok_failAll)
qed

lemma relay_steps_ok: "relay_steps what fuel RtpengineClientImpl rs c \<Longrightarrow> relay_ok what fuel rs c"
proof (induction rule: relay_steps.induct)
  case run_nil
  then show ?case by (simp add: relay_ok_def pending_ok_def cookies_ok_def RtpengineClientImpl_def)
qed (rule relay_step_ok)
lemma show_nat_inj: "show_nat m = show_nat n \<Longrightarrow> m = n"
  using nat_of_digits_show_nat by metis

lemma cookies_distinct:
  assumes "relay_ok what fuel rs c" and "length (rc_heap c) < 2 ^ 64"
    and "i < length (rc_heap c)" and "j < length (rc_heap c)" and "i \<noteq> j"
  shows "pr_cookie (rc_heap c ! i) \<noteq> pr_cookie (rc_heap c ! j)"
  using assms show_nat_inj by (fastforce simp: relay_ok_def cookies_ok_def)

text \<open>C20: Replies reach the request they answer: in every run of the client, a request that was
  completed with a dictionary was answered by a datagram from the relay that carries this dictionary
  under the request's own cookie, and no other request has that cookie.\<close>

theorem replies_reach_their_request:
  assumes "relay_steps what fuel RtpengineClientImpl rs c" and "length (rc_heap c) < 2 ^ 64"
    and "i < length (rc_heap c)" and "pr_result (rc_heap c ! i) = Inr d"
  shows "(\<exists>payload. Datagram_in True payload \<in> set rs \<and>
      parseResponsePayload what fuel payload = Some (Inr (pr_cookie (rc_heap c ! i), d))) \<and>
    pr_cookie (rc_heap c ! i) \<notin> (\<lambda>j. pr_cookie (rc_heap c ! j)) ` ({..<length (rc_heap c)} - {i})"
proof
  note ok = relay_steps_ok [OF assms(1)]
  with assms(3,4) show "\<exists>payload. Datagram_in True payload \<in> set rs \<and>
      parseResponsePayload what fuel payload = Some (Inr (pr_cookie (rc_heap c ! i), d))"
    by (auto simp: relay_ok_def answered_by_def)
  show "pr_cookie (rc_heap c ! i) \<notin> (\<lambda>j. pr_cookie (rc_heap c ! j)) ` ({..<length (rc_heap c)} - {i})"
    using cookies_distinct [OF ok assms(2,3)] by auto
qed

lemma reply_parses:
  assumes "CHR '' '' \<notin> set cookie" and "bwf (BDict d)"
    and "length (bencode_encode (BDict d)) < 2 ^ 64" and "2 * length (bencode_encode (BDict d)) \<le> fuel"
  shows "parseResponsePayload what fuel (cookie @ '' '' @ bencode_encode (BDict d)) = Some (Inr (cookie, d))"
proof -
  have f: "find_char (cookie @ '' '' @ bencode_encode (BDict d)) (CHR '' '') = Some (length cookie)"
    using find_char_append [OF assms(1)] by simp
  have "parse fuel (bencode_encode (BDict d)) 0 = Inr (BDict d, length (bencode_encode (BDict d)))"
    using parse_encode [OF assms(2), of "bencode_encode (BDict d)" "[]" "[]" fuel] assms(3,4) by simp
  with f show ?thesis by (simp add: parseResponsePayload_def bencode_decode_def substr_def del: bencode_encode.simps)
qed

lemma cookie_no_blank: "CHR '' '' \<notin> set (show_nat n)"
  using show_nat_digits [of "CHR '' ''" n] by (auto simp: is_digit_def char_code_def)

text \<open>A command and its reply: in every run, the caller of a command that the relay answers with any
  dictionary under the command's cookie gets exactly that dictionary.\<close>

theorem answered_command_returns_the_reply:
  assumes "relay_steps what fuel RtpengineClientImpl rs c" and "length (rc_heap c) + 1 < 2 ^ 64"
    and "begin_command started cmd c = (c1, Inr (i, payload))"
    and "bwf (BDict d)" and "length (bencode_encode (BDict d)) < 2 ^ 64"
    and "2 * length (bencode_encode (BDict d)) \<le> fuel"
  shows "\<exists>c2. receiver_turn what fuel
      (Datagram_in True (pr_cookie (rc_heap c1 ! i) @ '' '' @ bencode_encode (BDict d))) c1 = Some c2 \<and>
    await_command i c2 = (c2, Inr d)"
proof -
  note ok = relay_steps_ok [OF assms(1)]
  note ok1 = relay_ok_begin [OF ok assms(3)]
  have i: "i = length (rc_heap c)" "length (rc_heap c1) = Suc i"
      "rc_pending c1 = um_emplace (pr_cookie (rc_heap c1 ! i)) i (rc_pending c)"
      "\<And>j. j < i \<Longrightarrow> pr_cookie (rc_heap c1 ! j) = pr_cookie (rc_heap c ! j)"
    using assms(3)
    by (auto simp: begin_command_def ensureReceiverRunning_def generateCookie_def Let_def nth_append
        split: if_splits option.splits prod.splits)
  let ?cookie = "pr_cookie (rc_heap c1 ! i)"
  have ck: "?cookie = show_nat (Suc i)" using ok1 i(1,2) assms(2) by (simp add: relay_ok_def cookies_ok_def)
  have "um_find (rc_pending c) ?cookie = None"
  proof (rule ccontr)
    assume "um_find (rc_pending c) ?cookie \<noteq> None"
    then obtain j where "um_find (rc_pending c) ?cookie = Some j" by auto
    then have j: "j < length (rc_heap c)" "pr_cookie (rc_heap c ! j) = ?cookie"
      using ok by (auto simp: relay_ok_def pending_ok_def)
    then show False using cookies_distinct [OF ok1, of j i] i assms(2) by simp
  qed
  with i(3) have "um_find (rc_pending c1) ?cookie = Some i" by (simp add: um_find_emplace)
  moreover have "parseResponsePayload what fuel (?cookie @ '' '' @ bencode_encode (BDict d)) = Some (Inr (?cookie, d))"
    by (rule reply_parses [OF _ assms(4-6)]) (simp add: ck cookie_no_blank)
  ultimately show ?thesis
    using i(2) by (simp add: receiver_turn_def completePendingRequest_def await_command_def Let_def
        del: bencode_encode.simps)
qed

lemma completePendingRequest_shutting_down [simp]:
  "rc_shutting_down (completePendingRequest k r c) = rc_shutting_down c"
  by (simp add: completePendingRequest_def split: option.split)

lemma failAllPendingRequests_shutting_down [simp]:
  "rc_shutting_down (failAllPendingRequests e c) = rc_shutting_down c"
  by (simp add: failAllPendingRequests_def)

lemma receiver_turn_shutting_down:
  assumes "receiver_turn what fuel r c = Some c'"
  shows "rc_shutting_down c' = rc_shutting_down c"
proof (cases r)
  case (Socket_error closed e)
  with assms show ?thesis by (simp add: receiver_turn_def split: if_splits) auto
next
  case (Datagram_in from_relay payload)
  show ?thesis
  proof (cases from_relay)
    case True
    let ?next = "\<lambda>parsed :: (string \<times> dict) result. case parsed of Inl _ \<Rightarrow> c | Inr (cookie, d) \<Rightarrow> completePendingRequest cookie (Inr d) c"
    have "map_option ?next (parseResponsePayload what fuel payload) = Some c'"
      using True Datagram_in assms by (simp add: receiver_turn_def)
    then obtain parsed where "?next parsed = c'" by auto
    then show ?thesis by (cases parsed) (auto split: prod.splits)
  qed (use Datagram_in assms in \<open>simp add: receiver_turn_def\<close>)
qed

lemma begin_command_shutting_down:
  "begin_command started cmd c = (c', r) \<Longrightarrow> rc_shutting_down c' = rc_shutting_down c"
  by (auto simp: begin_command_def ensureReceiverRunning_def generateCookie_def Let_def
      split: if_splits option.splits prod.splits)

lemma relay_step_shutting_down:
  "relay_step what fuel c rs c' \<Longrightarrow> rc_shutting_down c \<Longrightarrow> rc_shutting_down c'"
  by (erule relay_stepE)
    (simp_all add: begin_command_shutting_down receiver_turn_shutting_down command_not_sent_def
      await_command_def relay_shutdown_def Let_def)

text \<open>A receiver that has left its loop is never started again: after an error of the socket the
  thread is still joinable, so every command sent later is never answered and times out, until the
  client is shut down.\<close>

theorem dead_receiver_is_not_restarted:
  assumes "relay_steps what fuel c rs c'" and "rc_receiver c = Ended" and "\<not> rc_shutting_down c'"
    and "length (rc_heap c) \<le> i" and "i < length (rc_heap c')"
  shows "snd (await_command i c') = Inl (relay_error ''Timed out waiting for rtpengine response'')"
proof -
  have "rc_receiver c' = Ended \<and> length (rc_heap c) \<le> length (rc_heap c') \<and>
    (\<forall>i. length (rc_heap c) \<le> i \<and> i < length (rc_heap c') \<longrightarrow> \<not> pr_completed (rc_heap c' ! i))"
    using assms(1,2,3)
  proof (induction rule: relay_steps.induct)
    case (run_step rs c1 r c2)
    have down: "rc_shutting_down c1 \<Longrightarrow> rc_shutting_down c2" by (rule relay_step_shutting_down [OF run_step.hyps(2)])
    with run_step have IH: "rc_receiver c1 = Ended" "length (rc_heap c) \<le> length (rc_heap c1)"
      "\<And>i. length (rc_heap c) \<le> i \<Longrightarrow> i < length (rc_heap c1) \<Longrightarrow> \<not> pr_completed (rc_heap c1 ! i)"
      by auto
    from run_step.hyps(2) show ?case
    proof cases
      case (begin_step started cmd res)
      with IH show ?thesis
        by (auto simp: begin_command_def ensureReceiverRunning_def generateCookie_def Let_def nth_append
            split: if_splits option.splits prod.splits)
    next
      case (not_sent i e)
      with IH show ?thesis by (simp add: command_not_sent_def)
    next
      case (await i)
      with IH show ?thesis by (simp add: await_command_def Let_def)
    next
      case shutdown
      with run_step.prems show ?thesis by (simp add: relay_shutdown_def failAllPendingRequests_def)
    qed (use IH in simp_all)
  qed auto
  with assms(4,5) show ?thesis by (simp add: await_command_def Let_def)
qed

text \<open>A run: a ping is sent, and the socket reports an error.\<close>

definition demo_ping :: "relay_client" where
  "demo_ping = fst (begin_command None ping_command RtpengineClientImpl)"

lemma demo_ping_run: "relay_steps what fuel RtpengineClientImpl [] demo_ping"
proof -
  have "relay_step what fuel RtpengineClientImpl [] demo_ping"
    unfolding demo_ping_def by (rule begin_step [where r = "snd (begin_command None ping_command RtpengineClientImpl)"]) simp
  from relay_steps.run_step [OF relay_steps.run_nil this] show ?thesis by simp
qed

lemma show_nat_1: "show_nat (Suc 0) = ''1''"
  by code_simp

lemma demo_ping_begun:
  "begin_command None ping_command RtpengineClientImpl =
     (demo_ping, Inr (0, ''1'' @ '' '' @ bencode_encode (BDict ping_command)))"
  "rc_receiver demo_ping = Receiving" "rc_shutting_down demo_ping = False"
  "rc_heap demo_ping = [\<lparr>pr_cookie = ''1'', pr_completed = False,
     pr_result = Inl (mk_error kInternalError ''rtpengine request not completed'' [])\<rparr>]"
  "rc_pending demo_ping = [(''1'', 0)]"
  by (simp_all add: demo_ping_def begin_command_def ensureReceiverRunning_def RtpengineClientImpl_def
      generateCookie_def show_nat_1 um_emplace_def del: bencode_encode.simps)

lemma ping_reply: "bwf (BDict [(''result'', BStr ''pong'')])" "length (bencode_encode (BDict [(''result'', BStr ''pong'')])) = 16"
  by code_simp+

definition demo_reply :: received where
  "demo_reply = Datagram_in True (''1'' @ '' '' @ bencode_encode (BDict [(''result'', BStr ''pong'')]))"

lemma answered_command_returns_the_reply_witness:
  "\<exists>c2. receiver_turn (\<lambda>_. []) 32 demo_reply demo_ping = Some c2 \<and>
     await_command 0 c2 = (c2, Inr [(''result'', BStr ''pong'')])"
  using answered_command_returns_the_reply [OF relay_steps.run_nil [of "\<lambda>_. []" 32] _ demo_ping_begun(1) ping_reply(1)]
  by (simp add: ping_reply(2) demo_ping_begun(4) demo_reply_def RtpengineClientImpl_def del: bencode_encode.simps bwf.simps)

lemma demo_reply_parses:
  "parseResponsePayload (\<lambda>_. []) 32 (''1'' @ '' '' @ bencode_encode (BDict [(''result'', BStr ''pong'')])) =
     Some (Inr (''1'', [(''result'', BStr ''pong'')]))"
  by (rule reply_parses) (simp_all add: ping_reply del: bencode_encode.simps bwf.simps)

definition demo_answered :: relay_client where
  "demo_answered = completePendingRequest ''1'' (Inr [(''result'', BStr ''pong'')]) demo_ping"

lemma demo_answered_run: "relay_steps (\<lambda>_. []) 32 RtpengineClientImpl [demo_reply] demo_answered"
proof -
  have "receiver_turn (\<lambda>_. []) 32 demo_reply demo_ping = Some demo_answered"
    using demo_reply_parses by (simp add: receiver_turn_def demo_reply_def demo_answered_def del: bencode_encode.simps)
  from relay_steps.run_step [OF demo_ping_run relay_step.turn [OF demo_ping_begun(2) this]] show ?thesis by simp
qed

lemma replies_reach_their_request_witness: "\<exists>payload. Datagram_in True payload \<in> set [demo_reply]"
  using replies_reach_their_request [OF demo_answered_run, of 0 "[(''result'', BStr ''pong'')]"]
  by (auto simp: demo_answered_def completePendingRequest_def demo_ping_begun)

definition demo_dead :: relay_client where
  "demo_dead = the (receiver_turn (\<lambda>_. []) 0 (Socket_error False ''refused'') demo_ping)"

lemma dead_receiver_is_not_restarted_witness:
  "snd (await_command 1 (fst (begin_command None ping_command demo_dead))) =
     Inl (relay_error ''Timed out waiting for rtpengine response'')"
proof -
  let ?c = "fst (begin_command None ping_command demo_dead)"
  have "relay_step (\<lambda>_. []) 0 demo_dead [] ?c" by (rule begin_step) (rule prod.collapse [symmetric])
  from relay_steps.run_step [OF relay_steps.run_nil this] have run: "relay_steps (\<lambda>_. []) 0 demo_dead [] ?c" by simp
  have d: "rc_receiver demo_dead = Ended" "rc_shutting_down demo_dead = False" "length (rc_heap demo_dead) = 1"
    by (simp_all add: demo_dead_def receiver_turn_def failAllPendingRequests_def demo_ping_begun)
  have "rc_shutting_down ?c = False" "length (rc_heap ?c) = 2"
    by (simp_all add: begin_command_def ensureReceiverRunning_def generateCookie_def Let_def d)
  with d show ?thesis using dead_receiver_is_not_restarted [OF run, of 1] by simp
qed

end
