(* ===== verification/Aka_Vector.thy ===== *)
theory Aka_Vector
  imports Milenage
begin

section \<open>Diameter types and AKA vectors (diameter/types.hpp, diameter/aka_vector_builder.cpp)\<close>

text \<open>
  The parameter and result structs of the Cx interface, the subscriber record of the
  configuration, and the construction of an authentication vector from it.  The sixteen random
  bytes drawn from the generator are an argument.
\<close>

subsection \<open>Cx types\<close>

datatype UarAuthType = UAR_kRegistration | UAR_kDeRegistration | UAR_kRegistrationAndCapabilities

record UarParams =
  uar_impi :: string
  uar_impu :: string
  uar_visited_network :: string
  uar_auth_type :: UarAuthType

record Capabilities =
  cap_mandatory :: "32 word list"
  cap_optional :: "32 word list"

record UaaResult =
  uaa_result_code :: "32 word"
  uaa_assigned_scscf :: string
  uaa_server_capabilities :: "Capabilities option"

record MarParams =
  mar_impi :: string
  mar_impu :: string
  mar_sip_auth_scheme :: string
  mar_sip_authorization :: string
  mar_server_name :: string
  mar_sip_number_auth_items :: "32 word"

record AuthVector =
  av_rand :: "byte list"
  av_autn :: "byte list"
  av_xres :: "byte list"
  av_ck :: "byte list"
  av_ik :: "byte list"

record MaaResult =
  maa_result_code :: "32 word"
  maa_sip_auth_scheme :: string
  maa_auth_vector :: AuthVector

datatype AssignmentType =
    SAR_kNoAssignment | SAR_kRegistration | SAR_kReRegistration | SAR_kUnregisteredUser
  | SAR_kTimeoutDeregistration | SAR_kUserDeregistration | SAR_kDeregistrationTooMuchData
  | SAR_kAdminDeregistration | SAR_kAuthenticationFailure | SAR_kAuthenticationTimeout

record SarParams =
  sar_impi :: string
  sar_impu :: string
  sar_server_name :: string
  sar_assignment_type :: AssignmentType

datatype TriggerType = kMethod | kHeader | kRequestUri | kSessionCase

record InitialFilterCriteria =
  ifc_priority :: "32 word"
  ifc_condition_type_cnf :: bool
  ifc_triggers :: "(TriggerType \<times> string) list"
  ifc_application_server_uri :: string

record UserProfile =
  up_impu :: string
  up_associated_impus :: "string list"
  up_ifcs :: "InitialFilterCriteria list"

record SaaResult =
  saa_result_code :: "32 word"
  saa_user_profile :: UserProfile

record LirParams =
  lir_impu :: string
  lir_originating :: bool

record LiaResult =
  lia_result_code :: "32 word"
  lia_assigned_scscf :: string
  lia_server_capabilities :: "Capabilities option"

definition kDiameterSuccess :: "32 word" where
  "kDiameterSuccess = 2001"

subsection \<open>Subscribers (common/config.hpp)\<close>

record HssSubscriberConfig =
  sub_imsi :: string
  sub_tel :: string
  sub_password :: string
  sub_realm :: string
  sub_ki :: string
  sub_operator_code_type :: string
  sub_opc :: string
  sub_op :: string
  sub_sqn :: string
  sub_amf :: string

subsection \<open>Hexadecimal fields\<close>

definition hex_value :: "char \<Rightarrow> nat option" where
  "hex_value ch =
     (let n = char_code ch in
      if 48 \<le> n \<and> n \<le> 57 then Some (n - 48)
      else if 97 \<le> n \<and> n \<le> 102 then Some (n - 97 + 10)
      else if 65 \<le> n \<and> n \<le> 70 then Some (n - 65 + 10)
      else None)"

fun parse_hex_loop :: "string \<Rightarrow> byte list option" where
  "parse_hex_loop (a # b # s) =
     (case (hex_value a, hex_value b) of
        (Some hi, Some lo) \<Rightarrow>
          (case parse_hex_loop s of
             None \<Rightarrow> None
           | Some bs \<Rightarrow> Some ((push_bit 4 (word_of_nat hi) OR word_of_nat lo) # bs))
      | _ \<Rightarrow> None)"
| "parse_hex_loop s = Some []"

definition parse_hex_exact :: "nat \<Rightarrow> string \<Rightarrow> string \<Rightarrow> byte list result" where
  "parse_hex_exact n value field_name =
     (if length value \<noteq> n * 2
      then Inl (mk_error kConfigInvalidValue ''invalid AKA hex field length'' field_name)
      else (case parse_hex_loop value of
              None \<Rightarrow> Inl (mk_error kConfigInvalidValue ''invalid AKA hex field value'' field_name)
            | Some bs \<Rightarrow> Inr bs))"

subsection \<open>The builder\<close>

definition resolve_op :: "HssSubscriberConfig \<Rightarrow> block \<Rightarrow> block result" where
  "resolve_op s k =
     (case parse_hex_exact 16 (sub_op s) ''op'' of Inl e \<Rightarrow> Inl e | Inr op \<Rightarrow> compute_opc k op)"

definition resolve_opc :: "HssSubscriberConfig \<Rightarrow> block \<Rightarrow> block result" where
  "resolve_opc s k =
     (if sub_operator_code_type s = ''opc'' then
        (if sub_opc s = []
         then Inl (mk_error kConfigInvalidValue ''missing AKA opc for operator_code_type=opc'' (sub_imsi s))
         else parse_hex_exact 16 (sub_opc s) ''opc'')
      else if sub_operator_code_type s = ''op'' then
        (if sub_op s = []
         then Inl (mk_error kConfigInvalidValue ''missing AKA op for operator_code_type=op'' (sub_imsi s))
         else resolve_op s k)
      else if sub_opc s \<noteq> [] then parse_hex_exact 16 (sub_opc s) ''opc''
      else if sub_op s = []
      then Inl (mk_error kConfigInvalidValue ''missing AKA operator code'' (sub_imsi s))
      else resolve_op s k)"

definition build_aka_auth_vector :: "HssSubscriberConfig \<Rightarrow> block \<Rightarrow> AuthVector result" where
  "build_aka_auth_vector s rnd =
     (if sub_ki s = [] \<or> sub_sqn s = []
      then Inl (mk_error kConfigInvalidValue ''missing AKA subscriber material'' (sub_imsi s))
      else
        bind_result (parse_hex_exact 16 (sub_ki s) ''ki'') (\<lambda>k.
        bind_result (resolve_opc s k) (\<lambda>opc.
        bind_result (parse_hex_exact 6 (sub_sqn s) ''sqn'') (\<lambda>sqn.
        bind_result (parse_hex_exact 2 (if sub_amf s = [] then ''8000'' else sub_amf s) ''amf'') (\<lambda>amf.
        bind_result (generate_vector opc k sqn amf rnd) (\<lambda>v.
          Inr \<lparr>av_rand = rnd, av_autn = mv_autn v, av_xres = mv_xres v,
               av_ck = mv_ck v, av_ik = mv_ik v\<rparr>))))))"

subsection \<open>Printing hexadecimal\<close>

definition hex_char :: "nat \<Rightarrow> char" where
  "hex_char d = (if d < 10 then char_of (48 + d) else char_of (87 + d))"

text \<open>\<^verbatim>\<open>std::format("{:0Nx}", v)\<close> for values of at most N hex digits.\<close>

fun hex_digits :: "nat \<Rightarrow> nat \<Rightarrow> string" where
  "hex_digits 0 v = []"
| "hex_digits (Suc n) v = hex_digits n (v div 16) @ [hex_char (v mod 16)]"

text \<open>The bytes of a number, most significant first.\<close>

fun be_bytes :: "nat \<Rightarrow> nat \<Rightarrow> byte list" where
  "be_bytes 0 v = []"
| "be_bytes (Suc n) v = be_bytes n (v div 256) @ [word_of_nat (v mod 256)]"

lemma length_hex_digits [simp]: "length (hex_digits n v) = n"
  by (induction n v rule: hex_digits.induct) simp_all

lemma length_be_bytes [simp]: "length (be_bytes n v) = n"
  by (induction n v rule: be_bytes.induct) simp_all

lemma hex_value_hex_char: "d < 16 \<Longrightarrow> hex_value (hex_char d) = Some d"
  by (cases "d < 10") (simp_all add: hex_value_def hex_char_def Let_def)

lemma nibbles:
  assumes "a < 16" "b < 16"
  shows "push_bit 4 (word_of_nat a) OR word_of_nat b = (word_of_nat (16 * a + b) :: byte)"
proof -
  have "push_bit 4 (word_of_nat a :: byte) AND word_of_nat b = 0"
  proof (rule bit_eqI)
    fix n assume "possible_bit TYPE(byte) n"
    show "bit (push_bit 4 (word_of_nat a :: byte) AND word_of_nat b) n = bit 0 n"
    proof (cases "n < 4")
      case False
      have "b < 2 ^ n" using assms(2) False power_increasing [of 4 n "2 :: nat"] by simp
      then have "\<not> bit b n" by (simp add: bit_iff_odd)
      then show ?thesis by (simp add: bit_simps)
    qed (simp add: bit_simps)
  qed
  then have "push_bit 4 (word_of_nat a :: byte) OR word_of_nat b = push_bit 4 (word_of_nat a) + word_of_nat b"
    by (simp add: disjunctive_add_eq_or)
  then show ?thesis by (simp add: push_bit_eq_mult mult.commute)
qed

lemma parse_hex_loop_append:
  "even (length s) \<Longrightarrow> parse_hex_loop (s @ t) =
     (case parse_hex_loop s of None \<Rightarrow> None
      | Some bs \<Rightarrow> (case parse_hex_loop t of None \<Rightarrow> None | Some cs \<Rightarrow> Some (bs @ cs)))"
proof (induction s rule: parse_hex_loop.induct)
  case (1 a b s)
  then show ?case by (simp split: option.splits)
qed (simp_all split: option.split)

lemma parse_hex_digits: "parse_hex_loop (hex_digits (2 * n) v) = Some (be_bytes n v)"
proof (induction n arbitrary: v)
  case (Suc n)
  have d: "v div 16 div 16 = v div 256" by (simp flip: div_mult2_eq)
  have h: "hex_digits (2 * Suc n) v =
      hex_digits (2 * n) (v div 256) @ [hex_char (v div 16 mod 16), hex_char (v mod 16)]"
    by (simp add: d)
  have m: "16 * (v div 16 mod 16) + v mod 16 = v mod 256"
    using mod_mult2_eq [of v 16 16] by (simp add: mult.commute)
  show ?case
    unfolding h
    by (simp add: parse_hex_loop_append Suc hex_value_hex_char nibbles m)
qed simp

subsection \<open>Lemmas\<close>

lemma parse_hex_loop_length: "parse_hex_loop s = Some bs \<Longrightarrow> length bs = length s div 2"
  by (induction s arbitrary: bs rule: parse_hex_loop.induct) (auto split: option.splits)

lemma parse_hex_exact_length: "parse_hex_exact n s f = Inr bs \<Longrightarrow> length bs = n"
  by (auto simp: parse_hex_exact_def dest: parse_hex_loop_length split: if_splits option.splits)

lemma built_vector:
  assumes "build_aka_auth_vector s rnd = Inr av"
  shows "\<exists>k opc sqn amf. parse_hex_exact 16 (sub_ki s) ''ki'' = Inr k \<and> resolve_opc s k = Inr opc \<and>
    parse_hex_exact 6 (sub_sqn s) ''sqn'' = Inr sqn \<and>
    parse_hex_exact 2 (if sub_amf s = [] then ''8000'' else sub_amf s) ''amf'' = Inr amf \<and>
    map (\<lambda>i. av_autn av ! i XOR f_ak (f2345 opc k rnd) ! i) [0..<6] = sqn \<and>
    take 2 (drop 6 (av_autn av)) = amf \<and> drop 8 (av_autn av) = f1 opc k rnd sqn amf \<and>
    av_xres av = f_res (f2345 opc k rnd) \<and> av_rand av = rnd \<and>
    length (av_autn av) = 16 \<and> length (av_xres av) = 8 \<and> length (av_ck av) = 16 \<and> length (av_ik av) = 16"
proof -
  from assms obtain k opc sqn amf v where p:
      "parse_hex_exact 16 (sub_ki s) ''ki'' = Inr k" "resolve_opc s k = Inr opc"
      "parse_hex_exact 6 (sub_sqn s) ''sqn'' = Inr sqn"
      "parse_hex_exact 2 (if sub_amf s = [] then ''8000'' else sub_amf s) ''amf'' = Inr amf"
      "generate_vector opc k sqn amf rnd = Inr v"
      "av = \<lparr>av_rand = rnd, av_autn = mv_autn v, av_xres = mv_xres v, av_ck = mv_ck v, av_ik = mv_ik v\<rparr>"
    unfolding build_aka_auth_vector_def bind_result_Inr_iff
    by (auto simp: bind_result_Inr_iff split: if_splits)
  have len: "length sqn = 6" "length amf = 2"
    using p(3,4) parse_hex_exact_length by blast+
  have "mv_xres v = f_res (f2345 opc k rnd)"
    using p(5) by (auto simp: generate_vector_def Let_def)
  then show ?thesis using generated_token [OF len p(5)] p by auto
qed

subsection \<open>Properties\<close>

text \<open>A vector is built from the subscriber's own key and counter: when the builder succeeds,
  the token carries exactly the SQN and AMF of the record (8000 when none is configured)
  masked with the anonymity key of the resolved operator code, and the four keys have the sizes of
  the protocol.\<close>

theorem vector_carries_the_subscribers_sqn:
  assumes "build_aka_auth_vector s rnd = Inr av"
  shows "\<exists>k opc sqn amf. parse_hex_exact 16 (sub_ki s) ''ki'' = Inr k \<and> resolve_opc s k = Inr opc \<and>
    parse_hex_exact 6 (sub_sqn s) ''sqn'' = Inr sqn \<and>
    parse_hex_exact 2 (if sub_amf s = [] then ''8000'' else sub_amf s) ''amf'' = Inr amf \<and>
    map (\<lambda>i. av_autn av ! i XOR f_ak (f2345 opc k rnd) ! i) [0..<6] = sqn \<and>
    take 2 (drop 6 (av_autn av)) = amf \<and> drop 8 (av_autn av) = f1 opc k rnd sqn amf \<and>
    av_xres av = f_res (f2345 opc k rnd) \<and> av_rand av = rnd \<and>
    length (av_autn av) = 16 \<and> length (av_xres av) = 8 \<and> length (av_ck av) = 16 \<and> length (av_ik av) = 16"
  by (rule built_vector [OF assms])

definition demo_subscriber :: HssSubscriberConfig where
  "demo_subscriber =
     \<lparr>sub_imsi = ''001010000000001'', sub_tel = ''+8613800000001'', sub_password = ''secret'',
      sub_realm = ''ims.local'', sub_ki = ''465b5ce8b199b49faa5f0a2ee238a6bc'',
      sub_operator_code_type = ''opc'', sub_opc = ''cd63cb71954a9f4e48a5994e37a02baf'',
      sub_op = [], sub_sqn = ''ff9bb4d0b607'', sub_amf = ''b9b9''\<rparr>"

lemma demo_subscriber_hex:
  "parse_hex_exact 16 (sub_ki demo_subscriber) f \<noteq> Inl e"
  "parse_hex_exact 16 (sub_opc demo_subscriber) f \<noteq> Inl e"
  "parse_hex_exact 6 (sub_sqn demo_subscriber) f \<noteq> Inl e"
  "parse_hex_exact 2 (sub_amf demo_subscriber) f \<noteq> Inl e"
  by (simp_all add: demo_subscriber_def parse_hex_exact_def hex_value_def char_code_def Let_def)

lemma demo_vector: "\<exists>av. build_aka_auth_vector demo_subscriber rnd = Inr av"
proof -
  obtain k opc sqn amf where
    "parse_hex_exact 16 (sub_ki demo_subscriber) ''ki'' = Inr k"
    "parse_hex_exact 16 (sub_opc demo_subscriber) ''opc'' = Inr opc"
    "parse_hex_exact 6 (sub_sqn demo_subscriber) ''sqn'' = Inr sqn"
    "parse_hex_exact 2 (sub_amf demo_subscriber) ''amf'' = Inr amf"
    using demo_subscriber_hex by (metis old.sum.exhaust)
  moreover have "sub_ki demo_subscriber \<noteq> []" "sub_sqn demo_subscriber \<noteq> []" "sub_opc demo_subscriber \<noteq> []"
    "sub_amf demo_subscriber \<noteq> []" "sub_operator_code_type demo_subscriber = ''opc''"
    by (simp_all add: demo_subscriber_def)
  ultimately show ?thesis
    by (simp add: build_aka_auth_vector_def resolve_opc_def generate_vector_def Let_def)
qed

lemma vector_carries_the_subscribers_sqn_witness:
  "length (av_autn (projr (build_aka_auth_vector demo_subscriber (replicate 16 0)))) = 16"
proof -
  obtain av where av: "build_aka_auth_vector demo_subscriber (replicate 16 0) = Inr av"
    using demo_vector by blast
  from vector_carries_the_subscribers_sqn [OF av] show ?thesis by (auto simp: av)
qed

end
