(* ===== verification/Subscriber_Repo.thy ===== *)
theory Subscriber_Repo
  imports Aka_Vector Uri_Utils Umap
begin

section \<open>The subscriber repository (db/subscriber_codec.cpp, db/mongo_subscriber_repository.cpp)\<close>

text \<open>
  A BSON document is the list of its fields; libbson's accessors read it.  The MongoDB collection
  is a parameter: a state of some type \<^theory_text>\<open>'d\<close> with the two calls the sources make,
  \<^verbatim>\<open>find\<close> with an equality filter (no cursor, the error of the cursor, or its first
  document) and \<^verbatim>\<open>update_one\<close> with a filter and a
  \<^verbatim>\<open>$set\<close>.  Other clients of the database may run between two calls: a function on the
  state stands for what they did.
\<close>

datatype bson_value =
    B_utf8 string
  | B_int32 int
  | B_int64 int
  | B_document "(string \<times> bson_value) list"
  | B_array "(string \<times> bson_value) list"
  | B_other

type_synonym bson = "(string \<times> bson_value) list"

record SubscriberIdentities =
  id_impi :: string
  id_canonical_impu :: string
  id_associated_impus :: "string list"
  id_username :: string
  id_realm :: string

record SubscriberAuth =
  sa_password :: string
  sa_ki :: string
  sa_operator_code_type :: string
  sa_opc :: string
  sa_op :: string
  sa_sqn :: "64 word"
  sa_amf :: string

record SubscriberRecord =
  sr_imsi :: string
  sr_tel :: string
  sr_identities :: SubscriberIdentities
  sr_auth :: SubscriberAuth
  sr_ifcs :: "InitialFilterCriteria list"
  sr_assigned_scscf :: string

subsection \<open>Decoding a document\<close>

definition invalid_field :: "string \<Rightarrow> ErrorInfo" where
  "invalid_field field = mk_error kConfigInvalidValue ''Invalid subscriber document field'' field"

definition extract_utf8 :: "bson \<Rightarrow> string \<Rightarrow> string option" where
  "extract_utf8 doc key = (case map_of doc key of Some (B_utf8 s) \<Rightarrow> Some s | _ \<Rightarrow> None)"

definition extract_uint64 :: "bson \<Rightarrow> string \<Rightarrow> 64 word option" where
  "extract_uint64 doc key =
     (case map_of doc key of
        Some (B_int64 v) \<Rightarrow> if v < 0 then None else Some (word_of_int v)
      | Some (B_int32 v) \<Rightarrow> if v < 0 then None else Some (word_of_int v)
      | _ \<Rightarrow> None)"

definition extract_document :: "bson \<Rightarrow> string \<Rightarrow> bson option" where
  "extract_document doc key = (case map_of doc key of Some (B_document d) \<Rightarrow> Some d | _ \<Rightarrow> None)"

fun utf8_values :: "bson \<Rightarrow> string list option" where
  "utf8_values [] = Some []"
| "utf8_values ((k, B_utf8 s) # d) = map_option (Cons s) (utf8_values d)"
| "utf8_values ((k, v) # d) = None"

definition extract_string_array :: "bson \<Rightarrow> string \<Rightarrow> string list option" where
  "extract_string_array doc key = (case map_of doc key of Some (B_array a) \<Rightarrow> utf8_values a | _ \<Rightarrow> None)"

definition missing :: "string option \<Rightarrow> bool" where
  "missing x \<longleftrightarrow> x = None \<or> x = Some []"

definition opt_or_empty :: "string option \<Rightarrow> string" where
  "opt_or_empty x = (case x of None \<Rightarrow> [] | Some s \<Rightarrow> s)"

definition decode_identities :: "bson \<Rightarrow> SubscriberIdentities result" where
  "decode_identities document =
     (case extract_document document ''identities'' of
        None \<Rightarrow> Inl (invalid_field ''identities'')
      | Some identities \<Rightarrow>
          (case (extract_utf8 identities ''impi'', extract_utf8 identities ''canonical_impu'',
                 extract_utf8 identities ''realm'') of
             (Some impi, Some canonical_impu, Some realm) \<Rightarrow>
               bind_result
                 (case extract_string_array identities ''associated_impus'' of
                    Some xs \<Rightarrow> Inr xs
                  | None \<Rightarrow>
                      (case extract_utf8 document ''tel'' of
                         None \<Rightarrow> Inl (invalid_field ''identities.associated_impus'')
                       | Some tel \<Rightarrow> Inr [''tel:'' @ tel, ''sip:'' @ tel @ ''@'' @ realm, canonical_impu]))
                 (\<lambda>associated_impus.
                    Inr \<lparr>id_impi = impi, id_canonical_impu = canonical_impu,
                         id_associated_impus = associated_impus,
                         id_username = (case find_char impi (CHR ''@'') of
                                          None \<Rightarrow> [] | Some p \<Rightarrow> substr impi 0 p),
                         id_realm = realm\<rparr>)
           | _ \<Rightarrow> Inl (invalid_field ''identities'')))"

definition check_operator_code :: "string \<Rightarrow> string option \<Rightarrow> string option \<Rightarrow> ErrorInfo option" where
  "check_operator_code operator_code_type opc op =
     (if operator_code_type = ''opc'' then
        (if missing opc then Some (invalid_field ''auth.opc'') else None)
      else if operator_code_type = ''op'' then
        (if missing op then Some (invalid_field ''auth.op'') else None)
      else if missing opc \<and> missing op then Some (invalid_field ''auth.opc/auth.op'') else None)"

definition decode_auth :: "bson \<Rightarrow> SubscriberAuth result" where
  "decode_auth document =
     (case extract_document document ''auth'' of
        None \<Rightarrow> Inl (invalid_field ''auth'')
      | Some auth \<Rightarrow>
          (let opc = extract_utf8 auth ''opc''; op = extract_utf8 auth ''op'' in
           case (extract_utf8 auth ''password'', extract_utf8 auth ''ki'',
                 extract_utf8 auth ''operator_code_type'', extract_uint64 auth ''sqn'',
                 extract_utf8 auth ''amf'') of
             (Some password, Some ki, Some operator_code_type, Some sqn, Some amf) \<Rightarrow>
               (case check_operator_code operator_code_type opc op of
                  Some e \<Rightarrow> Inl e
                | None \<Rightarrow> Inr \<lparr>sa_password = password, sa_ki = ki,
                                sa_operator_code_type = operator_code_type,
                                sa_opc = opt_or_empty opc, sa_op = opt_or_empty op,
                                sa_sqn = sqn, sa_amf = amf\<rparr>)
           | _ \<Rightarrow> Inl (invalid_field ''auth'')))"

definition decodeSubscriber :: "bson \<Rightarrow> SubscriberRecord result" where
  "decodeSubscriber document =
     bind_result (decode_identities document) (\<lambda>identities.
     bind_result (decode_auth document) (\<lambda>auth.
       Inr \<lparr>sr_imsi = opt_or_empty (extract_utf8 document ''imsi''),
            sr_tel = opt_or_empty (extract_utf8 document ''tel''),
            sr_identities = identities, sr_auth = auth, sr_ifcs = [],
            sr_assigned_scscf =
              (case extract_document document ''serving'' of
                 None \<Rightarrow> [] | Some s \<Rightarrow> opt_or_empty (extract_utf8 s ''assigned_scscf''))\<rparr>))"

definition nextSqn :: "64 word \<Rightarrow> 64 word \<Rightarrow> 64 word \<Rightarrow> 64 word" where
  "nextSqn current step msk = (current + step) AND msk"

subsection \<open>Search keys\<close>

definition add_unique_candidate :: "string list \<Rightarrow> string \<Rightarrow> string list" where
  "add_unique_candidate candidates value =
     (if value = [] \<or> value \<in> set candidates then candidates else candidates @ [value])"

definition strip_scheme :: "string \<Rightarrow> string" where
  "strip_scheme v =
     (if starts_with ''sip:'' v then drop 4 v
      else if starts_with ''sips:'' v then drop 5 v
      else if starts_with ''tel:'' v then drop 4 v else v)"

definition cut_at :: "char \<Rightarrow> string \<Rightarrow> string" where
  "cut_at c v = (case find_char v c of None \<Rightarrow> v | Some i \<Rightarrow> substr v 0 i)"

definition user_part :: "string \<Rightarrow> string" where
  "user_part v = cut_at (CHR ''@'') (cut_at (CHR '';'') (strip_scheme v))"

definition identity_candidates :: "osip_lib \<Rightarrow> string \<Rightarrow> string list \<times> string list" where
  "identity_candidates L identity =
     (if identity = [] then ([], [])
      else (let normalized = normalize_impu_uri L identity;
                v = (if normalized = [] then identity else normalized);
                user = user_part v in
            if starts_with ''tel:'' v \<or> starts_with ''+'' user
            then ([], add_unique_candidate [] user) else (add_unique_candidate [] user, [])))"

definition private_identity_imsi :: "osip_lib \<Rightarrow> string \<Rightarrow> string option" where
  "private_identity_imsi L impi =
     (if impi = [] then None
      else (let user0 = user_part (normalize_impu_uri L impi);
                user = (if user0 = [] then user_part impi else user0) in
            if user = [] then None else Some user))"

subsection \<open>The repository\<close>

record 'd collection =
  C_find :: "bson \<Rightarrow> 'd \<Rightarrow> (string + bson option) option"
  C_update_one :: "bson \<Rightarrow> bson \<Rightarrow> 'd \<Rightarrow> 'd \<times> (string + bson)"

definition db_error :: "string \<Rightarrow> string \<Rightarrow> ErrorInfo" where
  "db_error message detail = mk_error kInternalError message detail"

definition not_found :: "string \<Rightarrow> ErrorInfo" where
  "not_found detail = mk_error kDiameterUserNotFound ''Subscriber not found'' detail"

definition reply_int :: "bson \<Rightarrow> string \<Rightarrow> int option" where
  "reply_int reply key =
     (case map_of reply key of Some (B_int64 v) \<Rightarrow> Some v | Some (B_int32 v) \<Rightarrow> Some v | _ \<Rightarrow> None)"

definition parse_matched_count :: "bson \<Rightarrow> int" where
  "parse_matched_count reply =
     (case reply_int reply ''matchedCount'' of
        Some v \<Rightarrow> v
      | None \<Rightarrow> (case reply_int reply ''n'' of Some v \<Rightarrow> v | None \<Rightarrow> 0))"

definition find_one_with_filter :: "'d collection \<Rightarrow> bson \<Rightarrow> 'd \<Rightarrow> SubscriberRecord option result" where
  "find_one_with_filter C flt d =
     (case C_find C flt d of
        None \<Rightarrow> Inl (db_error ''Mongo query cursor creation failed'' ''find_with_opts'')
      | Some (Inl message) \<Rightarrow> Inl (db_error ''Mongo query failed'' message)
      | Some (Inr None) \<Rightarrow> Inr None
      | Some (Inr (Some doc)) \<Rightarrow> (case decodeSubscriber doc of Inl e \<Rightarrow> Inl e | Inr r \<Rightarrow> Inr (Some r)))"

definition find_one_by_field ::
  "'d collection \<Rightarrow> string \<Rightarrow> string \<Rightarrow> 'd \<Rightarrow> SubscriberRecord option result" where
  "find_one_by_field C field value d = find_one_with_filter C [(field, B_utf8 value)] d"

fun find_first :: "'d collection \<Rightarrow> (string \<times> string) list \<Rightarrow> 'd \<Rightarrow> SubscriberRecord option result" where
  "find_first C [] d = Inr None"
| "find_first C ((field, value) # ks) d =
     (case find_one_by_field C field value d of
        Inr None \<Rightarrow> find_first C ks d
      | r \<Rightarrow> r)"

definition find_one_by_imsi_or_tel ::
  "'d collection \<Rightarrow> string list \<Rightarrow> string list \<Rightarrow> 'd \<Rightarrow> SubscriberRecord option result" where
  "find_one_by_imsi_or_tel C imsis tels d =
     find_first C (map (Pair ''imsi'') imsis @ map (Pair ''tel'') tels) d"

definition findByImpiOrImpu ::
  "osip_lib \<Rightarrow> 'd collection \<Rightarrow> string \<Rightarrow> string \<Rightarrow> 'd \<Rightarrow> SubscriberRecord option result" where
  "findByImpiOrImpu L C impi impu d =
     (let imsis0 = (case private_identity_imsi L impi of None \<Rightarrow> [] | Some i \<Rightarrow> add_unique_candidate [] i);
          (impu_imsis, impu_tels) = (if impu = [] then ([], []) else identity_candidates L impu)
      in find_one_by_imsi_or_tel C (fold (\<lambda>i acc. add_unique_candidate acc i) impu_imsis imsis0)
           (fold (\<lambda>t acc. add_unique_candidate acc t) impu_tels []) d)"

definition repo_findByIdentity ::
  "osip_lib \<Rightarrow> 'd collection \<Rightarrow> string \<Rightarrow> 'd \<Rightarrow> SubscriberRecord option result" where
  "repo_findByIdentity L C identity d =
     (let (imsis, tels) = identity_candidates L identity in find_one_by_imsi_or_tel C imsis tels d)"

definition findByUsernameRealm ::
  "osip_lib \<Rightarrow> 'd collection \<Rightarrow> string \<Rightarrow> string \<Rightarrow> 'd \<Rightarrow> SubscriberRecord option result" where
  "findByUsernameRealm L C username realm d =
     (let imsis0 = add_unique_candidate [] (user_part username);
          tels = (if starts_with ''+'' username \<or> starts_with ''tel:'' username
                  then add_unique_candidate [] (user_part username) else []);
          impi = (if CHR ''@'' \<in> set username then username else username @ ''@'' @ realm);
          imsis = (case private_identity_imsi L impi of
                     None \<Rightarrow> imsis0 | Some i \<Rightarrow> add_unique_candidate imsis0 i)
      in find_one_by_imsi_or_tel C imsis tels d)"

definition update_one_with_filter :: "'d collection \<Rightarrow> bson \<Rightarrow> bson \<Rightarrow> 'd \<Rightarrow> 'd \<times> unit result" where
  "update_one_with_filter C flt upd d =
     (let (d', r) = C_update_one C flt upd d in
      case r of
        Inl message \<Rightarrow> (d', Inl (db_error ''Mongo update failed'' message))
      | Inr reply \<Rightarrow>
          if parse_matched_count reply \<le> 0
          then (d', Inl (not_found ''No subscriber matched for update'')) else (d', Inr ()))"

definition sqn_value :: "64 word \<Rightarrow> bson_value" where
  "sqn_value w = B_int64 (sint w)"

definition imsi_or_impi :: "osip_lib \<Rightarrow> string \<Rightarrow> string" where
  "imsi_or_impi L impi = (case private_identity_imsi L impi of None \<Rightarrow> impi | Some i \<Rightarrow> i)"

definition setSqn :: "osip_lib \<Rightarrow> 'd collection \<Rightarrow> string \<Rightarrow> 64 word \<Rightarrow> 'd \<Rightarrow> 'd \<times> unit result" where
  "setSqn L C impi sqn d =
     update_one_with_filter C [(''imsi'', B_utf8 (imsi_or_impi L impi))]
       [(''auth.sqn'', sqn_value sqn)] d"

definition setServingScscf ::
  "osip_lib \<Rightarrow> 'd collection \<Rightarrow> string \<Rightarrow> string \<Rightarrow> 'd \<Rightarrow> 'd \<times> unit result" where
  "setServingScscf L C impi uri d =
     update_one_with_filter C [(''imsi'', B_utf8 (imsi_or_impi L impi))]
       [(''serving.assigned_scscf'', B_utf8 uri)] d"

text \<open>The compare-and-swap loop.  The argument \<^theory_text>\<open>env\<close> lists what the other clients do
  between the read and the write of each attempt.\<close>

fun advanceSqn_loop ::
  "nat \<Rightarrow> 'd collection \<Rightarrow> ('d \<Rightarrow> 'd) list \<Rightarrow> string \<Rightarrow> 64 word \<Rightarrow> 64 word \<Rightarrow> 'd \<Rightarrow> 'd \<times> (64 word) result" where
  "advanceSqn_loop 0 C env imsi step msk d =
     (d, Inl (db_error ''Mongo advanceSqn exceeded max retries'' ''CAS conflict''))"
| "advanceSqn_loop (Suc n) C env imsi step msk d =
     (case find_one_by_field C ''imsi'' imsi d of
        Inl e \<Rightarrow> (d, Inl e)
      | Inr None \<Rightarrow> (d, Inl (not_found ''Subscriber not found for advanceSqn''))
      | Inr (Some r) \<Rightarrow>
          (let old_sqn = sa_sqn (sr_auth r);
               new_sqn = (old_sqn + step) AND msk;
               d1 = (case env of [] \<Rightarrow> d | f # _ \<Rightarrow> f d);
               (d2, reply) = C_update_one C [(''imsi'', B_utf8 imsi), (''auth.sqn'', sqn_value old_sqn)]
                               [(''auth.sqn'', sqn_value new_sqn)] d1
           in case reply of
                Inl message \<Rightarrow> (d2, Inl (db_error ''Mongo update failed in advanceSqn'' message))
              | Inr rep \<Rightarrow>
                  if 0 < parse_matched_count rep then (d2, Inr old_sqn)
                  else advanceSqn_loop n C (tl env) imsi step msk d2))"

definition advanceSqn ::
  "osip_lib \<Rightarrow> 'd collection \<Rightarrow> ('d \<Rightarrow> 'd) list \<Rightarrow> string \<Rightarrow> 64 word \<Rightarrow> 64 word \<Rightarrow> 'd \<Rightarrow> 'd \<times> (64 word) result" where
  "advanceSqn L C env impi step msk d =
     advanceSqn_loop 5 C env (imsi_or_impi L impi) step msk d"

definition incrementSqn ::
  "osip_lib \<Rightarrow> 'd collection \<Rightarrow> ('d \<Rightarrow> 'd) list \<Rightarrow> string \<Rightarrow> 64 word \<Rightarrow> 64 word \<Rightarrow> 'd \<Rightarrow> 'd \<times> unit result" where
  "incrementSqn L C env impi step msk d =
     (let (d', r) = advanceSqn L C env impi step msk d in
      case r of Inl e \<Rightarrow> (d', Inl e) | Inr _ \<Rightarrow> (d', Inr ()))"

subsection \<open>The behaviour of the database\<close>

text \<open>MongoDB applies \<^verbatim>\<open>update_one\<close> atomically: with a filter on the counter it
  changes the document, and reports a match, exactly when the counter still has that value.  The
  function \<^theory_text>\<open>sqn\<close> reads the stored counter.\<close>

definition cas_collection :: "'d collection \<Rightarrow> ('d \<Rightarrow> string \<Rightarrow> int option) \<Rightarrow> bool" where
  "cas_collection C sqn \<longleftrightarrow>
     (\<forall>imsi old new d d' reply.
        C_update_one C [(''imsi'', B_utf8 imsi), (''auth.sqn'', B_int64 old)]
          [(''auth.sqn'', B_int64 new)] d = (d', Inr reply) \<longrightarrow>
        (if sqn d imsi = Some old
         then 0 < parse_matched_count reply \<and> sqn d' imsi = Some new \<and>
              (\<forall>i. i \<noteq> imsi \<longrightarrow> sqn d' i = sqn d i)
         else parse_matched_count reply \<le> 0 \<and> d' = d))"

text \<open>The state after the first \<^theory_text>\<open>n\<close> interventions of the other clients.\<close>

definition others_did :: "('d \<Rightarrow> 'd) list \<Rightarrow> nat \<Rightarrow> 'd \<Rightarrow> 'd" where
  "others_did env n d = fold (\<lambda>f. f) (take n env) d"

lemma others_did_Suc:
  "others_did env (Suc n) d = others_did (tl env) n (case env of [] \<Rightarrow> d | f # _ \<Rightarrow> f d)"
  by (cases env) (simp_all add: others_did_def)

lemma advanceSqn_loop_cas:
  assumes "cas_collection C sqn" and "advanceSqn_loop m C env imsi step msk d = (d', Inr old)"
  shows "\<exists>n reply. n < m \<and> sqn (others_did env (Suc n) d) imsi = Some (sint old) \<and>
    C_update_one C [(''imsi'', B_utf8 imsi), (''auth.sqn'', sqn_value old)]
      [(''auth.sqn'', sqn_value (nextSqn old step msk))] (others_did env (Suc n) d) = (d', Inr reply) \<and>
    sqn d' imsi = Some (sint (nextSqn old step msk)) \<and>
    (\<forall>i. i \<noteq> imsi \<longrightarrow> sqn d' i = sqn (others_did env (Suc n) d) i)"
  using assms(2)
proof (induction m arbitrary: env d)
  case (Suc m)
  then obtain r where r: "find_one_by_field C ''imsi'' imsi d = Inr (Some r)"
    by (auto split: sum.splits option.splits)
  let ?o = "sa_sqn (sr_auth r)"
  define d1 where "d1 = (case env of [] \<Rightarrow> d | f # _ \<Rightarrow> f d)"
  obtain d2 reply where u: "C_update_one C [(''imsi'', B_utf8 imsi), (''auth.sqn'', sqn_value ?o)]
      [(''auth.sqn'', sqn_value ((?o + step) AND msk))] d1 = (d2, reply)"
    by fastforce
  from Suc.prems obtain rep where rep: "reply = Inr rep"
    by (cases reply) (simp_all add: r u d1_def [symmetric] Let_def)
  have cas: "if sqn d1 imsi = Some (sint ?o)
       then 0 < parse_matched_count rep \<and> sqn d2 imsi = Some (sint ((?o + step) AND msk)) \<and>
            (\<forall>i. i \<noteq> imsi \<longrightarrow> sqn d2 i = sqn d1 i)
       else parse_matched_count rep \<le> 0 \<and> d2 = d1"
    using assms(1) u unfolding cas_collection_def sqn_value_def rep by blast
  show ?case
  proof (cases "0 < parse_matched_count rep")
    case True
    with Suc.prems have e: "d' = d2" "old = ?o"
      by (simp_all add: r u rep d1_def [symmetric] Let_def)
    have d1: "d1 = others_did env (Suc 0) d" by (cases env) (simp_all add: d1_def others_did_def)
    from cas True u rep e show ?thesis
      unfolding d1 nextSqn_def by (intro exI [of _ 0] exI [of _ rep]) (auto split: if_splits)
  next
    case False
    with Suc.prems have l: "advanceSqn_loop m C (tl env) imsi step msk d2 = (d', Inr old)"
      by (simp add: r u rep d1_def [symmetric] Let_def)
    from cas False have "d2 = d1" by (simp split: if_splits)
    then have "others_did (tl env) (Suc n) d2 = others_did env (Suc (Suc n)) d" for n
      unfolding others_did_Suc [of env] d1_def by simp
    with Suc.IH [OF l] show ?thesis by (metis Suc_less_eq)
  qed
qed simp

text \<open>C14: A sequence number is handed out by one compare-and-swap.  When
  \<^verbatim>\<open>advanceSqn\<close> returns a number, then in one of its at most five attempts, after what
  the other clients had done up to that attempt and with nothing changed by the failed attempts
  before it, the stored counter of the subscriber had exactly that value; the update was applied
  to that state and is the last change of the call: it moved the counter to the next value and
  left every other subscriber alone.\<close>

theorem advanceSqn_is_a_compare_and_swap:
  assumes "cas_collection C sqn" and "advanceSqn L C env impi step msk d = (d', Inr old)"
  shows "\<exists>n reply. n < 5 \<and> sqn (others_did env (Suc n) d) (imsi_or_impi L impi) = Some (sint old) \<and>
    C_update_one C [(''imsi'', B_utf8 (imsi_or_impi L impi)), (''auth.sqn'', sqn_value old)]
      [(''auth.sqn'', sqn_value (nextSqn old step msk))] (others_did env (Suc n) d) = (d', Inr reply) \<and>
    sqn d' (imsi_or_impi L impi) = Some (sint (nextSqn old step msk)) \<and>
    (\<forall>i. i \<noteq> imsi_or_impi L impi \<longrightarrow> sqn d' i = sqn (others_did env (Suc n) d) i)"
  using advanceSqn_loop_cas [OF assms(1), of 5 env "imsi_or_impi L impi" step msk d d' old] assms(2)
  by (simp add: advanceSqn_def)

text \<open>A collection held in memory, mapping an IMSI to its counter.\<close>

definition demo_document :: "string \<Rightarrow> int \<Rightarrow> bson" where
  "demo_document imsi sqn =
     [(''imsi'', B_utf8 imsi),
      (''identities'', B_document [(''impi'', B_utf8 (imsi @ ''@ims.local'')),
         (''canonical_impu'', B_utf8 (''sip:'' @ imsi @ ''@ims.local'')),
         (''associated_impus'', B_array []), (''realm'', B_utf8 ''ims.local'')]),
      (''auth'', B_document [(''password'', B_utf8 ''pw''), (''ki'', B_utf8 ''465b5ce8b199b49faa5f0a2ee238a6bc''),
         (''operator_code_type'', B_utf8 ''opc''), (''opc'', B_utf8 ''cd63cb71954a9f4e48a5994e37a02baf''), (''sqn'', B_int64 sqn),
         (''amf'', B_utf8 ''8000'')])]"

definition matched :: "int \<Rightarrow> bson" where
  "matched n = [(''matchedCount'', B_int64 n)]"

definition demo_collection :: "(string, int) umap collection" where
  "demo_collection =
     \<lparr>C_find = (\<lambda>flt d. case map_of flt ''imsi'' of
                  Some (B_utf8 i) \<Rightarrow> Some (Inr (map_option (demo_document i) (um_find d i)))
                | _ \<Rightarrow> Some (Inr None)),
      C_update_one = (\<lambda>flt upd d.
        case (map_of flt ''imsi'', map_of flt ''auth.sqn'', map_of upd ''auth.sqn'') of
          (Some (B_utf8 i), Some (B_int64 old), Some (B_int64 new)) \<Rightarrow>
            if um_find d i = Some old then (um_put i new d, Inr (matched 1)) else (d, Inr (matched 0))
        | _ \<Rightarrow> (d, Inr (matched 0)))\<rparr>"

lemma demo_collection_cas: "cas_collection demo_collection um_find"
  by (auto simp: cas_collection_def demo_collection_def matched_def parse_matched_count_def
      reply_int_def um_find_put)

lemma demo_decode:
  "0 \<le> n \<Longrightarrow> \<exists>r. decodeSubscriber (demo_document i n) = Inr r \<and> sa_sqn (sr_auth r) = word_of_int n \<and>
     id_impi (sr_identities r) = i @ ''@ims.local'' \<and> id_realm (sr_identities r) = ''ims.local'' \<and>
     sa_ki (sr_auth r) = ''465b5ce8b199b49faa5f0a2ee238a6bc'' \<and> sa_operator_code_type (sr_auth r) = ''opc'' \<and>
     sa_opc (sr_auth r) = ''cd63cb71954a9f4e48a5994e37a02baf'' \<and> sa_amf (sr_auth r) = ''8000''"
  by (simp add: decodeSubscriber_def decode_identities_def decode_auth_def demo_document_def Let_def
      extract_document_def extract_utf8_def extract_uint64_def extract_string_array_def
      check_operator_code_def missing_def opt_or_empty_def)

lemma demo_find:
  "0 \<le> n \<Longrightarrow> um_find d i = Some n \<Longrightarrow>
   \<exists>r. find_one_by_field demo_collection ''imsi'' i d = Inr (Some r) \<and> sa_sqn (sr_auth r) = word_of_int n \<and>
     id_impi (sr_identities r) = i @ ''@ims.local'' \<and> id_realm (sr_identities r) = ''ims.local'' \<and>
     sa_ki (sr_auth r) = ''465b5ce8b199b49faa5f0a2ee238a6bc'' \<and> sa_operator_code_type (sr_auth r) = ''opc'' \<and>
     sa_opc (sr_auth r) = ''cd63cb71954a9f4e48a5994e37a02baf'' \<and> sa_amf (sr_auth r) = ''8000''"
  using demo_decode [of n i]
  by (auto simp: find_one_by_field_def find_one_with_filter_def demo_collection_def)

lemma demo_update:
  "C_update_one demo_collection [(''imsi'', B_utf8 i), (''auth.sqn'', B_int64 old)]
     [(''auth.sqn'', B_int64 new)] d =
   (if um_find d i = Some old then (um_put i new d, Inr (matched 1)) else (d, Inr (matched 0)))"
  by (simp add: demo_collection_def)

lemma matched_count [simp]: "parse_matched_count (matched n) = n"
  by (simp add: matched_def parse_matched_count_def reply_int_def)

text \<open>Another client moves the counter from 32 to 64 between the first read and the first write;
  the second attempt gets 64.\<close>

lemmas demo_uri_eval = private_identity_imsi_def user_part_def cut_at_def strip_scheme_def
  normalize_impu_uri_def extract_uri_from_name_addr_def trim_def is_space_def char_code_def
  strip_tel_params_def tel_prefix_def starts_with_def lowercase_def tolower_def find_char_def
  substr_def demo_lib_def demo_uri_parse_def Let_def

lemma demo_imsi: "private_identity_imsi demo_lib ''1'' = Some ''1''"
  "private_identity_imsi demo_lib ''1@ims.local'' = Some ''1''"
  by (simp_all add: demo_uri_eval)

lemma advanceSqn_is_a_compare_and_swap_witness:
  "(\<exists>n. n < 5 \<and> um_find (others_did [um_put ''1'' 64] (Suc n) [(''1'', 32 :: int)]) ''1'' = Some 64) \<and>
     um_find (fst (advanceSqn demo_lib demo_collection [um_put ''1'' 64] ''1'' 32 0xFFFFFFFFFFFF [(''1'', 32)])) ''1'' = Some 96"
proof -
  let ?d = "[(''1'', 32)] :: (string, int) umap" and ?d1 = "[(''1'', 64)] :: (string, int) umap"
  obtain r1 where r1: "find_one_by_field demo_collection ''imsi'' ''1'' ?d = Inr (Some r1)"
      "sa_sqn (sr_auth r1) = 32"
    using demo_find [of 32 ?d "''1''"] by auto
  obtain r2 where r2: "find_one_by_field demo_collection ''imsi'' ''1'' ?d1 = Inr (Some r2)"
      "sa_sqn (sr_auth r2) = 64"
    using demo_find [of 64 ?d1 "''1''"] by auto
  have w: "(64 + 32) AND 0xFFFFFFFFFFFF = (96 :: 64 word)" "(32 + 32) AND 0xFFFFFFFFFFFF = (64 :: 64 word)"
    by simp_all
  have five: "5 = Suc (Suc (Suc (Suc (Suc 0))))" by simp
  have run: "advanceSqn demo_lib demo_collection [um_put ''1'' 64] ''1'' 32 0xFFFFFFFFFFFF ?d = ([(''1'', 96)], Inr 64)"
    unfolding advanceSqn_def imsi_or_impi_def demo_imsi option.case five
    by (simp add: r1 r2 w Let_def demo_update sqn_value_def)
  from advanceSqn_is_a_compare_and_swap [OF demo_collection_cas run]
  show ?thesis by (auto simp: imsi_or_impi_def demo_imsi nextSqn_def run)
qed

end
