(* ===== verification/Hss_Clients.thy ===== *)
theory Hss_Clients
  imports Subscriber_Repo
begin

section \<open>HSS clients (diameter/cx_client.cpp, diameter/mongo_hss_client.cpp)\<close>

text \<open>
  An implementation of \<^verbatim>\<open>IHssClient\<close> is a record of its four operations on a state of
  some type: the random generator for the stub, the generator and the database for the MongoDB
  client.  A generator is a function from its state to sixteen bytes and the next state.  The
  locale states what the S-CSCF relies on; both clients are instances.
\<close>

record HssAdapterConfig =
  ha_type :: string
  ha_diameter_host :: string
  ha_diameter_port :: port
  ha_diameter_realm :: string
  ha_nudm_url :: string
  ha_subscribers :: "HssSubscriberConfig list"
  ha_mongo_uri :: string
  ha_mongo_db :: string
  ha_mongo_collection :: string
  ha_default_scscf_uri :: string

record 'h hss =
  H_uar :: "UarParams \<Rightarrow> 'h \<Rightarrow> 'h \<times> UaaResult result"
  H_mar :: "MarParams \<Rightarrow> 'h \<Rightarrow> 'h \<times> MaaResult result"
  H_sar :: "SarParams \<Rightarrow> 'h \<Rightarrow> 'h \<times> SaaResult result"
  H_lir :: "LirParams \<Rightarrow> 'h \<Rightarrow> 'h \<times> LiaResult result"

definition user_not_found :: "string \<Rightarrow> string \<Rightarrow> ErrorInfo" where
  "user_not_found message detail = mk_error kDiameterUserNotFound message detail"

definition identity_detail :: "string \<Rightarrow> string \<Rightarrow> string" where
  "identity_detail impi impu = ''IMPI='' @ impi @ '' IMPU='' @ impu"

subsection \<open>The stub\<close>

definition make_impi :: "HssSubscriberConfig \<Rightarrow> string" where
  "make_impi s = sub_imsi s @ ''@'' @ sub_realm s"

definition make_canonical_impu :: "HssSubscriberConfig \<Rightarrow> string" where
  "make_canonical_impu s = ''sip:'' @ sub_imsi s @ ''@'' @ sub_realm s"

definition make_associated_impus :: "HssSubscriberConfig \<Rightarrow> string list" where
  "make_associated_impus s =
     [''tel:'' @ sub_tel s, ''sip:'' @ sub_tel s @ ''@'' @ sub_realm s, make_canonical_impu s]"

record StubSubscriber =
  ss_config :: HssSubscriberConfig
  ss_impi :: string
  ss_canonical_impu :: string
  ss_associated_impus :: "string list"

record StubHssClient =
  stub_subscribers :: "StubSubscriber list"
  subscriber_by_impi :: "(string, nat) umap"
  subscriber_by_public_identity :: "(string, nat) umap"

definition stub_add :: "osip_lib \<Rightarrow> HssSubscriberConfig \<Rightarrow> StubHssClient \<Rightarrow> StubHssClient" where
  "stub_add L s c =
     (let record = \<lparr>ss_config = s, ss_impi = make_impi s, ss_canonical_impu = make_canonical_impu s,
                    ss_associated_impus = make_associated_impus s\<rparr>;
          index = length (stub_subscribers c)
      in \<lparr>stub_subscribers = stub_subscribers c @ [record],
          subscriber_by_impi = um_emplace (ss_impi record) index (subscriber_by_impi c),
          subscriber_by_public_identity =
            fold (\<lambda>i m. um_emplace (normalize_impu_uri L i) index m) (ss_associated_impus record)
              (subscriber_by_public_identity c)\<rparr>)"

definition stub_init :: "osip_lib \<Rightarrow> HssAdapterConfig \<Rightarrow> StubHssClient" where
  "stub_init L config =
     fold (stub_add L) (ha_subscribers config)
       \<lparr>stub_subscribers = [], subscriber_by_impi = [], subscriber_by_public_identity = []\<rparr>"

definition stub_scscf_uri :: string where
  "stub_scscf_uri = ''sip:127.0.0.1:5062;transport=udp''"

definition findSubscriberByImpi :: "StubHssClient \<Rightarrow> string \<Rightarrow> StubSubscriber option" where
  "findSubscriberByImpi c impi =
     (case um_find (subscriber_by_impi c) impi of None \<Rightarrow> None | Some i \<Rightarrow> Some (stub_subscribers c ! i))"

definition findSubscriberByPublicIdentity :: "osip_lib \<Rightarrow> StubHssClient \<Rightarrow> string \<Rightarrow> StubSubscriber option" where
  "findSubscriberByPublicIdentity L c identity =
     (case um_find (subscriber_by_public_identity c) (normalize_impu_uri L identity) of
        None \<Rightarrow> None | Some i \<Rightarrow> Some (stub_subscribers c ! i))"

definition findSubscriber :: "osip_lib \<Rightarrow> StubHssClient \<Rightarrow> string \<Rightarrow> string \<Rightarrow> StubSubscriber option" where
  "findSubscriber L c impi impu =
     (case findSubscriberByImpi c impi of
        Some s \<Rightarrow> Some s
      | None \<Rightarrow> if impu \<noteq> [] then findSubscriberByPublicIdentity L c impu else None)"

definition stub_userAuthorization :: "osip_lib \<Rightarrow> StubHssClient \<Rightarrow> UarParams \<Rightarrow> UaaResult result" where
  "stub_userAuthorization L c p =
     (case findSubscriber L c (uar_impi p) (uar_impu p) of
        None \<Rightarrow> Inl (user_not_found ''Subscriber not found for UAR'' (identity_detail (uar_impi p) (uar_impu p)))
      | Some _ \<Rightarrow> Inr \<lparr>uaa_result_code = kDiameterSuccess, uaa_assigned_scscf = stub_scscf_uri,
                       uaa_server_capabilities = None\<rparr>)"

definition stub_multimediaAuth ::
  "osip_lib \<Rightarrow> ('g \<Rightarrow> block \<times> 'g) \<Rightarrow> StubHssClient \<Rightarrow> MarParams \<Rightarrow> 'g \<Rightarrow> 'g \<times> MaaResult result" where
  "stub_multimediaAuth L rng c p g =
     (case findSubscriber L c (mar_impi p) (mar_impu p) of
        None \<Rightarrow> (g, Inl (user_not_found ''Subscriber not found for MAR'' (identity_detail (mar_impi p) (mar_impu p))))
      | Some s \<Rightarrow>
          (let (rnd, g') = rng g in
           case build_aka_auth_vector (ss_config s) rnd of
             Inl e \<Rightarrow> (g', Inl e)
           | Inr av \<Rightarrow> (g', Inr \<lparr>maa_result_code = kDiameterSuccess,
                                maa_sip_auth_scheme = mar_sip_auth_scheme p, maa_auth_vector = av\<rparr>)))"

definition stub_serverAssignment :: "osip_lib \<Rightarrow> StubHssClient \<Rightarrow> SarParams \<Rightarrow> SaaResult result" where
  "stub_serverAssignment L c p =
     (case findSubscriber L c (sar_impi p) (sar_impu p) of
        None \<Rightarrow> Inl (user_not_found ''Subscriber not found for SAR'' (identity_detail (sar_impi p) (sar_impu p)))
      | Some s \<Rightarrow> Inr \<lparr>saa_result_code = kDiameterSuccess,
          saa_user_profile = \<lparr>up_impu = ss_canonical_impu s, up_associated_impus = ss_associated_impus s,
                              up_ifcs = []\<rparr>\<rparr>)"

definition stub_locationInfo :: "osip_lib \<Rightarrow> StubHssClient \<Rightarrow> LirParams \<Rightarrow> LiaResult result" where
  "stub_locationInfo L c p =
     (case findSubscriberByPublicIdentity L c (lir_impu p) of
        None \<Rightarrow> Inl (user_not_found ''Subscriber not found for LIR'' (lir_impu p))
      | Some _ \<Rightarrow> Inr \<lparr>lia_result_code = kDiameterSuccess, lia_assigned_scscf = stub_scscf_uri,
                       lia_server_capabilities = None\<rparr>)"

definition stub_hss :: "osip_lib \<Rightarrow> ('g \<Rightarrow> block \<times> 'g) \<Rightarrow> HssAdapterConfig \<Rightarrow> 'g hss" where
  "stub_hss L rng config =
     (let c = stub_init L config in
      \<lparr>H_uar = (\<lambda>p g. (g, stub_userAuthorization L c p)),
       H_mar = stub_multimediaAuth L rng c,
       H_sar = (\<lambda>p g. (g, stub_serverAssignment L c p)),
       H_lir = (\<lambda>p g. (g, stub_locationInfo L c p))\<rparr>)"

subsection \<open>The MongoDB client\<close>

definition kSqnStep :: "64 word" where "kSqnStep = 32"
definition kSqnMask :: "64 word" where "kSqnMask = 0x0000FFFFFFFFFFFF"

definition split_username_realm :: "string \<Rightarrow> string \<times> string" where
  "split_username_realm impi =
     (case find_char impi (CHR ''@'') of
        None \<Rightarrow> (impi, []) | Some p \<Rightarrow> (substr impi 0 p, drop (p + 1) impi))"

definition to_hss_subscriber_config :: "SubscriberRecord \<Rightarrow> HssSubscriberConfig" where
  "to_hss_subscriber_config r =
     (let impi = id_impi (sr_identities r); (username, realm) = split_username_realm impi in
      \<lparr>sub_imsi = (if username = [] then impi else username), sub_tel = [], sub_password = [],
       sub_realm = (if id_realm (sr_identities r) = [] then realm else id_realm (sr_identities r)),
       sub_ki = sa_ki (sr_auth r), sub_operator_code_type = sa_operator_code_type (sr_auth r),
       sub_opc = sa_opc (sr_auth r), sub_op = sa_op (sr_auth r),
       sub_sqn = hex_digits 12 (unat (sa_sqn (sr_auth r) AND kSqnMask)),
       sub_amf = (if sa_amf (sr_auth r) = [] then ''8000'' else sa_amf (sr_auth r))\<rparr>)"

definition resolve_assigned_scscf :: "HssAdapterConfig \<Rightarrow> SubscriberRecord \<Rightarrow> string" where
  "resolve_assigned_scscf config r =
     (if sr_assigned_scscf r \<noteq> [] then sr_assigned_scscf r else ha_default_scscf_uri config)"

definition mongo_find ::
  "osip_lib \<Rightarrow> 'd collection \<Rightarrow> string \<Rightarrow> string \<Rightarrow> string \<Rightarrow> 'd \<Rightarrow> SubscriberRecord result" where
  "mongo_find L C message impi impu d =
     (case findByImpiOrImpu L C impi (normalize_impu_uri L impu) d of
        Inl e \<Rightarrow> Inl e
      | Inr None \<Rightarrow> Inl (user_not_found message (identity_detail impi impu))
      | Inr (Some r) \<Rightarrow> Inr r)"

definition mongo_userAuthorization ::
  "osip_lib \<Rightarrow> 'd collection \<Rightarrow> HssAdapterConfig \<Rightarrow> UarParams \<Rightarrow> 'd \<Rightarrow> UaaResult result" where
  "mongo_userAuthorization L C config p d =
     (case mongo_find L C ''Subscriber not found for UAR'' (uar_impi p) (uar_impu p) d of
        Inl e \<Rightarrow> Inl e
      | Inr r \<Rightarrow> Inr \<lparr>uaa_result_code = kDiameterSuccess,
                     uaa_assigned_scscf = resolve_assigned_scscf config r,
                     uaa_server_capabilities = None\<rparr>)"

definition mongo_multimediaAuth ::
  "osip_lib \<Rightarrow> 'd collection \<Rightarrow> ('d \<Rightarrow> 'd) list \<Rightarrow> ('g \<Rightarrow> block \<times> 'g) \<Rightarrow> MarParams \<Rightarrow>
   'd \<times> 'g \<Rightarrow> ('d \<times> 'g) \<times> MaaResult result" where
  "mongo_multimediaAuth L C env rng p dg =
     (let (d, g) = dg in
      case mongo_find L C ''Subscriber not found for MAR'' (mar_impi p) (mar_impu p) d of
        Inl e \<Rightarrow> ((d, g), Inl e)
      | Inr r \<Rightarrow>
          (case advanceSqn L C env (id_impi (sr_identities r)) kSqnStep kSqnMask d of
             (d', Inl e) \<Rightarrow> ((d', g), Inl e)
           | (d', Inr old_sqn) \<Rightarrow>
               (let r' = r\<lparr>sr_auth := (sr_auth r)\<lparr>sa_sqn := old_sqn\<rparr>\<rparr>; (rnd, g') = rng g in
                case build_aka_auth_vector (to_hss_subscriber_config r') rnd of
                  Inl e \<Rightarrow> ((d', g'), Inl e)
                | Inr av \<Rightarrow> ((d', g'), Inr \<lparr>maa_result_code = kDiameterSuccess,
                               maa_sip_auth_scheme = mar_sip_auth_scheme p, maa_auth_vector = av\<rparr>))))"

definition mongo_serverAssignment ::
  "osip_lib \<Rightarrow> 'd collection \<Rightarrow> SarParams \<Rightarrow> 'd \<Rightarrow> 'd \<times> SaaResult result" where
  "mongo_serverAssignment L C p d =
     (case mongo_find L C ''Subscriber not found for SAR'' (sar_impi p) (sar_impu p) d of
        Inl e \<Rightarrow> (d, Inl e)
      | Inr r \<Rightarrow>
          (case setServingScscf L C (id_impi (sr_identities r)) (sar_server_name p) d of
             (d', Inl e) \<Rightarrow> (d', Inl e)
           | (d', Inr _) \<Rightarrow>
               (d', Inr \<lparr>saa_result_code = kDiameterSuccess,
                  saa_user_profile = \<lparr>up_impu = id_canonical_impu (sr_identities r),
                     up_associated_impus = id_associated_impus (sr_identities r), up_ifcs = sr_ifcs r\<rparr>\<rparr>)))"

definition mongo_locationInfo ::
  "osip_lib \<Rightarrow> 'd collection \<Rightarrow> HssAdapterConfig \<Rightarrow> LirParams \<Rightarrow> 'd \<Rightarrow> LiaResult result" where
  "mongo_locationInfo L C config p d =
     (case repo_findByIdentity L C (normalize_impu_uri L (lir_impu p)) d of
        Inl e \<Rightarrow> Inl e
      | Inr None \<Rightarrow> Inl (user_not_found ''Subscriber not found for LIR'' (lir_impu p))
      | Inr (Some r) \<Rightarrow> Inr \<lparr>lia_result_code = kDiameterSuccess,
          lia_assigned_scscf = (if sr_assigned_scscf r = [] then ha_default_scscf_uri config
                                else sr_assigned_scscf r),
          lia_server_capabilities = None\<rparr>)"

definition mongo_hss ::
  "osip_lib \<Rightarrow> 'd collection \<Rightarrow> ('d \<Rightarrow> 'd) list \<Rightarrow> ('g \<Rightarrow> block \<times> 'g) \<Rightarrow> HssAdapterConfig \<Rightarrow> ('d \<times> 'g) hss" where
  "mongo_hss L C env rng config =
     \<lparr>H_uar = (\<lambda>p dg. (dg, mongo_userAuthorization L C config p (fst dg))),
      H_mar = mongo_multimediaAuth L C env rng,
      H_sar = (\<lambda>p dg. (let (d', r) = mongo_serverAssignment L C p (fst dg) in ((d', snd dg), r))),
      H_lir = (\<lambda>p dg. (dg, mongo_locationInfo L C config p (fst dg)))\<rparr>"

subsection \<open>The interface\<close>

definition full_vector :: "AuthVector \<Rightarrow> bool" where
  "full_vector av \<longleftrightarrow> length (av_autn av) = 16 \<and> length (av_xres av) = 8 \<and>
     length (av_ck av) = 16 \<and> length (av_ik av) = 16"

lemma built_vector_full: "build_aka_auth_vector s rnd = Inr av \<Longrightarrow> full_vector av \<and> av_rand av = rnd"
  using built_vector [of s rnd av] by (auto simp: full_vector_def)

locale hss_client =
  fixes H :: "'h hss"
  assumes mar_answer: "H_mar H p h = (h', Inr r) \<Longrightarrow>
      maa_result_code r = kDiameterSuccess \<and> maa_sip_auth_scheme r = mar_sip_auth_scheme p \<and>
      full_vector (maa_auth_vector r)"
    and sar_answer: "H_sar H q h = (h', Inr a) \<Longrightarrow> saa_result_code a = kDiameterSuccess"
    and failure_reported: "H_uar H u h = (h', Inl e) \<Longrightarrow> err_code e \<noteq> kOk"
begin

lemma mar_scheme: "snd (H_mar H p h) = Inr r \<Longrightarrow> maa_sip_auth_scheme r = mar_sip_auth_scheme p"
  using mar_answer by (metis prod.collapse)

lemma mar_full: "snd (H_mar H p h) = Inr r \<Longrightarrow> full_vector (maa_auth_vector r)"
  using mar_answer by (metis prod.collapse)

end

lemma stub_mar_answer:
  "stub_multimediaAuth L rng c p g = (g', Inr r) \<Longrightarrow>
   maa_result_code r = kDiameterSuccess \<and> maa_sip_auth_scheme r = mar_sip_auth_scheme p \<and>
   full_vector (maa_auth_vector r)"
  by (auto simp: stub_multimediaAuth_def dest: built_vector_full split: option.splits prod.splits sum.splits)

lemma stub_sar_answer: "stub_serverAssignment L c p = Inr a \<Longrightarrow> saa_result_code a = kDiameterSuccess"
  by (auto simp: stub_serverAssignment_def split: option.splits)

lemma stub_uar_failure: "stub_userAuthorization L c p = Inl e \<Longrightarrow> err_code e = kDiameterUserNotFound"
  by (auto simp: stub_userAuthorization_def user_not_found_def split: option.splits)

interpretation stub_hss: hss_client "stub_hss L rng config"
  by unfold_locales
    (auto simp: stub_hss_def Let_def dest: stub_mar_answer stub_sar_answer stub_uar_failure)

lemma mongo_mar_answer:
  "mongo_multimediaAuth L C env rng p dg = (dg', Inr r) \<Longrightarrow>
   maa_result_code r = kDiameterSuccess \<and> maa_sip_auth_scheme r = mar_sip_auth_scheme p \<and>
   full_vector (maa_auth_vector r)"
  by (auto simp: mongo_multimediaAuth_def Let_def dest: built_vector_full split: prod.splits sum.splits)

lemma mongo_sar_answer: "mongo_serverAssignment L C p d = (d', Inr a) \<Longrightarrow> saa_result_code a = kDiameterSuccess"
  by (auto simp: mongo_serverAssignment_def split: prod.splits sum.splits)

lemma decode_errors: "decodeSubscriber doc = Inl e \<Longrightarrow> err_code e = kConfigInvalidValue"
proof -
  have i: "decode_identities doc = Inl e \<Longrightarrow> err_code e = kConfigInvalidValue" for e
    by (auto simp: decode_identities_def invalid_field_def split: option.splits)
  have c: "check_operator_code t a b = Some e \<Longrightarrow> err_code e = kConfigInvalidValue" for t a b e
    by (auto simp: check_operator_code_def invalid_field_def split: if_splits)
  have a: "decode_auth doc = Inl e \<Longrightarrow> err_code e = kConfigInvalidValue" for e
    by (auto simp: decode_auth_def invalid_field_def Let_def dest: c split: option.splits)
  assume "decodeSubscriber doc = Inl e"
  then show ?thesis
    by (cases "decode_identities doc"; cases "decode_auth doc") (auto simp: decodeSubscriber_def dest: i a)
qed

lemma find_first_errors: "find_first C ks d = Inl e \<Longrightarrow> err_code e \<noteq> kOk"
  by (induction C ks d rule: find_first.induct)
    (auto simp: find_one_by_field_def find_one_with_filter_def db_error_def dest: decode_errors
      split: sum.splits option.splits)

lemma mongo_uar_failure: "mongo_userAuthorization L C config p d = Inl e \<Longrightarrow> err_code e \<noteq> kOk"
  by (auto simp: mongo_userAuthorization_def mongo_find_def findByImpiOrImpu_def Let_def
      find_one_by_imsi_or_tel_def user_not_found_def dest: find_first_errors
      split: sum.splits option.splits prod.splits if_splits)

interpretation mongo_hss: hss_client "mongo_hss L C env rng config"
  by unfold_locales
    (auto simp: mongo_hss_def Let_def dest: mongo_mar_answer mongo_sar_answer mongo_uar_failure
      split: prod.splits)

subsection \<open>Lemmas\<close>

text \<open>The index of private identities: every entry points to a subscriber with that identity.\<close>

definition stub_wf :: "StubHssClient \<Rightarrow> bool" where
  "stub_wf c \<longleftrightarrow> (\<forall>impi i. um_find (subscriber_by_impi c) impi = Some i \<longrightarrow>
     i < length (stub_subscribers c) \<and> make_impi (ss_config (stub_subscribers c ! i)) = impi \<and>
     ss_associated_impus (stub_subscribers c ! i) = make_associated_impus (ss_config (stub_subscribers c ! i)))"

lemma stub_wf_add: "stub_wf c \<Longrightarrow> stub_wf (stub_add L s c)"
  by (auto simp: stub_wf_def stub_add_def Let_def um_find_emplace nth_append less_Suc_eq split: if_splits)

lemma stub_add_known:
  "um_find (subscriber_by_impi (stub_add L s c)) (make_impi s) \<noteq> None"
  "um_find (subscriber_by_impi c) k \<noteq> None \<Longrightarrow> um_find (subscriber_by_impi (stub_add L s c)) k \<noteq> None"
  by (simp_all add: stub_add_def Let_def um_find_emplace)

lemma stub_fold_known:
  "(s \<in> set subs \<and> k = make_impi s) \<or> um_find (subscriber_by_impi c) k \<noteq> None \<Longrightarrow>
   um_find (subscriber_by_impi (fold (stub_add L) subs c)) k \<noteq> None"
proof (induction subs arbitrary: c)
  case (Cons x subs)
  then have "(s \<in> set subs \<and> k = make_impi s) \<or> um_find (subscriber_by_impi (stub_add L x c)) k \<noteq> None"
    using stub_add_known by (metis set_ConsD)
  from Cons.IH [OF this] show ?case by simp
qed simp

lemma stub_fold_wf: "stub_wf c \<Longrightarrow> stub_wf (fold (stub_add L) subs c)"
  by (induction subs arbitrary: c) (simp_all add: stub_wf_add)

lemma sqn_field: "parse_hex_exact 6 (hex_digits 12 v) f = Inr (be_bytes 6 v)"
  using parse_hex_digits [of 6 v] by (simp add: parse_hex_exact_def)

subsection \<open>Properties\<close>

text \<open>Every subscriber of the configuration is served by the stub under its private
  identity: authorisation succeeds with the fixed S-CSCF and the profile lists the tel URI, the
  SIP URI of the telephone number and the canonical identity of a record with that identity.\<close>

theorem stub_serves_configured_subscribers:
  assumes "s \<in> set (ha_subscribers config)" and "uar_impi p = make_impi s" and "sar_impi q = make_impi s"
  shows "\<exists>(t :: StubSubscriber) (a :: SaaResult). make_impi (ss_config t) = make_impi s \<and>
    snd (H_uar (stub_hss L rng config) p g) =
      Inr \<lparr>uaa_result_code = kDiameterSuccess, uaa_assigned_scscf = stub_scscf_uri, uaa_server_capabilities = None\<rparr> \<and>
    snd (H_sar (stub_hss L rng config) q g) = Inr a \<and>
    up_associated_impus (saa_user_profile a) = make_associated_impus (ss_config t)"
proof -
  let ?c = "stub_init L config"
  have "um_find (subscriber_by_impi ?c) (make_impi s) \<noteq> None"
    unfolding stub_init_def using stub_fold_known assms(1) by blast
  then obtain i where i: "um_find (subscriber_by_impi ?c) (make_impi s) = Some i" by blast
  have "stub_wf ?c" unfolding stub_init_def by (rule stub_fold_wf) (simp add: stub_wf_def)
  with i have t: "make_impi (ss_config (stub_subscribers ?c ! i)) = make_impi s"
      "ss_associated_impus (stub_subscribers ?c ! i) = make_associated_impus (ss_config (stub_subscribers ?c ! i))"
    unfolding stub_wf_def by blast+
  let ?t = "stub_subscribers ?c ! i"
  show ?thesis
    by (rule exI [of _ ?t], rule exI [of _ "\<lparr>saa_result_code = kDiameterSuccess,
          saa_user_profile = \<lparr>up_impu = ss_canonical_impu ?t,
            up_associated_impus = ss_associated_impus ?t, up_ifcs = []\<rparr>\<rparr>"])
      (simp add: stub_hss_def Let_def stub_userAuthorization_def stub_serverAssignment_def
        findSubscriber_def findSubscriberByImpi_def i t assms(2,3))
qed

definition demo_config :: HssAdapterConfig where
  "demo_config =
     \<lparr>ha_type = ''diameter'', ha_diameter_host = ''127.0.0.1'', ha_diameter_port = 3868,
      ha_diameter_realm = ''ims.local'', ha_nudm_url = [], ha_subscribers = [demo_subscriber],
      ha_mongo_uri = [], ha_mongo_db = [], ha_mongo_collection = [],
      ha_default_scscf_uri = ''sip:127.0.0.1:5062;transport=udp''\<rparr>"

lemma stub_serves_configured_subscribers_witness:
  "\<exists>u. snd (H_uar (stub_hss demo_lib (\<lambda>g. (replicate 16 0, g)) demo_config)
     \<lparr>uar_impi = make_impi demo_subscriber, uar_impu = [], uar_visited_network = [],
      uar_auth_type = UAR_kRegistration\<rparr> ()) = Inr u"
  using stub_serves_configured_subscribers [of demo_subscriber demo_config
      "\<lparr>uar_impi = make_impi demo_subscriber, uar_impu = [], uar_visited_network = [],
        uar_auth_type = UAR_kRegistration\<rparr>"
      "\<lparr>sar_impi = make_impi demo_subscriber, sar_impu = [], sar_server_name = [],
        sar_assignment_type = SAR_kRegistration\<rparr>" demo_lib "\<lambda>g. (replicate 16 0, g)" "()"]
  by (auto simp: demo_config_def)

text \<open>C15: Every vector of the MongoDB client carries a sequence number of its own.  The
  subscriber is the one the repository finds for the identities of the request; the number in the
  token is the value of this subscriber's stored counter at the instant the compare-and-swap was
  applied, in the state the other clients had led to by that attempt, and the counter has moved 32
  further, modulo 2 to the 48; the anonymity key that hides the number is computed from the
  subscriber's own \<^verbatim>\<open>ki\<close> and operator code and the random value just drawn.\<close>

theorem mongo_vector_uses_a_fresh_sqn:
  assumes "cas_collection C sqn"
    and "mongo_multimediaAuth L C env rng p (d, g) = ((d', g'), Inr r)"
  shows "\<exists>s n old k opc.
    mongo_find L C ''Subscriber not found for MAR'' (mar_impi p) (mar_impu p) d = Inr s \<and> n < 5 \<and>
    sqn (others_did env (Suc n) d) (imsi_or_impi L (id_impi (sr_identities s))) = Some (sint old) \<and>
    sqn d' (imsi_or_impi L (id_impi (sr_identities s))) = Some (sint (nextSqn old kSqnStep kSqnMask)) \<and>
    parse_hex_exact 16 (sa_ki (sr_auth s)) ''ki'' = Inr k \<and>
    resolve_opc (to_hss_subscriber_config s) k = Inr opc \<and>
    av_rand (maa_auth_vector r) = fst (rng g) \<and>
    map (\<lambda>i. av_autn (maa_auth_vector r) ! i XOR f_ak (f2345 opc k (fst (rng g))) ! i) [0..<6] =
      be_bytes 6 (unat (old AND kSqnMask))"
proof -
  from assms(2) obtain s old where
      f: "mongo_find L C ''Subscriber not found for MAR'' (mar_impi p) (mar_impu p) d = Inr s"
    and a: "advanceSqn L C env (id_impi (sr_identities s)) kSqnStep kSqnMask d = (d', Inr old)"
    and b: "build_aka_auth_vector (to_hss_subscriber_config (s\<lparr>sr_auth := (sr_auth s)\<lparr>sa_sqn := old\<rparr>\<rparr>)) (fst (rng g)) =
        Inr (maa_auth_vector r)"
    by (auto simp: mongo_multimediaAuth_def Let_def split: sum.splits prod.splits)
  let ?sub = "to_hss_subscriber_config (s\<lparr>sr_auth := (sr_auth s)\<lparr>sa_sqn := old\<rparr>\<rparr>)"
  have q: "sub_sqn ?sub = hex_digits 12 (unat (old AND kSqnMask))"
      "sub_ki ?sub = sa_ki (sr_auth s)"
      "resolve_opc ?sub = resolve_opc (to_hss_subscriber_config s)"
    by (simp_all add: to_hss_subscriber_config_def Let_def case_prod_beta resolve_opc_def resolve_op_def
        fun_eq_iff cong: if_weak_cong)
  from built_vector [OF b] obtain k opc where k: "parse_hex_exact 16 (sa_ki (sr_auth s)) ''ki'' = Inr k"
    "resolve_opc (to_hss_subscriber_config s) k = Inr opc"
    "map (\<lambda>i. av_autn (maa_auth_vector r) ! i XOR f_ak (f2345 opc k (fst (rng g))) ! i) [0..<6] =
       be_bytes 6 (unat (old AND kSqnMask))" "av_rand (maa_auth_vector r) = fst (rng g)"
    unfolding q sqn_field by auto
  let ?i = "imsi_or_impi L (id_impi (sr_identities s))"
  obtain n where "n < 5" "sqn (others_did env (Suc n) d) ?i = Some (sint old)"
      "sqn d' ?i = Some (sint (nextSqn old kSqnStep kSqnMask))"
    using advanceSqn_loop_cas [OF assms(1) a [unfolded advanceSqn_def]] by blast
  with f k show ?thesis by blast
qed

lemma demo_hex:
  "\<exists>bs. parse_hex_exact 16 ''465b5ce8b199b49faa5f0a2ee238a6bc'' f = Inr bs"
  "\<exists>bs. parse_hex_exact 16 ''cd63cb71954a9f4e48a5994e37a02baf'' f = Inr bs"
  "\<exists>bs. parse_hex_exact 2 ''8000'' f = Inr bs"
  by (simp_all add: parse_hex_exact_def hex_value_def char_code_def Let_def)

definition demo_mar :: MarParams where
  "demo_mar = \<lparr>mar_impi = ''1'', mar_impu = [], mar_sip_auth_scheme = ''Digest-AKAv1-MD5'',
     mar_sip_authorization = [], mar_server_name = [], mar_sip_number_auth_items = 1\<rparr>"

lemma mongo_vector_uses_a_fresh_sqn_witness:
  "um_find (fst (fst (mongo_multimediaAuth demo_lib demo_collection [] (\<lambda>g. (replicate 16 0, g)) demo_mar
     ([(''1'', 64)], ())))) ''1'' = Some 96"
proof -
  let ?d = "[(''1'', 64)] :: (string, int) umap" and ?rng = "\<lambda>g :: unit. (replicate 16 (0 :: byte), g)"
  obtain s where s: "find_one_by_field demo_collection ''imsi'' ''1'' ?d = Inr (Some s)"
      "sa_sqn (sr_auth s) = 64" "id_impi (sr_identities s) = ''1@ims.local''"
      "id_realm (sr_identities s) = ''ims.local''"
      "sa_ki (sr_auth s) = ''465b5ce8b199b49faa5f0a2ee238a6bc''" "sa_operator_code_type (sr_auth s) = ''opc''"
      "sa_opc (sr_auth s) = ''cd63cb71954a9f4e48a5994e37a02baf''" "sa_amf (sr_auth s) = ''8000''"
    using demo_find [of 64 ?d "''1''"] by auto
  have f: "mongo_find demo_lib demo_collection m ''1'' [] ?d = Inr s" for m
    by (simp add: mongo_find_def findByImpiOrImpu_def find_one_by_imsi_or_tel_def demo_imsi s
        add_unique_candidate_def normalize_impu_uri_def extract_uri_from_name_addr_def trim_def Let_def)
  have w: "(64 + 32) AND 0xFFFFFFFFFFFF = (96 :: 64 word)" by simp
  have five: "5 = Suc (Suc (Suc (Suc (Suc 0))))" by simp
  have a: "advanceSqn demo_lib demo_collection [] ''1@ims.local'' kSqnStep kSqnMask ?d = ([(''1'', 96)], Inr 64)"
    unfolding advanceSqn_def imsi_or_impi_def demo_imsi option.case five kSqnStep_def kSqnMask_def
    by (simp add: s w Let_def demo_update sqn_value_def)
  let ?c = "to_hss_subscriber_config (s\<lparr>sr_auth := (sr_auth s)\<lparr>sa_sqn := 64\<rparr>\<rparr>)"
  have c: "sub_ki ?c = ''465b5ce8b199b49faa5f0a2ee238a6bc''" "sub_operator_code_type ?c = ''opc''"
    "sub_opc ?c = ''cd63cb71954a9f4e48a5994e37a02baf''" "sub_amf ?c = ''8000''"
    "sub_sqn ?c = hex_digits 12 (unat (64 AND kSqnMask))"
    by (simp_all add: to_hss_subscriber_config_def Let_def case_prod_beta s del: hex_digits.simps
        cong: if_weak_cong)
  have n: "hex_digits 12 v \<noteq> []" for v using length_hex_digits [of 12 v] by force
  obtain av where b: "build_aka_auth_vector ?c (replicate 16 0) = Inr av"
  proof -
    obtain k where "parse_hex_exact 16 ''465b5ce8b199b49faa5f0a2ee238a6bc'' ''ki'' = Inr k" using demo_hex by blast
    moreover obtain o1 where "parse_hex_exact 16 ''cd63cb71954a9f4e48a5994e37a02baf'' ''opc'' = Inr o1"
      using demo_hex by blast
    moreover obtain m where "parse_hex_exact 2 ''8000'' ''amf'' = Inr m" using demo_hex by blast
    ultimately show thesis using that
      by (simp add: build_aka_auth_vector_def resolve_opc_def generate_vector_def Let_def c n sqn_field)
  qed
  have run: "mongo_multimediaAuth demo_lib demo_collection [] ?rng demo_mar (?d, ()) =
      (([(''1'', 96)], ()), Inr \<lparr>maa_result_code = kDiameterSuccess,
         maa_sip_auth_scheme = ''Digest-AKAv1-MD5'', maa_auth_vector = av\<rparr>)"
    by (simp add: mongo_multimediaAuth_def demo_mar_def f s a b)
  from mongo_vector_uses_a_fresh_sqn [OF demo_collection_cas run] show ?thesis by (simp add: run)
qed

end
