(* ===== verification/Config.thy ===== *)
theory Config
  imports Hss_Clients
begin

section \<open>Configuration (common/config.hpp, common/config.cpp)\<close>

text \<open>
  The configuration structs with their defaults, and the loader.  YAML itself is yaml-cpp, a
  parameter: the record \<open>yaml\<close> has the functions of \<^verbatim>\<open>YAML::Node\<close> the loader
  calls, each with the exception it may throw on the left.  A loader of type \<open>'c loader\<close> changes a
  struct or throws; the sections of the loader are lists of them.
\<close>

subsection \<open>The structs\<close>

record GlobalConfig =
  gc_log_level :: string
  gc_node_name :: string

record PcfSettings =
  pcf_host :: string
  pcf_port :: port

record SipEndpointConfig =
  se_address :: string
  se_port :: port
  se_transport :: string

record HssSettings =
  hs_host :: string
  hs_port :: port
  hs_realm :: string

record PcscfConfig =
  pc_listen_addr :: string
  pc_listen_port :: port
  pc_advertised_addr :: string
  pc_pcf :: PcfSettings
  pc_core_entry :: SipEndpointConfig
  pc_core_peers :: "SipEndpointConfig list"

record IcscfConfig =
  ic_listen_addr :: string
  ic_listen_port :: port
  ic_advertised_addr :: string
  ic_hss :: HssSettings
  ic_local_scscf :: SipEndpointConfig

record ExosipConfig =
  ex_enabled :: bool
  ex_listen_addr :: string
  ex_listen_port :: port
  ex_transport :: string
  ex_user_agent :: string
  ex_event_poll_ms :: "32 word"

record ScscfConfig =
  sc_listen_addr :: string
  sc_listen_port :: port
  sc_advertised_addr :: string
  sc_hss :: HssSettings
  sc_domain :: string
  sc_auth_mode :: string
  sc_registration_cleanup_interval_ms :: "32 word"
  sc_exosip :: ExosipConfig
  sc_peer_icscf :: "SipEndpointConfig option"

record MediaConfig =
  md_rtpengine_host :: string
  md_rtpengine_port :: port

record DnsConfig =
  dn_servers :: "string list"
  dn_timeout_ms :: "32 word"

record ImsConfig =
  cfg_global :: GlobalConfig
  cfg_pcscf :: PcscfConfig
  cfg_icscf :: IcscfConfig
  cfg_scscf :: ScscfConfig
  cfg_hss_adapter :: HssAdapterConfig
  cfg_media :: MediaConfig
  cfg_dns :: DnsConfig

definition default_core :: SipEndpointConfig where
  "default_core = \<lparr>se_address = ''127.0.0.1'', se_port = 5062, se_transport = ''udp''\<rparr>"

definition default_hss :: HssSettings where
  "default_hss = \<lparr>hs_host = ''127.0.0.1'', hs_port = 3868, hs_realm = ''ims.local''\<rparr>"

definition default_config :: ImsConfig where
  "default_config =
     \<lparr>cfg_global = \<lparr>gc_log_level = ''info'', gc_node_name = ''ims-node''\<rparr>,
      cfg_pcscf = \<lparr>pc_listen_addr = ''0.0.0.0'', pc_listen_port = 5060, pc_advertised_addr = [],
        pc_pcf = \<lparr>pcf_host = ''127.0.0.1'', pcf_port = 8080\<rparr>, pc_core_entry = default_core, pc_core_peers = []\<rparr>,
      cfg_icscf = \<lparr>ic_listen_addr = ''0.0.0.0'', ic_listen_port = 5060, ic_advertised_addr = [],
        ic_hss = default_hss, ic_local_scscf = default_core\<rparr>,
      cfg_scscf = \<lparr>sc_listen_addr = ''0.0.0.0'', sc_listen_port = 5060, sc_advertised_addr = [],
        sc_hss = default_hss, sc_domain = ''ims.local'', sc_auth_mode = ''ims_only'',
        sc_registration_cleanup_interval_ms = 30000,
        sc_exosip = \<lparr>ex_enabled = True, ex_listen_addr = ''0.0.0.0'', ex_listen_port = 5072, ex_transport = ''udp'',
          ex_user_agent = ''SimIMS-eXosip2'', ex_event_poll_ms = 100\<rparr>,
        sc_peer_icscf = None\<rparr>,
      cfg_hss_adapter = \<lparr>ha_type = ''diameter'', ha_diameter_host = ''127.0.0.1'', ha_diameter_port = 3868,
        ha_diameter_realm = ''ims.local'', ha_nudm_url = ''http://127.0.0.1:8080'', ha_subscribers = [],
        ha_mongo_uri = ''mongodb://127.0.0.1:27017'', ha_mongo_db = ''simims'',
        ha_mongo_collection = ''subscribers'', ha_default_scscf_uri = ''sip:127.0.0.1:5062;transport=udp''\<rparr>,
      cfg_media = \<lparr>md_rtpengine_host = ''127.0.0.1'', md_rtpengine_port = 22222\<rparr>,
      cfg_dns = \<lparr>dn_servers = [''127.0.0.1''], dn_timeout_ms = 3000\<rparr>\<rparr>"

subsection \<open>YAML\<close>

record 'n yaml =
  Y_get :: "'n \<Rightarrow> string \<Rightarrow> string + 'n option"
  Y_items :: "'n \<Rightarrow> 'n list"
  Y_string :: "'n \<Rightarrow> string + string"
  Y_uint16 :: "'n \<Rightarrow> string + 16 word"
  Y_uint32 :: "'n \<Rightarrow> string + 32 word"
  Y_bool :: "'n \<Rightarrow> string + bool"

type_synonym 'c loader = "'c \<Rightarrow> string + 'c"

fun load_all :: "'c loader list \<Rightarrow> 'c loader" where
  "load_all [] c = Inr c"
| "load_all (f # fs) c = bind_result (f c) (load_all fs)"

text \<open>\<^verbatim>\<open>if (auto v = node[key]) \<dots>\<close>.\<close>

definition if_defined :: "'n yaml \<Rightarrow> 'n \<Rightarrow> string \<Rightarrow> ('n \<Rightarrow> 'c loader) \<Rightarrow> 'c loader" where
  "if_defined Y node key body c =
     bind_result (Y_get Y node key) (\<lambda>v. case v of None \<Rightarrow> Inr c | Some n \<Rightarrow> body n c)"

definition load_field ::
  "'n yaml \<Rightarrow> 'n \<Rightarrow> string \<Rightarrow> ('n \<Rightarrow> string + 'v) \<Rightarrow> (('v \<Rightarrow> 'v) \<Rightarrow> 'c \<Rightarrow> 'c) \<Rightarrow> 'c loader" where
  "load_field Y node key conv upd =
     if_defined Y node key (\<lambda>v c. bind_result (conv v) (\<lambda>x. Inr (upd (\<lambda>_. x) c)))"

definition parse_endpoint_config ::
  "'n yaml \<Rightarrow> 'n \<Rightarrow> SipEndpointConfig \<Rightarrow> string + SipEndpointConfig" where
  "parse_endpoint_config Y node defaults =
     bind_result
       (load_all
         [load_field Y node ''address'' (Y_string Y) se_address_update,
          load_field Y node ''port'' (Y_uint16 Y) se_port_update,
          load_field Y node ''transport'' (Y_string Y) se_transport_update] defaults)
       (\<lambda>e. Inr (if se_transport e = [] then e\<lparr>se_transport := ''udp''\<rparr> else e))"

fun load_items :: "('n \<Rightarrow> string + 'v) \<Rightarrow> 'n list \<Rightarrow> string + 'v list" where
  "load_items f [] = Inr []"
| "load_items f (n # ns) = bind_result (f n) (\<lambda>v. bind_result (load_items f ns) (\<lambda>vs. Inr (v # vs)))"

subsection \<open>The sections\<close>

definition load_global :: "'n yaml \<Rightarrow> 'n \<Rightarrow> GlobalConfig loader" where
  "load_global Y n = load_all
     [load_field Y n ''log_level'' (Y_string Y) gc_log_level_update,
      load_field Y n ''node_name'' (Y_string Y) gc_node_name_update]"

definition load_pcscf :: "'n yaml \<Rightarrow> 'n \<Rightarrow> PcscfConfig loader" where
  "load_pcscf Y n = load_all
     [load_field Y n ''listen_addr'' (Y_string Y) pc_listen_addr_update,
      load_field Y n ''listen_port'' (Y_uint16 Y) pc_listen_port_update,
      load_field Y n ''advertised_addr'' (Y_string Y) pc_advertised_addr_update,
      if_defined Y n ''pcf'' (\<lambda>p. load_all
        [load_field Y p ''host'' (Y_string Y) (\<lambda>f. pc_pcf_update (pcf_host_update f)),
         load_field Y p ''port'' (Y_uint16 Y) (\<lambda>f. pc_pcf_update (pcf_port_update f))]),
      if_defined Y n ''core_entry'' (\<lambda>v c.
        bind_result (parse_endpoint_config Y v (pc_core_entry c)) (\<lambda>e. Inr (c\<lparr>pc_core_entry := e\<rparr>))),
      if_defined Y n ''core_peers'' (\<lambda>ps c.
        bind_result (load_items (\<lambda>p. parse_endpoint_config Y p (pc_core_entry c)) (Y_items Y ps))
          (\<lambda>es. Inr (c\<lparr>pc_core_peers := es\<rparr>)))]"

definition load_hss :: "'n yaml \<Rightarrow> 'n \<Rightarrow> HssSettings loader" where
  "load_hss Y n = load_all
     [load_field Y n ''host'' (Y_string Y) hs_host_update,
      load_field Y n ''port'' (Y_uint16 Y) hs_port_update,
      load_field Y n ''realm'' (Y_string Y) hs_realm_update]"

definition load_icscf :: "'n yaml \<Rightarrow> 'n \<Rightarrow> IcscfConfig loader" where
  "load_icscf Y n = load_all
     [load_field Y n ''listen_addr'' (Y_string Y) ic_listen_addr_update,
      load_field Y n ''listen_port'' (Y_uint16 Y) ic_listen_port_update,
      load_field Y n ''advertised_addr'' (Y_string Y) ic_advertised_addr_update,
      if_defined Y n ''hss'' (\<lambda>h c. bind_result (load_hss Y h (ic_hss c)) (\<lambda>x. Inr (c\<lparr>ic_hss := x\<rparr>))),
      if_defined Y n ''local_scscf'' (\<lambda>v c.
        bind_result (parse_endpoint_config Y v (ic_local_scscf c)) (\<lambda>e. Inr (c\<lparr>ic_local_scscf := e\<rparr>)))]"

definition load_exosip :: "'n yaml \<Rightarrow> 'n \<Rightarrow> ExosipConfig loader" where
  "load_exosip Y n = load_all
     [load_field Y n ''enabled'' (Y_bool Y) ex_enabled_update,
      load_field Y n ''listen_addr'' (Y_string Y) ex_listen_addr_update,
      load_field Y n ''listen_port'' (Y_uint16 Y) ex_listen_port_update,
      load_field Y n ''transport'' (Y_string Y) ex_transport_update,
      load_field Y n ''user_agent'' (Y_string Y) ex_user_agent_update,
      load_field Y n ''event_poll_ms'' (Y_uint32 Y) ex_event_poll_ms_update]"

definition load_scscf :: "'n yaml \<Rightarrow> SipEndpointConfig \<Rightarrow> 'n \<Rightarrow> ScscfConfig loader" where
  "load_scscf Y local_scscf n = load_all
     [load_field Y n ''listen_addr'' (Y_string Y) sc_listen_addr_update,
      load_field Y n ''listen_port'' (Y_uint16 Y) sc_listen_port_update,
      load_field Y n ''advertised_addr'' (Y_string Y) sc_advertised_addr_update,
      load_field Y n ''domain'' (Y_string Y) sc_domain_update,
      load_field Y n ''auth_mode'' (Y_string Y) sc_auth_mode_update,
      load_field Y n ''registration_cleanup_interval_ms'' (Y_uint32 Y) sc_registration_cleanup_interval_ms_update,
      if_defined Y n ''hss'' (\<lambda>h c. bind_result (load_hss Y h (sc_hss c)) (\<lambda>x. Inr (c\<lparr>sc_hss := x\<rparr>))),
      if_defined Y n ''exosip'' (\<lambda>x c. bind_result (load_exosip Y x (sc_exosip c)) (\<lambda>e. Inr (c\<lparr>sc_exosip := e\<rparr>))),
      if_defined Y n ''peer_icscf'' (\<lambda>v c.
        bind_result (parse_endpoint_config Y v local_scscf) (\<lambda>e. Inr (c\<lparr>sc_peer_icscf := Some e\<rparr>)))]"

definition load_hss_adapter :: "'n yaml \<Rightarrow> 'n \<Rightarrow> HssAdapterConfig loader" where
  "load_hss_adapter Y n = load_all
     [load_field Y n ''type'' (Y_string Y) ha_type_update,
      load_field Y n ''diameter_host'' (Y_string Y) ha_diameter_host_update,
      load_field Y n ''diameter_port'' (Y_uint16 Y) ha_diameter_port_update,
      load_field Y n ''diameter_realm'' (Y_string Y) ha_diameter_realm_update,
      load_field Y n ''nudm_url'' (Y_string Y) ha_nudm_url_update,
      load_field Y n ''mongo_uri'' (Y_string Y) ha_mongo_uri_update,
      load_field Y n ''mongo_db'' (Y_string Y) ha_mongo_db_update,
      load_field Y n ''mongo_collection'' (Y_string Y) ha_mongo_collection_update,
      load_field Y n ''default_scscf_uri'' (Y_string Y) ha_default_scscf_uri_update]"

definition load_media :: "'n yaml \<Rightarrow> 'n \<Rightarrow> MediaConfig loader" where
  "load_media Y n = load_all
     [load_field Y n ''rtpengine_host'' (Y_string Y) md_rtpengine_host_update,
      load_field Y n ''rtpengine_port'' (Y_uint16 Y) md_rtpengine_port_update]"

definition load_dns :: "'n yaml \<Rightarrow> 'n \<Rightarrow> DnsConfig loader" where
  "load_dns Y n = load_all
     [load_field Y n ''timeout_ms'' (Y_uint32 Y) dn_timeout_ms_update,
      if_defined Y n ''servers'' (\<lambda>s c.
        bind_result (load_items (Y_string Y) (Y_items Y s)) (\<lambda>xs. Inr (c\<lparr>dn_servers := xs\<rparr>)))]"

text \<open>The sections up to the checks, and those after them.\<close>

definition load_sections :: "'n yaml \<Rightarrow> 'n \<Rightarrow> ImsConfig loader" where
  "load_sections Y root = load_all
     [if_defined Y root ''global'' (\<lambda>n c.
        bind_result (load_global Y n (cfg_global c)) (\<lambda>x. Inr (c\<lparr>cfg_global := x\<rparr>))),
      if_defined Y root ''pcscf'' (\<lambda>n c.
        bind_result (load_pcscf Y n (cfg_pcscf c)) (\<lambda>x. Inr (c\<lparr>cfg_pcscf := x\<rparr>))),
      if_defined Y root ''icscf'' (\<lambda>n c.
        bind_result (load_icscf Y n (cfg_icscf c)) (\<lambda>x. Inr (c\<lparr>cfg_icscf := x\<rparr>))),
      if_defined Y root ''scscf'' (\<lambda>n c.
        bind_result (load_scscf Y (ic_local_scscf (cfg_icscf c)) n (cfg_scscf c))
          (\<lambda>x. Inr (c\<lparr>cfg_scscf := x\<rparr>))),
      if_defined Y root ''hss_adapter'' (\<lambda>n c.
        bind_result (load_hss_adapter Y n (cfg_hss_adapter c)) (\<lambda>x. Inr (c\<lparr>cfg_hss_adapter := x\<rparr>)))]"

definition load_last_sections :: "'n yaml \<Rightarrow> 'n \<Rightarrow> ImsConfig loader" where
  "load_last_sections Y root = load_all
     [if_defined Y root ''media'' (\<lambda>n c.
        bind_result (load_media Y n (cfg_media c)) (\<lambda>x. Inr (c\<lparr>cfg_media := x\<rparr>))),
      if_defined Y root ''dns'' (\<lambda>n c.
        bind_result (load_dns Y n (cfg_dns c)) (\<lambda>x. Inr (c\<lparr>cfg_dns := x\<rparr>)))]"

definition check_mongo :: "ImsConfig \<Rightarrow> unit result" where
  "check_mongo c =
     (let h = cfg_hss_adapter c in
      if ha_mongo_uri h = [] then
        Inl (mk_error kConfigInvalidValue ''hss_adapter.mongo_uri must not be empty'' ''hss_adapter.mongo_uri'')
      else if ha_mongo_db h = [] then
        Inl (mk_error kConfigInvalidValue ''hss_adapter.mongo_db must not be empty'' ''hss_adapter.mongo_db'')
      else if ha_mongo_collection h = [] then
        Inl (mk_error kConfigInvalidValue ''hss_adapter.mongo_collection must not be empty''
               ''hss_adapter.mongo_collection'')
      else Inr ())"

text \<open>\<open>file\<close> is what \<^verbatim>\<open>YAML::LoadFile\<close> gives.  The outer sum is an exception that leaves
  \<^verbatim>\<open>load_config\<close>: only \<^verbatim>\<open>LoadFile\<close> is in its \<^verbatim>\<open>try\<close> block.\<close>

definition load_config ::
  "'n yaml \<Rightarrow> string \<Rightarrow> bool \<Rightarrow> string + 'n \<Rightarrow> string + ImsConfig result" where
  "load_config Y path exists file =
     (if \<not> exists then Inr (Inl (mk_error kConfigFileNotFound ''Config file not found'' path))
      else (case file of
              Inl e \<Rightarrow> Inr (Inl (mk_error kConfigParseError ''Failed to parse config file'' e))
            | Inr root \<Rightarrow>
                bind_result (load_sections Y root default_config) (\<lambda>c.
                  case check_mongo c of
                    Inl e \<Rightarrow> Inr (Inl e)
                  | Inr _ \<Rightarrow> bind_result (load_last_sections Y root c) (\<lambda>c'. Inr (Inr c')))))"
subsection \<open>What a loader keeps\<close>

definition preserves :: "('c \<Rightarrow> bool) \<Rightarrow> 'c loader \<Rightarrow> bool" where
  "preserves P f \<longleftrightarrow> (\<forall>c c'. P c \<longrightarrow> f c = Inr c' \<longrightarrow> P c')"

lemma preservesD: "preserves P f \<Longrightarrow> f c = Inr c' \<Longrightarrow> P c \<Longrightarrow> P c'"
  unfolding preserves_def by blast

lemma preserves_load_all: "\<forall>f \<in> set fs. preserves P f \<Longrightarrow> preserves P (load_all fs)"
proof (induction fs)
  case Nil
  then show ?case by (simp add: preserves_def)
next
  case (Cons f fs)
  then have f: "preserves P f" and fs: "preserves P (load_all fs)" by simp_all
  show ?case
    unfolding preserves_def load_all.simps bind_result_Inr_iff
  proof (intro allI impI, elim exE conjE)
    fix c c' d
    assume "P c" "f c = Inr d" "load_all fs d = Inr c'"
    then show "P c'" using preservesD [OF f] preservesD [OF fs] by blast
  qed
qed

lemma preserves_if_defined:
  assumes "\<And>n. preserves P (body n)"
  shows "preserves P (if_defined Y node key body)"
  unfolding preserves_def if_defined_def bind_result_Inr_iff
proof (intro allI impI, elim exE conjE)
  fix c c' v
  assume "P c" "(case v of None \<Rightarrow> Inr c | Some n \<Rightarrow> body n c) = Inr c'"
  then show "P c'" using preservesD [OF assms] by (cases v) auto
qed

lemma preserves_bind:
  assumes "\<And>c x. P c \<Longrightarrow> f c = Inr x \<Longrightarrow> P (upd x c)"
  shows "preserves P (\<lambda>c. bind_result (f c) (\<lambda>x. Inr (upd x c)))"
  using assms by (auto simp: preserves_def bind_result_Inr_iff)

lemma preserves_field:
  assumes "\<And>v c. P c \<Longrightarrow> P (upd (\<lambda>_. v) c)"
  shows "preserves P (load_field Y node key conv upd)"
  unfolding load_field_def
  by (rule preserves_if_defined, rule preserves_bind) (rule assms)

lemmas preserves_intros = preserves_load_all preserves_if_defined preserves_field preserves_bind

lemma load_items_all: "load_items f ns = Inr vs \<Longrightarrow> (\<And>n v. f n = Inr v \<Longrightarrow> P v) \<Longrightarrow> \<forall>v \<in> set vs. P v"
  by (induction ns arbitrary: vs) (auto simp: bind_result_Inr_iff)

text \<open>A configuration the servers can start from: every SIP endpoint has a transport.\<close>

definition has_transport :: "SipEndpointConfig \<Rightarrow> bool" where
  "has_transport e \<longleftrightarrow> se_transport e \<noteq> []"

definition pcscf_ok :: "PcscfConfig \<Rightarrow> bool" where
  "pcscf_ok c \<longleftrightarrow> has_transport (pc_core_entry c) \<and> (\<forall>e \<in> set (pc_core_peers c). has_transport e)"

definition endpoints_ok :: "ImsConfig \<Rightarrow> bool" where
  "endpoints_ok c \<longleftrightarrow>
     pcscf_ok (cfg_pcscf c) \<and> has_transport (ic_local_scscf (cfg_icscf c)) \<and>
     (\<forall>e. sc_peer_icscf (cfg_scscf c) = Some e \<longrightarrow> has_transport e)"

definition config_ok :: "ImsConfig \<Rightarrow> bool" where
  "config_ok c \<longleftrightarrow>
     endpoints_ok c \<and> ha_mongo_uri (cfg_hss_adapter c) \<noteq> [] \<and> ha_mongo_db (cfg_hss_adapter c) \<noteq> [] \<and>
     ha_mongo_collection (cfg_hss_adapter c) \<noteq> []"

lemma parse_endpoint_transport: "parse_endpoint_config Y n d = Inr e \<Longrightarrow> has_transport e"
  unfolding parse_endpoint_config_def bind_result_Inr_iff has_transport_def
  by (elim exE conjE, split if_split_asm) auto

lemma load_pcscf_ok: "preserves pcscf_ok (load_pcscf Y n)"
  unfolding load_pcscf_def
proof (rule preserves_load_all, unfold list.set ball_simps, intro conjI TrueI)
  show "preserves pcscf_ok (if_defined Y n ''core_peers'' (\<lambda>ps c.
        bind_result (load_items (\<lambda>p. parse_endpoint_config Y p (pc_core_entry c)) (Y_items Y ps))
          (\<lambda>es. Inr (c\<lparr>pc_core_peers := es\<rparr>))))"
  proof (rule preserves_if_defined, rule preserves_bind)
    fix ps c es
    assume c: "pcscf_ok c" and
      es: "load_items (\<lambda>p. parse_endpoint_config Y p (pc_core_entry c)) (Y_items Y ps) = Inr es"
    have "\<forall>e \<in> set es. has_transport e"
      by (rule load_items_all [OF es]) (rule parse_endpoint_transport)
    with c show "pcscf_ok (c\<lparr>pc_core_peers := es\<rparr>)" by (simp add: pcscf_ok_def)
  qed
qed (rule preserves_intros, auto simp: pcscf_ok_def intro!: preserves_intros dest: parse_endpoint_transport)

lemma load_scscf_ok:
  "preserves (\<lambda>c. \<forall>e. sc_peer_icscf c = Some e \<longrightarrow> has_transport e) (load_scscf Y d n)"
  unfolding load_scscf_def
  by (rule preserves_load_all, unfold list.set ball_simps, intro conjI TrueI)
    (rule preserves_intros, auto intro!: preserves_intros dest: parse_endpoint_transport)+

lemma load_icscf_ok: "preserves (\<lambda>c. has_transport (ic_local_scscf c)) (load_icscf Y n)"
  unfolding load_icscf_def
  by (rule preserves_load_all, unfold list.set ball_simps, intro conjI TrueI)
    (rule preserves_intros, auto intro!: preserves_intros dest: parse_endpoint_transport)+

lemma load_sections_ok: "preserves endpoints_ok (load_sections Y root)"
  unfolding load_sections_def
  by (rule preserves_load_all, unfold list.set ball_simps, intro conjI TrueI)
    (rule preserves_if_defined, rule preserves_bind,
      auto simp: endpoints_ok_def dest: preservesD [OF load_pcscf_ok] preservesD [OF load_icscf_ok]
        preservesD [OF load_scscf_ok])+

lemma load_last_sections_ok: "preserves config_ok (load_last_sections Y root)"
  unfolding load_last_sections_def
  by (rule preserves_load_all, unfold list.set ball_simps, intro conjI TrueI)
    (rule preserves_if_defined, rule preserves_bind, simp add: config_ok_def endpoints_ok_def)+

lemma default_endpoints_ok: "endpoints_ok default_config"
  by (simp add: endpoints_ok_def pcscf_ok_def has_transport_def default_config_def default_core_def)

lemma unit_Inr_iff: "(r :: 'e + unit) = Inr () \<longleftrightarrow> (\<forall>e. r \<noteq> Inl e)"
  by (cases r) auto

text \<open>C34: A configuration that loads is well-formed whatever the file holds: the database has a URI, a
  name and a collection, and the core entry, every core peer, the local S-CSCF and the peer I-CSCF
  have a transport.\<close>

theorem loaded_config_is_well_formed:
  assumes "load_config Y path exists file = Inr (Inr c)"
  shows "config_ok c"
proof -
  obtain root c0 where root: "load_sections Y root default_config = Inr c0"
    and mongo: "check_mongo c0 = Inr ()" and last: "load_last_sections Y root c0 = Inr c"
    using assms
    by (auto simp: load_config_def bind_result_Inr_iff unit_Inr_iff split: if_splits sum.splits)
  have "endpoints_ok c0" by (rule preservesD [OF load_sections_ok root default_endpoints_ok])
  with mongo have "config_ok c0" by (auto simp: config_ok_def check_mongo_def Let_def split: if_splits)
  then show ?thesis by (rule preservesD [OF load_last_sections_ok last])
qed

text \<open>A YAML document for the examples: maps and scalars, with a conversion of numbers that fails when
  the text is not a number or does not fit.\<close>

datatype doc = Text string | Doc "(string \<times> doc) list" | Items "doc list"

definition demo_get :: "doc \<Rightarrow> string \<Rightarrow> string + doc option" where
  "demo_get d k = (case d of Doc kvs \<Rightarrow> Inr (map_of kvs k) | _ \<Rightarrow> Inl ''operator[] call on a scalar'')"

definition demo_text :: "doc \<Rightarrow> string + string" where
  "demo_text d = (case d of Text s \<Rightarrow> Inr s | _ \<Rightarrow> Inl ''bad conversion'')"

definition demo_number :: "nat \<Rightarrow> doc \<Rightarrow> string + nat" where
  "demo_number w d =
     (case d of Text s \<Rightarrow> (if s \<noteq> [] \<and> list_all is_digit s \<and> nat_of_digits 0 s < 2 ^ w
                           then Inr (nat_of_digits 0 s) else Inl ''bad conversion'')
      | _ \<Rightarrow> Inl ''bad conversion'')"

definition demo_yaml :: "doc yaml" where
  "demo_yaml = \<lparr>Y_get = demo_get, Y_items = (\<lambda>d. case d of Items xs \<Rightarrow> xs | _ \<Rightarrow> []), Y_string = demo_text,
     Y_uint16 = (\<lambda>d. bind_result (demo_number 16 d) (\<lambda>n. Inr (of_nat n))),
     Y_uint32 = (\<lambda>d. bind_result (demo_number 32 d) (\<lambda>n. Inr (of_nat n))),
     Y_bool = (\<lambda>d. Inr (d = Text ''true''))\<rparr>"

definition demo_config_doc :: doc where
  "demo_config_doc = Doc [(''pcscf'', Doc [(''core_entry'', Doc [(''transport'', Text [])])])]"

lemma loaded_config_is_well_formed_witness:
  "config_ok (default_config)"
proof (rule loaded_config_is_well_formed)
  show "load_config demo_yaml ''ims.yaml'' True (Inr demo_config_doc) = Inr (Inr default_config)"
    by (simp add: load_config_def load_sections_def load_pcscf_def load_last_sections_def load_field_def
        if_defined_def demo_config_doc_def demo_yaml_def demo_get_def demo_text_def parse_endpoint_config_def
        check_mongo_def default_config_def default_core_def Let_def)
qed

text \<open>A value of the wrong type is not reported as an error of the loader: the conversion's
  exception leaves \<^verbatim>\<open>load_config\<close>, whose \<^verbatim>\<open>try\<close> block ends after the
  parsing of the file.\<close>

theorem ill_typed_value_escapes:
  assumes "Y_get Y root ''global'' = Inr None" and "Y_get Y root ''pcscf'' = Inr (Some n)"
    and "Y_get Y n ''listen_addr'' = Inr None" and "Y_get Y n ''listen_port'' = Inr (Some v)"
    and "Y_uint16 Y v = Inl e"
  shows "load_config Y path True (Inr root) = Inl e"
  using assms
  by (simp add: load_config_def load_sections_def load_pcscf_def load_field_def if_defined_def)

lemma ill_typed_value_escapes_witness:
  "load_config demo_yaml ''ims.yaml'' True
     (Inr (Doc [(''pcscf'', Doc [(''listen_port'', Text ''70000'')])])) = Inl ''bad conversion''"
proof (rule ill_typed_value_escapes [where n = "Doc [(''listen_port'', Text ''70000'')]" and v = "Text ''70000''"])
  show "Y_uint16 demo_yaml (Text ''70000'') = Inl ''bad conversion''"
    by (simp add: demo_yaml_def demo_number_def is_digit_def digit_val_def char_code_def)
qed (simp_all add: demo_yaml_def demo_get_def)

end
