(* ===== verification/Rx_Client.thy ===== *)
theory Rx_Client
  imports Config
begin

section \<open>The Rx interface and the stub of the PCF (diameter/types.hpp, diameter/rx_client.cpp)\<close>

text \<open>
  The requests of the Rx interface, and the client that stands in for a PCF.  Its state is the
  settings it was created with, the handler of abort requests and the counter of its sessions.  What a
  session asks for is only written to the log, so it does not enter the answer.
\<close>

record MediaComponent =
  mm_media_component_number :: "32 word"
  mm_media_type :: string
  mm_max_requested_bandwidth_ul :: "32 word"
  mm_max_requested_bandwidth_dl :: "32 word"
  mm_flow_status :: "32 word"
  mm_flows :: "string list"
  mm_codec_data :: string

record AarParams =
  aar_subscription_id :: string
  aar_ip_address :: string
  aar_called_station_id :: string
  aar_media_components :: "MediaComponent list"
  aar_specific_action :: "32 word"
  aar_af_application_id :: string

record AaaResult =
  aaa_result_code :: "32 word"
  aaa_session_id :: string

record StrParams =
  str_session_id :: string
  str_termination_cause :: "32 word"

record StaResult =
  sta_result_code :: "32 word"

record AsrParams =
  asr_session_id :: string
  asr_abort_cause :: "32 word"

text \<open>The counter is a \<^verbatim>\<open>std::atomic<uint64_t>\<close>; a handler is a value of the caller's choice.\<close>

record 'h stub_pcf =
  sp_config :: PcfSettings
  sp_asr_handler :: "'h option"
  sp_session_counter :: "64 word"

definition StubPcfClient :: "PcfSettings \<Rightarrow> 'h stub_pcf" where
  "StubPcfClient config = \<lparr>sp_config = config, sp_asr_handler = None, sp_session_counter = 0\<rparr>"

definition stub_session_id :: "nat \<Rightarrow> string" where
  "stub_session_id n = ''stub-rx-session-'' @ show_nat n"

definition stub_authorizeSession :: "AarParams \<Rightarrow> 'h stub_pcf \<Rightarrow> 'h stub_pcf \<times> AaaResult result" where
  "stub_authorizeSession params c =
     (let session_number = sp_session_counter c + 1 in
      (c\<lparr>sp_session_counter := session_number\<rparr>,
       Inr \<lparr>aaa_result_code = 2001, aaa_session_id = stub_session_id (unat session_number)\<rparr>))"

definition stub_terminateSession :: "StrParams \<Rightarrow> StaResult result" where
  "stub_terminateSession params = Inr \<lparr>sta_result_code = 2001\<rparr>"

definition setAsrHandler :: "'h option \<Rightarrow> 'h stub_pcf \<Rightarrow> 'h stub_pcf" where
  "setAsrHandler handler c = c\<lparr>sp_asr_handler := handler\<rparr>"

text \<open>The sessions of a sequence of requests, as a list of their names.\<close>

fun authorize_all :: "AarParams list \<Rightarrow> 'h stub_pcf \<Rightarrow> 'h stub_pcf \<times> string list" where
  "authorize_all [] c = (c, [])"
| "authorize_all (p # ps) c =
     (case stub_authorizeSession p c of
        (c1, Inl e) \<Rightarrow> authorize_all ps c1
      | (c1, Inr a) \<Rightarrow> (let (c2, ids) = authorize_all ps c1 in (c2, aaa_session_id a # ids)))"

lemma authorize_all_ids:
  "unat (sp_session_counter c) + length ps < 2 ^ 64 \<Longrightarrow>
   snd (authorize_all ps c) =
     map stub_session_id [Suc (unat (sp_session_counter c))..<Suc (unat (sp_session_counter c) + length ps)]"
proof (induction ps arbitrary: c)
  case (Cons p ps)
  let ?c1 = "c\<lparr>sp_session_counter := sp_session_counter c + 1\<rparr>" and ?m = "Suc (unat (sp_session_counter c))"
  have m: "unat (sp_session_counter c + 1) = ?m"
    using Cons.prems by (simp add: unat_word_ariths)
  then have "snd (authorize_all ps ?c1) = map stub_session_id [Suc ?m..<Suc (?m + length ps)]"
    using Cons.IH [of ?c1] Cons.prems by simp
  moreover have "[?m..<Suc (unat (sp_session_counter c) + length (p # ps))] = ?m # [Suc ?m..<Suc (?m + length ps)]"
    by (subst upt_conv_Cons) simp_all
  ultimately show ?case
    by (simp add: stub_authorizeSession_def m case_prod_beta del: upt_Suc)
qed simp

text \<open>No two sessions the stub grants have the same name, until its counter wraps.\<close>

lemma sessions_are_distinct:
  assumes "length ps < 2 ^ 64" shows "distinct (snd (authorize_all ps (StubPcfClient config :: 'h stub_pcf)))"
proof -
  have "inj show_nat" by (rule injI) (metis nat_of_digits_show_nat)
  then have "inj_on stub_session_id A" for A by (auto simp: inj_on_def inj_def stub_session_id_def)
  then show ?thesis
    using assms by (subst authorize_all_ids) (simp_all add: StubPcfClient_def distinct_map)
qed

end
