(* ===== verification/Pcscf.thy ===== *)
theory Pcscf
  imports Proxy_Core Rtpengine Rx_Client
begin

section \<open>The P-CSCF (p-cscf/pcscf_service.cpp)\<close>

text \<open>
  The proxy the terminals talk to.  Its state is the table of media sessions and the table of
  topology tokens; the configuration, the core entry and the presence of the media relay and of the
  PCF do not change.  A handler returns the state, the actions it takes in order (SIP messages,
  commands to the media relay, requests to the PCF) and the exception it leaves with, if any.  What
  the environment answers is an argument: clock readings, random digits, the results of sending and
  of the relay's commands.  The result of deleting a relay session, of terminating an Rx session and
  of sending a response is only logged.
\<close>

datatype pcscf_action =
    Sip action
  | Relay_offer MediaSession string RtpengineFlags
  | Relay_answer MediaSession string RtpengineFlags
  | Relay_delete MediaSession
  | Terminate_rx StrParams

record TopologyRouteEntry =
  te_endpoint :: Endpoint
  te_expires_at :: time_point

type_synonym topology = "(string, TopologyRouteEntry) umap"

record pcscf =
  ps_media :: sessions
  ps_topology :: topology

record pcscf_params =
  pp_config :: PcscfConfig
  pp_core_addr :: string
  pp_core_port :: port
  pp_relay :: bool
  pp_pcf :: bool

record pcscf_env =
  pe_source :: Endpoint
  pe_original :: osip_message
  pe_created_now :: time_point
  pe_resolve_now :: time_point
  pe_remember_now :: time_point
  pe_expires_now :: time_point
  pe_digits :: "nat list"
  pe_tag :: string
  pe_branch :: string
  pe_send :: "osip_message \<Rightarrow> unit result"
  pe_sent :: "unit result"
  pe_transport :: transport
  pe_relay_result :: "RtpengineResult result"

type_synonym pcscf_outcome = "pcscf \<times> pcscf_action list \<times> std_exception option"

definition PcscfService :: pcscf where
  "PcscfService = \<lparr>ps_media = [], ps_topology = []\<rparr>"

definition pcscf_advertised_address :: "PcscfConfig \<Rightarrow> string" where
  "pcscf_advertised_address cfg =
     (if pc_advertised_addr cfg \<noteq> [] then pc_advertised_addr cfg
      else if pc_listen_addr cfg \<noteq> [] \<and> pc_listen_addr cfg \<noteq> ''0.0.0.0'' then pc_listen_addr cfg
      else ''127.0.0.1'')"

definition pcscf_proxy :: "pcscf_params \<Rightarrow> proxy" where
  "pcscf_proxy pp =
     \<lparr>local_address = pcscf_advertised_address (pp_config pp), local_port = pc_listen_port (pp_config pp)\<rparr>"

definition kTopologyRouteTtl :: int where
  "kTopologyRouteTtl = minutes 30"

subsection \<open>Where a request comes from and where it goes\<close>

definition udp_if_empty :: "string \<Rightarrow> string" where
  "udp_if_empty t = (if t = [] then ''udp'' else t)"

definition endpoint_matches :: "pcscf_params \<Rightarrow> Endpoint \<Rightarrow> string \<Rightarrow> port \<Rightarrow> string \<Rightarrow> bool" where
  "endpoint_matches pp source configured_addr configured_port configured_transport =
     (let source_addr = lowercase (ep_address source);
          source_transport = lowercase (udp_if_empty (ep_transport source));
          target_addr = lowercase configured_addr;
          target_transport = lowercase (udp_if_empty configured_transport);
          listen_addr = lowercase (pc_listen_addr (pp_config pp));
          is_loopback_source = (source_addr = ''127.0.0.1'' \<or> source_addr = ''::1'');
          addr_matches =
            (source_addr = target_addr \<or>
             source_addr = lowercase (local_address (pcscf_proxy pp)) \<or>
             (listen_addr \<noteq> [] \<and> listen_addr \<noteq> ''0.0.0.0'' \<and> listen_addr \<noteq> ''::'' \<and>
              source_addr = listen_addr) \<or>
             ((target_addr = ''0.0.0.0'' \<or> target_addr = ''::'' \<or>
               listen_addr = ''0.0.0.0'' \<or> listen_addr = ''::'') \<and> is_loopback_source))
      in addr_matches \<and> ep_port source = configured_port \<and> source_transport = target_transport)"

definition isCoreFacingRequest :: "pcscf_params \<Rightarrow> Endpoint \<Rightarrow> bool" where
  "isCoreFacingRequest pp source =
     (let cfg = pp_config pp in
      if pc_core_peers cfg = []
      then endpoint_matches pp source (pp_core_addr pp) (pp_core_port pp) (se_transport (pc_core_entry cfg))
      else list_ex (\<lambda>peer. endpoint_matches pp source (se_address peer) (se_port peer) (se_transport peer))
             (pc_core_peers cfg))"

definition default_transport :: "Endpoint \<Rightarrow> Endpoint" where
  "default_transport e = (if ep_transport e = [] then e\<lparr>ep_transport := ''udp''\<rparr> else e)"

definition bottom_via_endpoint :: "osip_lib \<Rightarrow> osip_message \<Rightarrow> Endpoint option" where
  "bottom_via_endpoint L request =
     (if m_vias request = [] then None
      else
        (let v = last (m_vias request) in
         case via_host v of
           None \<Rightarrow> None
         | Some host \<Rightarrow>
             (let via_port_value = (case via_port v of Some q \<Rightarrow> to_port (atoi q) | None \<Rightarrow> 5060);
                  p = (case param_gvalue L (via_params v) ''rport'' of
                         Some r \<Rightarrow> if r \<noteq> [] then to_port (atoi r) else via_port_value
                       | None \<Rightarrow> via_port_value);
                  tr = (case via_protocol v of
                          Some pr \<Rightarrow> if lowercase pr = ''tcp'' then ''tcp'' else ''udp'' | None \<Rightarrow> ''udp'')
              in Some \<lparr>ep_address = host, ep_port = p, ep_transport = tr\<rparr>)))"

definition contact_endpoint :: "osip_lib \<Rightarrow> osip_message \<Rightarrow> Endpoint option" where
  "contact_endpoint L request =
     (case message_contact_uri L request of
        None \<Rightarrow> None
      | Some c \<Rightarrow> map_option default_transport (parse_endpoint_from_uri L c))"

definition resolveUeDestination :: "osip_lib \<Rightarrow> osip_message \<Rightarrow> Endpoint option" where
  "resolveUeDestination L request =
     (let via_contact = (case contact_endpoint L request of
                           Some e \<Rightarrow> Some e | None \<Rightarrow> bottom_via_endpoint L request)
      in case parse_endpoint_from_uri L (requestUri L request) of
           None \<Rightarrow> via_contact
         | Some e \<Rightarrow>
             if ep_address e \<noteq> [] \<and> ep_address e \<noteq> ''ims.local'' then Some (default_transport e)
             else via_contact)"

subsection \<open>Topology tokens\<close>

definition find_first_of :: "string \<Rightarrow> char list \<Rightarrow> nat \<Rightarrow> nat option" where
  "find_first_of s cs pos =
     (let n = length (takeWhile (\<lambda>c. c \<notin> set cs) (drop pos s)) in
      if pos + n < length s then Some (pos + n) else None)"

definition token_of_route :: "string \<Rightarrow> string option" where
  "token_of_route route =
     (case str_find route ''th='' 0 of
        None \<Rightarrow> None
      | Some i \<Rightarrow>
          (let key_pos = i + 3;
               end_pos = (case find_first_of route [CHR '';'', CHR ''>''] key_pos of
                            None \<Rightarrow> length route | Some e \<Rightarrow> e)
           in if end_pos \<le> key_pos then None else Some (substr route key_pos (end_pos - key_pos))))"

definition extractTopologyToken :: "osip_lib \<Rightarrow> osip_message \<Rightarrow> string option" where
  "extractTopologyToken L request = (case routes L request of [] \<Rightarrow> None | r # _ \<Rightarrow> token_of_route r)"

text \<open>The digits are drawn from 0 to 15.\<close>

definition random_hex :: "nat list \<Rightarrow> string" where
  "random_hex digits = map (\<lambda>d. ''0123456789abcdef'' ! d) digits"

definition createTopologyToken :: "nat list \<Rightarrow> string" where
  "createTopologyToken digits = ''th'' @ random_hex digits"

definition purgeExpiredTopologyRoutesLocked :: "time_point \<Rightarrow> topology \<Rightarrow> topology" where
  "purgeExpiredTopologyRoutesLocked now t = um_erase_if (\<lambda>(k, e). te_expires_at e \<le> now) t"

definition rememberTopologyRoute ::
  "time_point \<Rightarrow> time_point \<Rightarrow> string \<Rightarrow> Endpoint \<Rightarrow> topology \<Rightarrow> topology" where
  "rememberTopologyRoute now expires_now token ep t =
     um_put token \<lparr>te_endpoint = ep, te_expires_at = expires_now + kTopologyRouteTtl\<rparr>
       (purgeExpiredTopologyRoutesLocked now t)"

definition core_entry :: "pcscf_params \<Rightarrow> Endpoint" where
  "core_entry pp =
     \<lparr>ep_address = pp_core_addr pp, ep_port = pp_core_port pp,
      ep_transport = udp_if_empty (se_transport (pc_core_entry (pp_config pp)))\<rparr>"

definition resolveCoreDestination ::
  "osip_lib \<Rightarrow> pcscf_params \<Rightarrow> time_point \<Rightarrow> osip_message \<Rightarrow> topology \<Rightarrow> topology \<times> Endpoint" where
  "resolveCoreDestination L pp now request t =
     (case extractTopologyToken L request of
        None \<Rightarrow> (t, core_entry pp)
      | Some token \<Rightarrow>
          (let t1 = purgeExpiredTopologyRoutesLocked now t in
           (t1, case um_find t1 token of Some e \<Rightarrow> te_endpoint e | None \<Rightarrow> core_entry pp)))"

definition topology_record_route :: "pcscf_params \<Rightarrow> string \<Rightarrow> string" where
  "topology_record_route pp token =
     ''<sip:'' @ local_address (pcscf_proxy pp) @ '':'' @ show_port (local_port (pcscf_proxy pp)) @ '';lr;th='' @
     token @ ''>''"

text \<open>Removing Record-Route cannot fail: it is a list of its own.\<close>

definition addTopologyRecordRoute :: "osip_lib \<Rightarrow> pcscf_params \<Rightarrow> string \<Rightarrow> osip_message \<Rightarrow> osip_message" where
  "addTopologyRecordRoute L pp token request =
     addRecordRoute L (topology_record_route pp token) (remaining (removeHeader L ''Record-Route'' request))"

fun sanitize_loop :: "nat \<Rightarrow> osip_message \<Rightarrow> osip_message" where
  "sanitize_loop 0 m = m"
| "sanitize_loop (Suc n) m = (if 1 < viaCount m then sanitize_loop n (removeTopVia m) else m)"

definition sanitizeForUeEgress :: "osip_message \<Rightarrow> osip_message" where
  "sanitizeForUeEgress m = sanitize_loop (viaCount m) m"

subsection \<open>Media\<close>

definition mediaKeyForRequest :: "osip_lib \<Rightarrow> osip_message \<Rightarrow> MediaSessionKey" where
  "mediaKeyForRequest L request =
     \<lparr>mk_call_id = callId request, mk_from_tag = fromTag L request, mk_to_tag = toTag L request\<rparr>"

definition mediaKeyForResponse :: "osip_lib \<Rightarrow> osip_message \<Rightarrow> MediaSessionKey" where
  "mediaKeyForResponse L response =
     \<lparr>mk_call_id = callId response, mk_from_tag = fromTag L response, mk_to_tag = toTag L response\<rparr>"

definition internal_flags :: RtpengineFlags where
  "internal_flags =
     \<lparr>fl_direction_from = ''internal'', fl_direction_to = ''internal'', fl_transport_protocol = [],
      fl_ice_remove = True, fl_rtcp_mux_demux = False, fl_replace = None, fl_record_call = None\<rparr>"

text \<open>What ends with a session: its relay session, and its Rx session if it has one.\<close>

definition release_media :: "pcscf_params \<Rightarrow> MediaTerminationPlan \<Rightarrow> pcscf_action list" where
  "release_media pp plan =
     (if pp_relay pp then [Relay_delete (tp_session plan)] else []) @
     (if tp_rx_session_id plan \<noteq> [] \<and> pp_pcf pp
      then [Terminate_rx \<lparr>str_session_id = tp_rx_session_id plan, str_termination_cause = 1\<rparr>] else [])"

definition terminateMediaForRequest ::
  "osip_lib \<Rightarrow> pcscf_params \<Rightarrow> osip_message \<Rightarrow> pcscf \<Rightarrow> pcscf \<times> pcscf_action list" where
  "terminateMediaForRequest L pp request st =
     (let (m, termination) = markTerminating (mediaKeyForRequest L request) (ps_media st) in
      case termination of
        None \<Rightarrow> (st\<lparr>ps_media := m\<rparr>, [])
      | Some plan \<Rightarrow> (st\<lparr>ps_media := completeTermination (tp_key plan) m\<rparr>, release_media pp plan))"

fun completeMediaTerminations ::
  "pcscf_params \<Rightarrow> MediaTerminationPlan list \<Rightarrow> sessions \<Rightarrow> sessions \<times> pcscf_action list" where
  "completeMediaTerminations pp [] m = (m, [])"
| "completeMediaTerminations pp (plan # plans) m =
     (let (m', acts) = completeMediaTerminations pp plans (completeTermination (tp_key plan) m)
      in (m', release_media pp plan @ acts))"

definition with_media :: "pcscf \<Rightarrow> sessions \<times> pcscf_action list \<Rightarrow> pcscf \<times> pcscf_action list" where
  "with_media st r = (st\<lparr>ps_media := fst r\<rparr>, snd r)"

definition end_plans ::
  "pcscf_params \<Rightarrow> sessions \<times> MediaTerminationPlan list \<Rightarrow> sessions \<times> pcscf_action list" where
  "end_plans pp r = completeMediaTerminations pp (snd r) (fst r)"

text \<open>The response is changed in place.\<close>

definition onInviteResponse ::
  "osip_lib \<Rightarrow> pcscf_params \<Rightarrow> pcscf_env \<Rightarrow> osip_message \<Rightarrow> pcscf \<Rightarrow>
     (pcscf \<times> pcscf_action list) \<times> osip_message" where
  "onInviteResponse L pp env response0 st =
     (if \<not> isResponse response0 then ((st, []), response0)
      else if cseqMethod response0 \<noteq> ''INVITE'' then ((st, []), response0)
      else
        (let response = sanitizeForUeEgress response0;
             status = statusCode response;
             response_key = mediaKeyForResponse L response
         in if 300 \<le> status \<and> status \<le> 699 then
              (with_media st (end_plans pp (markInviteFinalFailure response_key (ps_media st))), response)
            else if status \<noteq> 183 \<and> (status < 200 \<or> 300 \<le> status) then ((st, []), response)
            else
              (let sdp = message_body response; established = (200 \<le> status \<and> status < 300) in
               if (sdp = None \<or> \<not> pp_relay pp) \<and> established then
                 (with_media st (end_plans pp (markInviteFinalSuccess response_key (ps_media st))), response)
               else if sdp = None \<or> \<not> pp_relay pp then ((st, []), response)
               else
                 (case beginInviteResponse response_key (ps_media st) of
                    (m1, None) \<Rightarrow> ((st\<lparr>ps_media := m1\<rparr>, []), response)
                  | (m1, Some u) \<Rightarrow>
                      (let answer = Relay_answer (iu_session u) (the sdp) internal_flags in
                       case pe_relay_result env of
                         Inl e \<Rightarrow> ((st\<lparr>ps_media := m1\<rparr>, [answer]), response)
                       | Inr r \<Rightarrow>
                           (let m2 = commitInviteResponse (iu_key u) (the sdp) established m1;
                                (m3, acts) =
                                  (if established then end_plans pp (markInviteFinalSuccess (iu_key u) m2)
                                   else (m2, []))
                            in ((st\<lparr>ps_media := m3\<rparr>, answer # acts),
                                if rr_sdp r \<noteq> [] then setBody L (rr_sdp r) ''application/sdp'' response
                                else response)))))))"

subsection \<open>Forwarding\<close>

definition core_options :: "bool \<Rightarrow> (osip_message \<Rightarrow> osip_message) option \<Rightarrow> ForwardOptions" where
  "core_options add_record_route on_response =
     \<lparr>fo_add_record_route = add_record_route, fo_process_route_headers = True, fo_detect_loop = True,
      fo_on_response = on_response\<rparr>"

definition ue_options :: ForwardOptions where
  "ue_options =
     \<lparr>fo_add_record_route = False, fo_process_route_headers = False, fo_detect_loop = False,
      fo_on_response = None\<rparr>"

definition pcscf_forward ::
  "osip_lib \<Rightarrow> pcscf_params \<Rightarrow> pcscf_env \<Rightarrow> ForwardOptions \<Rightarrow> osip_message \<Rightarrow> Endpoint \<Rightarrow> pcscf \<Rightarrow> pcscf_outcome" where
  "pcscf_forward L pp env opts request dest st =
     (case forwardStateful L (pcscf_proxy pp) (pe_tag env) (pe_branch env) (pe_original env) (pe_send env)
             opts request dest of
        Inl ex \<Rightarrow> (st, [], Some ex)
      | Inr (acts, r) \<Rightarrow> (st, map Sip acts, None))"

definition pcscf_forward_stateless ::
  "osip_lib \<Rightarrow> pcscf_params \<Rightarrow> pcscf_env \<Rightarrow> osip_message \<Rightarrow> Endpoint \<Rightarrow> pcscf \<Rightarrow> pcscf_outcome" where
  "pcscf_forward_stateless L pp env request dest st =
     (case forwardRequest L (pcscf_proxy pp) (pe_branch env) request dest (pe_transport env) of
        Inl ex \<Rightarrow> (st, [], Some ex)
      | Inr (_, acts, r) \<Rightarrow> (st, map Sip acts, None))"

text \<open>The callback of the responses is \<open>pcscf_response\<close>; the options carry what it does to the message.\<close>

definition forwardStatefulToCore ::
  "osip_lib \<Rightarrow> pcscf_params \<Rightarrow> pcscf_env \<Rightarrow> bool \<Rightarrow> osip_message \<Rightarrow> pcscf \<Rightarrow> pcscf_outcome" where
  "forwardStatefulToCore L pp env add_record_route request st =
     (let (t, dest) = resolveCoreDestination L pp (pe_resolve_now env) request (ps_topology st) in
      pcscf_forward L pp env (core_options add_record_route None) request dest (st\<lparr>ps_topology := t\<rparr>))"

text \<open>A response to a request that was forwarded statefully.  For an INVITE towards the core the
  callback works on the copy that goes upstream.\<close>

definition pcscf_response ::
  "osip_lib \<Rightarrow> pcscf_params \<Rightarrow> pcscf_env \<Rightarrow> bool \<Rightarrow> osip_message \<Rightarrow> pcscf \<Rightarrow> pcscf \<times> pcscf_action list" where
  "pcscf_response L pp env process_invite_response_media response st =
     (let on_response = (if process_invite_response_media
                         then Some (\<lambda>copy. snd (onInviteResponse L pp env copy st)) else None);
          (st1, acts) = (case clone L response of
                           Inl e \<Rightarrow> (st, [])
                         | Inr copy \<Rightarrow> if process_invite_response_media
                                       then fst (onInviteResponse L pp env copy st) else (st, []))
      in (st1, acts @ map Sip (forwardStateful_on_response L (core_options False on_response)
                                 (pe_sent env) response)))"

definition remember_core_destination ::
  "osip_lib \<Rightarrow> pcscf_params \<Rightarrow> pcscf_env \<Rightarrow> osip_message \<Rightarrow> pcscf \<Rightarrow> pcscf" where
  "remember_core_destination L pp env request st =
     (let (t, dest) = resolveCoreDestination L pp (pe_resolve_now env) request (ps_topology st) in
      st\<lparr>ps_topology := rememberTopologyRoute (pe_remember_now env) (pe_expires_now env)
                          (createTopologyToken (pe_digits env)) dest t\<rparr>)"

definition forwardStatefulToUe ::
  "osip_lib \<Rightarrow> pcscf_params \<Rightarrow> pcscf_env \<Rightarrow> bool \<Rightarrow> osip_message \<Rightarrow> pcscf \<Rightarrow> pcscf_outcome" where
  "forwardStatefulToUe L pp env add_record_route request st =
     (case resolveUeDestination L request of
        None \<Rightarrow> (st, map Sip (upstream_error L (pe_tag env) request 500 ''Internal Server Error''), None)
      | Some ue \<Rightarrow>
          (let st1 = remember_core_destination L pp env request st;
               r1 = remaining (removeHeader L ''Route'' request);
               r2 = (if add_record_route
                     then addTopologyRecordRoute L pp (createTopologyToken (pe_digits env)) r1 else r1)
           in pcscf_forward L pp env ue_options r2 ue st1))"

definition forwardStatelessToCore ::
  "osip_lib \<Rightarrow> pcscf_params \<Rightarrow> pcscf_env \<Rightarrow> bool \<Rightarrow> osip_message \<Rightarrow> pcscf \<Rightarrow> pcscf_outcome" where
  "forwardStatelessToCore L pp env add_record_route request st =
     (if isLoopDetected (pcscf_proxy pp) request then (st, [], None)
      else
        (let r1 = fst (processRouteHeaders L (pcscf_proxy pp) request);
             r2 = (if add_record_route then proxy_addRecordRoute L (pcscf_proxy pp) r1 else r1);
             (t, dest) = resolveCoreDestination L pp (pe_resolve_now env) r2 (ps_topology st)
         in pcscf_forward_stateless L pp env r2 dest (st\<lparr>ps_topology := t\<rparr>)))"

definition forwardStatelessToUe ::
  "osip_lib \<Rightarrow> pcscf_params \<Rightarrow> pcscf_env \<Rightarrow> bool \<Rightarrow> osip_message \<Rightarrow> pcscf \<Rightarrow> pcscf_outcome" where
  "forwardStatelessToUe L pp env add_record_route request st =
     (case resolveUeDestination L request of
        None \<Rightarrow> (st, [], None)
      | Some ue \<Rightarrow>
          (let st1 = remember_core_destination L pp env request st;
               r1 = sanitizeForUeEgress request;
               r2 = (if add_record_route
                     then addTopologyRecordRoute L pp (createTopologyToken (pe_digits env)) r1 else r1)
           in pcscf_forward_stateless L pp env r2 ue st1))"

subsection \<open>The handlers\<close>

definition onRegister :: "osip_lib \<Rightarrow> pcscf_params \<Rightarrow> pcscf_env \<Rightarrow> osip_message \<Rightarrow> pcscf \<Rightarrow> pcscf_outcome" where
  "onRegister L pp env request st =
     forwardStatefulToCore L pp env False (addPathHeader L (pcscf_proxy pp) request) st"

text \<open>The body an INVITE of the terminal leaves with, and the session it is offered under.\<close>

definition anchor_offer ::
  "osip_lib \<Rightarrow> pcscf_params \<Rightarrow> pcscf_env \<Rightarrow> osip_message \<Rightarrow> pcscf \<Rightarrow> pcscf \<times> osip_message \<times> pcscf_action list" where
  "anchor_offer L pp env request st =
     (let media_key = mediaKeyForRequest L request;
          (m1, media_session) = createSession (pe_created_now env) media_key (ps_media st)
      in case message_body request of
           None \<Rightarrow> (st\<lparr>ps_media := m1\<rparr>, request, [])
         | Some sdp \<Rightarrow>
             if \<not> pp_relay pp then (st\<lparr>ps_media := m1\<rparr>, request, [])
             else
               (let offer = Relay_offer media_session sdp internal_flags in
                case pe_relay_result env of
                  Inl e \<Rightarrow> (st\<lparr>ps_media := m1\<rparr>, request, [offer])
                | Inr r \<Rightarrow>
                    (st\<lparr>ps_media := updateCallerSdp media_key sdp m1\<rparr>,
                     if rr_sdp r \<noteq> [] then setBody L (rr_sdp r) ''application/sdp'' request else request,
                     [offer])))"

definition after_actions :: "pcscf_action list \<Rightarrow> pcscf_outcome \<Rightarrow> pcscf_outcome" where
  "after_actions acts r = (case r of (st, acts', ex) \<Rightarrow> (st, acts @ acts', ex))"

definition onInvite :: "osip_lib \<Rightarrow> pcscf_params \<Rightarrow> pcscf_env \<Rightarrow> osip_message \<Rightarrow> pcscf \<Rightarrow> pcscf_outcome" where
  "onInvite L pp env request st =
     (if isCoreFacingRequest pp (pe_source env) then forwardStatefulToUe L pp env True request st
      else (let (st1, r1, acts) = anchor_offer L pp env request st in
            after_actions acts (forwardStatefulToCore L pp env True r1 st1)))"

definition route_request ::
  "osip_lib \<Rightarrow> pcscf_params \<Rightarrow> pcscf_env \<Rightarrow> bool \<Rightarrow> osip_message \<Rightarrow> pcscf \<Rightarrow> pcscf_outcome" where
  "route_request L pp env core_record_route request st =
     (if isCoreFacingRequest pp (pe_source env) then forwardStatefulToUe L pp env True request st
      else forwardStatefulToCore L pp env core_record_route request st)"

definition onBye :: "osip_lib \<Rightarrow> pcscf_params \<Rightarrow> pcscf_env \<Rightarrow> osip_message \<Rightarrow> pcscf \<Rightarrow> pcscf_outcome" where
  "onBye L pp env request st =
     (let (st1, acts) = terminateMediaForRequest L pp request st in
      after_actions acts (route_request L pp env False request st1))"

definition onAck :: "osip_lib \<Rightarrow> pcscf_params \<Rightarrow> pcscf_env \<Rightarrow> osip_message \<Rightarrow> pcscf \<Rightarrow> pcscf_outcome" where
  "onAck L pp env request st =
     (if isCoreFacingRequest pp (pe_source env) then forwardStatelessToUe L pp env True request st
      else forwardStatelessToCore L pp env False request st)"

definition onCancel :: "osip_lib \<Rightarrow> pcscf_params \<Rightarrow> pcscf_env \<Rightarrow> osip_message \<Rightarrow> pcscf \<Rightarrow> pcscf_outcome" where
  "onCancel L pp env request st =
     (let (st1, acts) = terminateMediaForRequest L pp request st in
      after_actions acts (route_request L pp env False request st1))"

definition onPrack :: "osip_lib \<Rightarrow> pcscf_params \<Rightarrow> pcscf_env \<Rightarrow> osip_message \<Rightarrow> pcscf \<Rightarrow> pcscf_outcome" where
  "onPrack L pp env request st = route_request L pp env False request st"

definition onSubscribe :: "osip_lib \<Rightarrow> pcscf_params \<Rightarrow> pcscf_env \<Rightarrow> osip_message \<Rightarrow> pcscf \<Rightarrow> pcscf_outcome" where
  "onSubscribe L pp env request st = route_request L pp env True request st"

text \<open>One thing that happens to the service: a request under one of the methods it registers, or the
  response to a request it forwarded.\<close>

datatype pcscf_event =
    Register | Invite | Bye | Ack | Cancel | Prack | Subscribe | Response bool

definition pcscf_step ::
  "osip_lib \<Rightarrow> pcscf_params \<Rightarrow> pcscf_env \<Rightarrow> pcscf_event \<Rightarrow> osip_message \<Rightarrow> pcscf \<Rightarrow> pcscf_outcome" where
  "pcscf_step L pp env ev msg st =
     (case ev of
        Register \<Rightarrow> onRegister L pp env msg st
      | Invite \<Rightarrow> onInvite L pp env msg st
      | Bye \<Rightarrow> onBye L pp env msg st
      | Ack \<Rightarrow> onAck L pp env msg st
      | Cancel \<Rightarrow> onCancel L pp env msg st
      | Prack \<Rightarrow> onPrack L pp env msg st
      | Subscribe \<Rightarrow> onSubscribe L pp env msg st
      | Response media \<Rightarrow> (case pcscf_response L pp env media msg st of (st', acts) \<Rightarrow> (st', acts, None)))"

fun pcscf_run ::
  "osip_lib \<Rightarrow> pcscf_params \<Rightarrow> (pcscf_env \<times> pcscf_event \<times> osip_message) list \<Rightarrow> pcscf \<Rightarrow>
     pcscf \<times> pcscf_action list" where
  "pcscf_run L pp [] st = (st, [])"
| "pcscf_run L pp ((env, ev, msg) # evs) st =
     (case pcscf_step L pp env ev msg st of
        (st1, acts, _) \<Rightarrow> (let (st2, acts') = pcscf_run L pp evs st1 in (st2, acts @ acts')))"

subsection \<open>Lemmas\<close>

lemma pcscf_forward_state [simp]:
  "fst (pcscf_forward L pp env opts request dest st) = st"
  "fst (pcscf_forward_stateless L pp env request dest st) = st"
  by (auto simp: pcscf_forward_def pcscf_forward_stateless_def split: sum.splits prod.splits)

lemma after_actions_fst [simp]: "fst (after_actions acts r) = fst r"
  by (simp add: after_actions_def split: prod.split)

lemma media_unchanged [simp]:
  "ps_media (fst (forwardStatefulToCore L pp env rr request st)) = ps_media st"
  "ps_media (fst (forwardStatefulToUe L pp env rr request st)) = ps_media st"
  "ps_media (fst (forwardStatelessToCore L pp env rr request st)) = ps_media st"
  "ps_media (fst (forwardStatelessToUe L pp env rr request st)) = ps_media st"
  "ps_media (fst (route_request L pp env rr request st)) = ps_media st"
  by (auto simp: forwardStatefulToCore_def forwardStatefulToUe_def forwardStatelessToCore_def
      forwardStatelessToUe_def remember_core_destination_def route_request_def Let_def
      split: prod.split option.split)

lemma topology_unchanged [simp]:
  "ps_topology (fst (terminateMediaForRequest L pp request st)) = ps_topology st"
  "ps_topology (fst (anchor_offer L pp env request st)) = ps_topology st"
  "ps_topology (fst (fst (onInviteResponse L pp env response st))) = ps_topology st"
  by (auto simp: terminateMediaForRequest_def anchor_offer_def onInviteResponse_def with_media_def Let_def
      split: prod.split option.split sum.split)

subsection \<open>Invariants\<close>

text \<open>No session has an Rx session.\<close>

definition rx_free :: "sessions \<Rightarrow> bool" where
  "rx_free m \<longleftrightarrow> (\<forall>e \<in> set m. rx_session_id (snd e) = [])"

lemma rx_free_put [simp]: "rx_free m \<Longrightarrow> rx_session_id st = [] \<Longrightarrow> rx_free (um_put k st m)"
  using set_um_put [of k st m] by (auto simp: rx_free_def)

lemma rx_free_emplace [simp]: "rx_free m \<Longrightarrow> rx_session_id st = [] \<Longrightarrow> rx_free (um_emplace k st m)"
  by (simp add: um_emplace_def split: option.split)

lemma rx_free_erase [simp]: "rx_free m \<Longrightarrow> rx_free (um_erase k m)"
  by (simp add: rx_free_def um_erase_def um_erase_if_def)

lemma rx_free_find: "rx_free m \<Longrightarrow> um_find m k = Some st \<Longrightarrow> rx_session_id st = []"
  using um_find_in by (fastforce simp: rx_free_def)

lemma rx_free_modify: "rx_free m \<Longrightarrow> (\<And>st. rx_session_id (f st) = rx_session_id st) \<Longrightarrow> rx_free (modify f k m)"
  using rx_free_find by (fastforce simp: modify_def split: option.split)

lemma rx_free_complete [simp]: "rx_free m \<Longrightarrow> rx_free (completeTermination k m)"
  by (simp add: completeTermination_def split: option.split)

lemma rx_free_ensure: "rx_free m \<Longrightarrow> rx_free (fst (ensureInviteResponseSessionLocked k m))"
  using rx_free_find [of m "k\<lparr>mk_to_tag := []\<rparr>"]
  by (auto simp: ensureInviteResponseSessionLocked_def split: option.split)

lemma rx_free_begin: "rx_free m \<Longrightarrow> rx_free (fst (beginInviteResponse k m))"
  using rx_free_ensure [of m k] by (auto simp: beginInviteResponse_def Let_def split: prod.split option.split)

lemma rx_free_commit: "rx_free m \<Longrightarrow> rx_free (commitInviteResponse k s b m)"
  using rx_free_find by (fastforce simp: commitInviteResponse_def split: option.split)

lemma rx_free_terminate:
  "rx_free m \<Longrightarrow> rx_free (fst (terminate_loop w k m)) \<and>
     (\<forall>p \<in> set (snd (terminate_loop w k m)). tp_rx_session_id p = [])"
  by (auto simp: rx_free_def terminate_loop_fst terminate_loop_snd um_map_vals_def makeTerminationPlan_def)

lemma rx_free_success_marked: "rx_free m \<Longrightarrow> rx_free (fst (success_marked k m))"
proof (cases rule: success_marked_cases [of k m])
  case none
  then show "rx_free m \<Longrightarrow> ?thesis" by simp
next
  case (some m1 st)
  assume "rx_free m"
  then have "rx_free m1" using rx_free_ensure [of m k] some(1) by simp
  with some rx_free_find [of m1 k st] show ?thesis by simp
qed

lemma rx_free_marked: "rx_free m \<Longrightarrow> markTerminating k m = (m', p) \<Longrightarrow>
    rx_free m' \<and> (\<forall>plan. p = Some plan \<longrightarrow> tp_rx_session_id plan = [])"
  using rx_free_find
  by (fastforce simp: markTerminating_def makeTerminationPlan_def split: option.splits if_splits)

text \<open>No session is left in the middle of its teardown.\<close>

definition settled :: "sessions \<Rightarrow> bool" where
  "settled m \<longleftrightarrow> media_wf m \<and> (\<forall>k st. um_find m k = Some st \<longrightarrow> lifecycle st \<noteq> kTerminating)"

lemma settled_wf: "settled m \<Longrightarrow> media_wf m"
  by (simp add: settled_def)

lemma settled_find: "settled m \<Longrightarrow> um_find m k = Some st \<Longrightarrow> lifecycle st \<noteq> kTerminating"
  by (simp add: settled_def)

lemma settled_put:
  "settled m \<Longrightarrow> session st = session_of_key k \<Longrightarrow> lifecycle st \<noteq> kTerminating \<Longrightarrow> settled (um_put k st m)"
  by (simp add: settled_def media_wf_put um_find_put)

lemma settled_create: "settled m \<Longrightarrow> settled (fst (createSession now k m))"
  by (simp add: createSession_def settled_put)

lemma settled_modify:
  assumes "settled m" and "\<And>st. session (f st) = session st" and "\<And>st. lifecycle (f st) = lifecycle st"
  shows "settled (modify f k m)"
  using assms settled_find [OF assms(1)] media_wf_find [OF settled_wf [OF assms(1)]]
  by (auto simp: modify_def intro!: settled_put split: option.split)

lemma settled_ensure:
  assumes "settled m" shows "settled (fst (ensureInviteResponseSessionLocked k m))"
  using assms media_wf_ensure [OF settled_wf [OF assms], of k]
  by (auto simp: settled_def ensureInviteResponseSessionLocked_def um_find_emplace split: option.splits if_splits)

lemma settled_begin: "settled m \<Longrightarrow> settled (fst (beginInviteResponse k m))"
  using settled_ensure [of m k] by (auto simp: beginInviteResponse_def Let_def split: prod.split option.split)

lemma settled_commit:
  assumes "settled m" shows "settled (commitInviteResponse k s b m)"
  using assms settled_find [OF assms] media_wf_find [OF settled_wf [OF assms]]
  by (auto simp: commitInviteResponse_def intro!: settled_put split: option.split)

lemma settled_success_marked:
  assumes "settled m" shows "settled (fst (success_marked k m))"
proof (cases rule: success_marked_cases [of k m])
  case none
  with assms show ?thesis by simp
next
  case (some m1 st)
  have "settled m1" using settled_ensure [OF assms, of k] some(1) by simp
  with some media_wf_find [OF settled_wf, of m1 k st] show ?thesis by (simp add: settled_put)
qed

lemma completeTermination_find:
  "um_find (completeTermination k m) k' =
     (if k' = k \<and> is_terminating m k then None else um_find m k')"
  by (auto simp: completeTermination_def is_terminating_def um_find_erase split: option.split)

lemma completeMediaTerminations_find:
  "um_find (fst (completeMediaTerminations pp plans m)) k =
     (if k \<in> tp_key ` set plans \<and> is_terminating m k then None else um_find m k)"
proof (induction pp plans m rule: completeMediaTerminations.induct)
  case (2 pp plan plans m)
  then show ?case
    by (auto simp: completeTermination_find is_terminating_def split: prod.split)
qed simp

lemma completeMediaTerminations_wf:
  "media_wf m \<Longrightarrow> media_wf (fst (completeMediaTerminations pp plans m))"
  by (induction pp plans m rule: completeMediaTerminations.induct)
    (auto simp: media_wf_complete split: prod.split)

lemma rx_free_completeAll:
  "rx_free m \<Longrightarrow> \<forall>p \<in> set plans. tp_rx_session_id p = [] \<Longrightarrow>
   rx_free (fst (completeMediaTerminations pp plans m)) \<and>
   Terminate_rx str \<notin> set (snd (completeMediaTerminations pp plans m))"
  by (induction pp plans m rule: completeMediaTerminations.induct)
    (auto simp: release_media_def split: prod.split)

lemma settled_complete:
  assumes "media_wf m" and "\<And>k. is_terminating m k \<Longrightarrow> k \<in> tp_key ` set plans"
  shows "settled (fst (completeMediaTerminations pp plans m))"
proof -
  have "lifecycle st \<noteq> kTerminating" if "um_find (fst (completeMediaTerminations pp plans m)) k = Some st" for k st
    using that assms(2) [of k] is_terminatingI [of m k st]
    by (auto simp: completeMediaTerminations_find split: if_splits)
  with assms(1) show ?thesis by (simp add: settled_def completeMediaTerminations_wf)
qed

lemma settled_terminate_loop:
  assumes "settled m" shows "settled (fst (end_plans pp (terminate_loop w k m)))"
  unfolding end_plans_def
proof (rule settled_complete)
  show "media_wf (fst (terminate_loop w k m))" by (rule media_wf_terminate [OF settled_wf [OF assms]])
  fix k' assume "is_terminating (fst (terminate_loop w k m)) k'"
  then obtain st where "um_find m k' = Some st" "must_terminate w k (k', st)"
    using settled_find [OF assms, of k'] by (auto simp: is_terminating_def terminate_loop_find split: option.splits if_splits)
  then show "k' \<in> tp_key ` set (snd (terminate_loop w k m))"
    using terminate_loop_keys [of m k' w k] settled_wf [OF assms] by blast
qed

lemma settled_ends:
  assumes "settled m"
  shows "settled (fst (end_plans pp (markInviteFinalFailure k m)))"
    "settled (fst (end_plans pp (markInviteFinalSuccess k m)))"
  using settled_terminate_loop [OF assms] settled_terminate_loop [OF settled_success_marked [OF assms]]
  by (simp_all add: markInviteFinalFailure_def markInviteFinalSuccess_eq)

lemma rx_free_terminate_loop:
  assumes "rx_free m"
  shows "rx_free (fst (end_plans pp (terminate_loop w k m))) \<and>
    Terminate_rx str \<notin> set (snd (end_plans pp (terminate_loop w k m)))"
  unfolding end_plans_def using rx_free_terminate [OF assms, of w k] by (intro rx_free_completeAll) blast+

lemma rx_free_ends:
  assumes "rx_free m"
  shows "rx_free (fst (end_plans pp (markInviteFinalFailure k m)))"
    "Terminate_rx str \<notin> set (snd (end_plans pp (markInviteFinalFailure k m)))"
    "rx_free (fst (end_plans pp (markInviteFinalSuccess k m)))"
    "Terminate_rx str \<notin> set (snd (end_plans pp (markInviteFinalSuccess k m)))"
  using rx_free_terminate_loop [OF assms] rx_free_terminate_loop [OF rx_free_success_marked [OF assms]]
  by (simp_all add: markInviteFinalFailure_def markInviteFinalSuccess_eq)

definition media_ok :: "sessions \<Rightarrow> bool" where
  "media_ok m \<longleftrightarrow> rx_free m \<and> settled m"

lemma media_ok_ends:
  assumes "media_ok m"
  shows "media_ok (fst (end_plans pp (markInviteFinalFailure k m)))"
    "media_ok (fst (end_plans pp (markInviteFinalSuccess k m)))"
  using assms rx_free_ends settled_ends by (simp_all add: media_ok_def)

lemma media_ok_response:
  assumes "media_ok (ps_media st)"
  shows "media_ok (ps_media (fst (fst (onInviteResponse L pp env response st)))) \<and>
    Terminate_rx str \<notin> set (snd (fst (onInviteResponse L pp env response st)))"
proof -
  let ?k = "mediaKeyForResponse L (sanitizeForUeEgress response)"
  have rx: "rx_free (ps_media st)" and se: "settled (ps_media st)" using assms by (simp_all add: media_ok_def)
  obtain m1 u where b: "beginInviteResponse ?k (ps_media st) = (m1, u)" by fastforce
  then have m1: "rx_free m1" "settled m1"
    using rx_free_begin [OF rx, of ?k] settled_begin [OF se, of ?k] by simp_all
  have m2: "rx_free (commitInviteResponse k s e m1)" "settled (commitInviteResponse k s e m1)" for k s e
    using m1 by (simp_all add: rx_free_commit settled_commit)
  show ?thesis
    using assms rx se m1 m2 rx_free_ends [OF rx] settled_ends [OF se] rx_free_ends [OF m2(1)] settled_ends [OF m2(2)]
    by (auto simp: onInviteResponse_def b with_media_def media_ok_def Let_def case_prod_beta split: option.split sum.split)
qed

lemma media_ok_terminate:
  assumes "media_ok (ps_media st)"
  shows "media_ok (ps_media (fst (terminateMediaForRequest L pp request st))) \<and>
    Terminate_rx str \<notin> set (snd (terminateMediaForRequest L pp request st))"
proof (cases "find_for_termination (mediaKeyForRequest L request) (ps_media st)")
  case None
  with assms show ?thesis by (simp add: terminateMediaForRequest_def markTerminating_def)
next
  case (Some k)
  have rx: "rx_free (ps_media st)" and se: "settled (ps_media st)" using assms by (simp_all add: media_ok_def)
  show ?thesis
  proof (cases "um_find (ps_media st) k")
    case None
    with Some assms show ?thesis by (simp add: terminateMediaForRequest_def markTerminating_def)
  next
    case s: (Some s)
    let ?m = "um_put k (s\<lparr>lifecycle := kTerminating\<rparr>) (ps_media st)"
    have lc: "lifecycle s \<noteq> kTerminating" by (rule settled_find [OF se s])
    have "media_wf ?m" using settled_wf [OF se] s by (simp add: media_wf_put media_wf_find)
    then have "settled (completeTermination k ?m)"
      using se by (auto simp: settled_def completeTermination_find um_find_put is_terminating_def
          media_wf_complete split: if_splits)
    moreover have "rx_free (completeTermination k ?m)" using rx rx_free_find [OF rx s] by simp
    ultimately show ?thesis
      using Some s lc rx_free_find [OF rx s]
      by (simp add: terminateMediaForRequest_def markTerminating_def media_ok_def release_media_def
          makeTerminationPlan_def)
  qed
qed

lemma media_ok_offer:
  assumes "media_ok (ps_media st)"
  shows "media_ok (ps_media (fst (anchor_offer L pp env request st))) \<and>
    Terminate_rx str \<notin> set (snd (snd (anchor_offer L pp env request st)))"
proof -
  let ?m = "fst (createSession (pe_created_now env) (mediaKeyForRequest L request) (ps_media st))"
  have m: "rx_free ?m" "settled ?m"
    using assms settled_create by (auto simp: media_ok_def createSession_def)
  then have "media_ok (updateCallerSdp k sdp ?m)" for k sdp
    by (simp add: media_ok_def updateCallerSdp_def settled_modify rx_free_modify)
  with m show ?thesis
    by (auto simp: anchor_offer_def media_ok_def Let_def split: prod.split option.split sum.split)
qed

lemma no_rx_forwarded:
  "Terminate_rx str \<notin> set (fst (snd (pcscf_forward L pp env opts request dest st)))"
  "Terminate_rx str \<notin> set (fst (snd (pcscf_forward_stateless L pp env request dest st)))"
  by (auto simp: pcscf_forward_def pcscf_forward_stateless_def split: sum.split prod.split)

lemma no_rx_routed:
  "Terminate_rx str \<notin> set (fst (snd (forwardStatefulToCore L pp env rr request st)))"
  "Terminate_rx str \<notin> set (fst (snd (forwardStatefulToUe L pp env rr request st)))"
  "Terminate_rx str \<notin> set (fst (snd (forwardStatelessToCore L pp env rr request st)))"
  "Terminate_rx str \<notin> set (fst (snd (forwardStatelessToUe L pp env rr request st)))"
  "Terminate_rx str \<notin> set (fst (snd (route_request L pp env rr request st)))"
  using no_rx_forwarded
  by (auto simp: forwardStatefulToCore_def forwardStatefulToUe_def forwardStatelessToCore_def
      forwardStatelessToUe_def route_request_def Let_def split: prod.split option.split)

text \<open>Every topology entry leads to the configured core entry.\<close>

definition topology_ok :: "pcscf_params \<Rightarrow> topology \<Rightarrow> bool" where
  "topology_ok pp t \<longleftrightarrow> (\<forall>e \<in> set t. te_endpoint (snd e) = core_entry pp)"

lemma topology_ok_purge [simp]: "topology_ok pp t \<Longrightarrow> topology_ok pp (purgeExpiredTopologyRoutesLocked now t)"
  by (simp add: topology_ok_def purgeExpiredTopologyRoutesLocked_def um_erase_if_def)

lemma topology_ok_remember:
  assumes "topology_ok pp t" shows "topology_ok pp (rememberTopologyRoute now now' token (core_entry pp) t)"
  using topology_ok_purge [OF assms, of now] set_um_put [of token _ "purgeExpiredTopologyRoutesLocked now t"]
  by (fastforce simp: rememberTopologyRoute_def topology_ok_def)

lemma resolve_gives_core_entry:
  assumes "topology_ok pp t"
  shows "snd (resolveCoreDestination L pp now request t) = core_entry pp"
    "topology_ok pp (fst (resolveCoreDestination L pp now request t))"
proof -
  have "te_endpoint e = core_entry pp" if "um_find (purgeExpiredTopologyRoutesLocked now t) k = Some e" for k e
    using topology_ok_purge [OF assms, of now] um_find_in [OF that] by (fastforce simp: topology_ok_def)
  then show "snd (resolveCoreDestination L pp now request t) = core_entry pp"
    by (auto simp: resolveCoreDestination_def Let_def split: option.split)
  show "topology_ok pp (fst (resolveCoreDestination L pp now request t))"
    using assms by (simp add: resolveCoreDestination_def Let_def split: option.split)
qed

lemma topology_ok_forward:
  assumes "topology_ok pp (ps_topology st)"
  shows "topology_ok pp (ps_topology (fst (forwardStatefulToCore L pp env rr request st)))"
    "topology_ok pp (ps_topology (fst (forwardStatefulToUe L pp env rr request st)))"
    "topology_ok pp (ps_topology (fst (forwardStatelessToCore L pp env rr request st)))"
    "topology_ok pp (ps_topology (fst (forwardStatelessToUe L pp env rr request st)))"
    "topology_ok pp (ps_topology (fst (route_request L pp env rr request st)))"
  using assms resolve_gives_core_entry [OF assms] topology_ok_remember
  by (auto simp: forwardStatefulToCore_def forwardStatefulToUe_def forwardStatelessToCore_def
      forwardStatelessToUe_def route_request_def remember_core_destination_def case_prod_beta Let_def
      split: option.split)

definition pcscf_state_ok :: "pcscf_params \<Rightarrow> pcscf \<Rightarrow> bool" where
  "pcscf_state_ok pp st \<longleftrightarrow> media_ok (ps_media st) \<and> topology_ok pp (ps_topology st)"

lemma after_actions_snd: "set (fst (snd (after_actions acts r))) = set acts \<union> set (fst (snd r))"
  by (auto simp: after_actions_def split: prod.split)

lemma pcscf_step_ok:
  assumes "pcscf_state_ok pp st"
  shows "pcscf_state_ok pp (fst (pcscf_step L pp env ev msg st)) \<and>
    Terminate_rx str \<notin> set (fst (snd (pcscf_step L pp env ev msg st)))"
proof -
  have m: "media_ok (ps_media st)" and t: "topology_ok pp (ps_topology st)"
    using assms by (simp_all add: pcscf_state_ok_def)
  note ok = media_ok_terminate [OF m] media_ok_offer [OF m] media_ok_response [OF m]
  note st' = topology_ok_forward [where st = "fst (terminateMediaForRequest L pp msg st)"]
    topology_ok_forward [where st = "fst (anchor_offer L pp env msg st)"] topology_ok_forward [OF t]
  show ?thesis
  proof (cases ev)
    case (Response media)
    show ?thesis
      using ok m t
      by (auto simp: Response pcscf_step_def pcscf_state_ok_def pcscf_response_def case_prod_beta Let_def
          split: sum.split)
  qed (use ok m t st' no_rx_routed in \<open>auto simp: pcscf_step_def pcscf_state_ok_def onRegister_def onInvite_def
      onBye_def onAck_def onCancel_def onPrack_def onSubscribe_def after_actions_snd case_prod_beta Let_def\<close>)
qed

lemma pcscf_run_ok:
  "pcscf_state_ok pp st \<Longrightarrow> pcscf_state_ok pp (fst (pcscf_run L pp evs st)) \<and>
     Terminate_rx str \<notin> set (snd (pcscf_run L pp evs st))"
proof (induction L pp evs st rule: pcscf_run.induct)
  case (2 L pp env ev msg evs st)
  obtain st1 acts ex where s: "pcscf_step L pp env ev msg st = (st1, acts, ex)" by (metis prod_cases3)
  from pcscf_step_ok [OF 2(2), of L env ev msg str] s
  have "pcscf_state_ok pp st1" "Terminate_rx str \<notin> set acts" by simp_all
  with 2(1) [OF s [symmetric] refl] show ?case by (auto simp: s split: prod.split)
qed simp

lemma PcscfService_ok: "pcscf_state_ok pp PcscfService"
  by (simp add: pcscf_state_ok_def PcscfService_def media_ok_def rx_free_def settled_def media_wf_def topology_ok_def)

subsection \<open>Properties\<close>

text \<open>C36: The topology table never remembers anything but the core entry: in every run, whatever the
  P-CSCF received and from which of its core peers, every request of a terminal is sent to the
  configured core entry, with or without a topology token.\<close>

theorem topology_remembers_only_the_core_entry:
  "snd (resolveCoreDestination L pp now request (ps_topology (fst (pcscf_run L pp evs PcscfService)))) =
     core_entry pp"
  using pcscf_run_ok [OF PcscfService_ok] resolve_gives_core_entry(1) by (simp add: pcscf_state_ok_def)

text \<open>Bearers are never released, because none is ever requested: in no run does the P-CSCF send an
  STR, since no session ever gets an Rx session.\<close>

theorem rx_session_is_never_terminated:
  "Terminate_rx str \<notin> set (snd (pcscf_run L pp evs PcscfService))"
  using pcscf_run_ok [OF PcscfService_ok] by blast

text \<open>C21: A BYE releases the media of its dialog: in every run, a BYE for a dialog with a media session
  deletes exactly that relay session, once, and the session is gone from the table.\<close>

theorem bye_releases_the_media:
  assumes "st = fst (pcscf_run L pp evs PcscfService)" and "pp_relay pp"
    and "find_for_termination (mediaKeyForRequest L request) (ps_media st) = Some k"
    and "onBye L pp env request st = (st', acts, ex)"
  shows "filter (\<lambda>a. \<exists>s. a = Relay_delete s) acts = [Relay_delete (session_of_key k)] \<and>
    um_find (ps_media st') k = None"
proof -
  have ok: "media_ok (ps_media st)" using pcscf_run_ok [OF PcscfService_ok] assms(1) by (simp add: pcscf_state_ok_def)
  then have se: "settled (ps_media st)" and rx: "rx_free (ps_media st)" by (simp_all add: media_ok_def)
  have "um_find (ps_media st) k \<noteq> None"
    using assms(3) by (auto simp: find_for_termination_def Let_def split: if_splits)
  then obtain s where s: "um_find (ps_media st) k = Some s" by blast
  have t: "terminateMediaForRequest L pp request st =
      (st\<lparr>ps_media := completeTermination k (um_put k (s\<lparr>lifecycle := kTerminating\<rparr>) (ps_media st))\<rparr>,
       [Relay_delete (session_of_key k)])"
    using assms(2,3) s settled_find [OF se s] rx_free_find [OF rx s] media_wf_find [OF settled_wf [OF se] s]
    by (simp add: terminateMediaForRequest_def markTerminating_def release_media_def makeTerminationPlan_def)
  have sip: "filter (\<lambda>a. \<exists>s. a = Relay_delete s) (fst (snd (route_request L pp env False request st1))) = []" for st1
    by (auto simp: route_request_def forwardStatefulToCore_def forwardStatefulToUe_def pcscf_forward_def
        filter_empty_conv Let_def split: prod.split sum.split option.split)
  have a: "acts = Relay_delete (session_of_key k) # fst (snd (route_request L pp env False request
      (fst (terminateMediaForRequest L pp request st))))"
    using assms(4) by (auto simp: onBye_def t after_actions_def case_prod_beta Let_def)
  have "ps_media st' = completeTermination k (um_put k (s\<lparr>lifecycle := kTerminating\<rparr>) (ps_media st))"
    using arg_cong [OF assms(4), of "\<lambda>r. ps_media (fst r)"] by (simp add: onBye_def t)
  with a sip show ?thesis by (simp add: completeTermination_find is_terminating_def um_find_put)
qed

text \<open>The library keeps the branch of the Via the proxy writes, over the two transports there are.\<close>

definition via_keeps_branch :: "osip_lib \<Rightarrow> proxy \<Rightarrow> string \<Rightarrow> bool" where
  "via_keeps_branch L px branch \<longleftrightarrow>
     (\<forall>tr \<in> {''udp'', ''tcp''}.
        \<exists>v. L_via_parse L (proxy_via tr (local_address px) (local_port px) branch) = Some v \<and> via_branch L v = branch)"

lemma prepared_branch:
  assumes "prepareRequestForForward L px branch transport r0 = Inr (m, Inr u)" and "via_keeps_branch L px branch"
    and "transport \<in> {''udp'', ''tcp''}"
  shows "viaBranch L m = branch"
proof -
  have "transport \<noteq> []" using assms(3) by auto
  with assms(1) obtain m2 where "m = addVia L (proxy_via transport (local_address px) (local_port px) branch) m2"
    by (auto simp: prepareRequestForForward_def Let_def split: sum.splits if_splits)
  moreover obtain v where "L_via_parse L (proxy_via transport (local_address px) (local_port px) branch) = Some v"
      "via_branch L v = branch"
    using assms(2,3) unfolding via_keeps_branch_def by blast
  ultimately show ?thesis by (simp add: addVia_def viaBranch_def)
qed

lemma pcscf_forward_branch:
  assumes "Sip (Downstream m d) \<in> set (fst (snd (pcscf_forward L pp env opts request dest st)))"
    and "via_keeps_branch L (pcscf_proxy pp) (pe_branch env)" and "ep_transport d \<in> {''udp'', ''tcp''}"
  shows "viaBranch L m = pe_branch env"
proof -
  obtain acts r where "forwardStateful L (pcscf_proxy pp) (pe_tag env) (pe_branch env) (pe_original env) (pe_send env)
      opts request dest = Inr (acts, r)" "Downstream m d \<in> set acts"
    using assms(1) by (auto simp: pcscf_forward_def split: sum.splits prod.splits)
  then show ?thesis
  proof (cases rule: forwardStateful_prepared)
    case (1 r0 u)
    with prepared_branch [OF 1(1) assms(2)] assms(3) show ?thesis by simp
  qed
qed

lemma forwarded_branch:
  assumes "via_keeps_branch L (pcscf_proxy pp) (pe_branch env)" and "ep_transport d \<in> {''udp'', ''tcp''}"
  shows "Sip (Downstream m d) \<in> set (fst (snd (forwardStatefulToCore L pp env rr request st))) \<Longrightarrow>
      viaBranch L m = pe_branch env"
    and "Sip (Downstream m d) \<in> set (fst (snd (forwardStatefulToUe L pp env rr request st))) \<Longrightarrow>
      viaBranch L m = pe_branch env"
  using pcscf_forward_branch [OF _ assms]
  by (auto simp: forwardStatefulToCore_def forwardStatefulToUe_def upstream_error_def Let_def
      split: prod.splits option.splits sum.splits)

lemma relay_actions_only:
  "Sip a \<notin> set (snd (terminateMediaForRequest L pp request st))"
  "Sip a \<notin> set (snd (snd (anchor_offer L pp env request st)))"
  by (auto simp: terminateMediaForRequest_def release_media_def anchor_offer_def Let_def
      split: prod.split option.split sum.split)

text \<open>C38: A CANCEL never matches the INVITE it cancels: whatever the states in between, the CANCEL the
  P-CSCF sends carries its own fresh branch in the topmost Via and not the branch of the INVITE it
  forwarded, so the next element (RFC 3261, 9.2) finds no INVITE to cancel.\<close>

theorem cancel_never_matches_the_invite:
  assumes "Sip (Downstream invite d1) \<in> set (fst (snd (onInvite L pp env1 req1 st1)))"
    and "Sip (Downstream cancel d2) \<in> set (fst (snd (onCancel L pp env2 req2 st2)))"
    and "via_keeps_branch L (pcscf_proxy pp) (pe_branch env1)" and "via_keeps_branch L (pcscf_proxy pp) (pe_branch env2)"
    and "ep_transport d1 \<in> {''udp'', ''tcp''}" and "ep_transport d2 \<in> {''udp'', ''tcp''}"
    and "pe_branch env1 \<noteq> pe_branch env2"
  shows "viaBranch L cancel \<noteq> viaBranch L invite"
proof -
  have "viaBranch L invite = pe_branch env1"
    using assms(1) forwarded_branch [OF assms(3,5)] relay_actions_only
    by (auto simp: onInvite_def after_actions_snd case_prod_beta split: if_splits)
  moreover have "viaBranch L cancel = pe_branch env2"
    using assms(2) forwarded_branch [OF assms(4,6)] relay_actions_only
    by (auto simp: onCancel_def route_request_def after_actions_snd case_prod_beta Let_def split: if_splits)
  ultimately show ?thesis using assms(7) by simp
qed

subsection \<open>Witnesses\<close>

definition demo_params :: pcscf_params where
  "demo_params = \<lparr>pp_config = cfg_pcscf default_config, pp_core_addr = ''10.0.0.9'', pp_core_port = 5062,
     pp_relay = True, pp_pcf = True\<rparr>"

definition demo_penv :: "string \<Rightarrow> pcscf_env" where
  "demo_penv branch = \<lparr>pe_source = \<lparr>ep_address = ''192.0.2.7'', ep_port = 5070, ep_transport = ''udp''\<rparr>,
     pe_original = demo_request, pe_created_now = 0, pe_resolve_now = 0, pe_remember_now = 0, pe_expires_now = 0,
     pe_digits = [1, 2], pe_tag = ''t'', pe_branch = branch, pe_send = (\<lambda>m. Inr ()), pe_sent = Inr (),
     pe_transport = (\<lambda>m d. Inr ()), pe_relay_result = Inl (relay_error ''down'')\<rparr>"

lemma demo_from_the_ue: "\<not> isCoreFacingRequest demo_params (pe_source (demo_penv b))"
  by (simp add: isCoreFacingRequest_def endpoint_matches_def demo_params_def demo_penv_def default_config_def
      default_core_def pcscf_proxy_def lowercase_def tolower_def char_code_def Let_def)

lemma find_word_append:
  assumes "CHR '';'' \<notin> set s"
  shows "find0 (CHR '';'' # w) (s @ CHR '';'' # w @ t) = Some (length s)"
  using assms by (induction s) auto

lemma demo_keeps_branch:
  assumes "CHR '';'' \<notin> set b" shows "via_keeps_branch demo_lib (pcscf_proxy demo_params) b"
proof -
  have k: "demo_via_branch (s @ '';branch='' @ b @ '';rport'') = b" if "CHR '';'' \<notin> set s" for s
    using find_word_append [OF that, of "''branch=''"] find_char_append [OF assms]
    by (simp add: demo_via_branch_def str_find_def find_char_def)
  have "CHR '';'' \<notin> set (''SIP/2.0/'' @ uppercase tr @ '' '' @ ''127.0.0.1'' @ '':'' @ show_port 5060)"
    if "tr \<in> {''udp'', ''tcp''}" for tr
  proof -
    have "uppercase ''udp'' = ''UDP''" "uppercase ''tcp'' = ''TCP''" by code_simp+
    with that show_nat_digits [of "CHR '';''"] show ?thesis by (auto simp: show_port_def char_code_def is_digit_def)
  qed
  from k [OF this] have v: "demo_via_branch (proxy_via tr (local_address (pcscf_proxy demo_params))
      (local_port (pcscf_proxy demo_params)) b) = b" if "tr \<in> {''udp'', ''tcp''}" for tr
    using that by (simp add: proxy_via_def pcscf_proxy_def demo_params_def default_config_def pcscf_advertised_address_def)
  show ?thesis
    unfolding via_keeps_branch_def
  proof
    fix tr :: string assume "tr \<in> {''udp'', ''tcp''}"
    from v [OF this] show "\<exists>v. L_via_parse demo_lib (proxy_via tr (local_address (pcscf_proxy demo_params))
        (local_port (pcscf_proxy demo_params)) b) = Some v \<and> via_branch demo_lib v = b"
      by (simp add: demo_lib_def via_branch_def param_gvalue_def)
  qed
qed

lemma demo_core_forward:
  assumes "m_headers r = m_headers demo_request" and "m_vias r = m_vias demo_request"
  shows "\<exists>m. Sip (Downstream m (core_entry demo_params)) \<in>
    set (fst (snd (forwardStatefulToCore demo_lib demo_params (demo_penv b) rr r PcscfService)))"
proof -
  let ?opts = "core_options rr None"
  let ?r1 = "fst (processRouteHeaders demo_lib (pcscf_proxy demo_params) r)"
  let ?r2 = "if rr then proxy_addRecordRoute demo_lib (pcscf_proxy demo_params) ?r1 else ?r1"
  have "m_headers ?r2 = m_headers demo_request"
    using assms(1) headers_unchanged(2) headers_unchanged(3) [OF demo_record_route_ok] by simp
  then have mf: "maxForwards demo_lib ?r2 = Inr 70"
    using maxForwards_cong [of ?r2 demo_request] demo_max_forwards(1) by simp
  then obtain m2 where "decrementMaxForwards demo_lib ?r2 = Inr m2" by (simp add: decrementMaxForwards_def)
  with mf obtain m where m: "prepareRequestForForward demo_lib (pcscf_proxy demo_params) b ''udp'' ?r2 = Inr (m, Inr ())"
    by (simp add: prepareRequestForForward_def Let_def)
  have "\<not> isLoopDetected (pcscf_proxy demo_params) r"
    using assms(2) by (simp add: isLoopDetected_def demo_request_def via_address_def pcscf_proxy_def demo_params_def
        default_config_def pcscf_advertised_address_def)
  moreover have "ep_transport (core_entry demo_params) = ''udp''"
    by (simp add: core_entry_def demo_params_def default_config_def default_core_def udp_if_empty_def)
  ultimately have "forwardStateful demo_lib (pcscf_proxy demo_params) ''t'' b demo_request (\<lambda>m. Inr ()) ?opts r
      (core_entry demo_params) = Inr ([Downstream m (core_entry demo_params)], Inr ())"
    using m by (simp add: forwardStateful_def core_options_def Let_def)
  moreover have "snd (resolveCoreDestination demo_lib demo_params now r []) = core_entry demo_params" for now
    by (simp add: resolve_gives_core_entry(1) topology_ok_def)
  ultimately show ?thesis
    by (simp add: forwardStatefulToCore_def pcscf_forward_def demo_penv_def PcscfService_def case_prod_beta)
qed

lemma demo_media_kept:
  "ps_media (fst (onInvite demo_lib demo_params (demo_penv b) demo_request PcscfService)) =
     fst (createSession 0 (mediaKeyForRequest demo_lib demo_request) [])"
proof -
  have "anchor_offer demo_lib demo_params (demo_penv b) demo_request PcscfService =
      (PcscfService\<lparr>ps_media := fst (createSession 0 (mediaKeyForRequest demo_lib demo_request) [])\<rparr>, demo_request, [])"
    by (simp add: anchor_offer_def demo_request_def empty_message_def message_body_def demo_penv_def
        PcscfService_def case_prod_beta Let_def)
  then show ?thesis using demo_from_the_ue [of b] by (simp add: onInvite_def)
qed

lemma bye_releases_the_media_witness:
  "filter (\<lambda>a. \<exists>s. a = Relay_delete s)
     (fst (snd (onBye demo_lib demo_params (demo_penv ''b2'') demo_request
        (fst (pcscf_run demo_lib demo_params [(demo_penv ''b1'', Invite, demo_request)] PcscfService))))) =
   [Relay_delete (session_of_key (mediaKeyForRequest demo_lib demo_request))]"
proof -
  let ?st = "fst (pcscf_run demo_lib demo_params [(demo_penv ''b1'', Invite, demo_request)] PcscfService)"
  let ?k = "mediaKeyForRequest demo_lib demo_request"
  obtain st' acts ex where b: "onBye demo_lib demo_params (demo_penv ''b2'') demo_request ?st = (st', acts, ex)"
    by (metis prod_cases3)
  have m: "ps_media ?st = fst (createSession 0 ?k [])"
    using demo_media_kept [of "''b1''"] by (simp add: pcscf_step_def case_prod_beta Let_def)
  have "find_for_termination ?k (ps_media ?st) = Some ?k"
    unfolding m by (simp add: find_for_termination_def createSession_def)
  then have "filter (\<lambda>a. \<exists>s. a = Relay_delete s) acts = [Relay_delete (session_of_key ?k)] \<and>
      um_find (ps_media st') ?k = None"
    using b by (intro bye_releases_the_media [OF refl _ _ b]) (simp_all add: demo_params_def)
  with b show ?thesis by simp
qed

lemma cancel_never_matches_the_invite_witness:
  "\<exists>invite cancel. viaBranch demo_lib cancel \<noteq> viaBranch demo_lib invite"
proof -
  let ?inv = "onInvite demo_lib demo_params (demo_penv ''b1'') demo_request PcscfService"
  let ?can = "onCancel demo_lib demo_params (demo_penv ''b2'') demo_request PcscfService"
  have udp: "ep_transport (core_entry demo_params) \<in> {''udp'', ''tcp''}"
    by (simp add: core_entry_def demo_params_def default_config_def default_core_def udp_if_empty_def)
  let ?ms = "PcscfService\<lparr>ps_media := fst (createSession 0 (mediaKeyForRequest demo_lib demo_request) [])\<rparr>"
  have a: "anchor_offer demo_lib demo_params (demo_penv ''b1'') demo_request PcscfService = (?ms, demo_request, [])"
    by (simp add: anchor_offer_def demo_request_def empty_message_def message_body_def demo_penv_def
        PcscfService_def case_prod_beta Let_def)
  have same: "fst (snd (forwardStatefulToCore demo_lib demo_params (demo_penv b) rr demo_request ?ms)) =
      fst (snd (forwardStatefulToCore demo_lib demo_params (demo_penv b) rr demo_request PcscfService))" for b rr
    by (simp add: forwardStatefulToCore_def pcscf_forward_def case_prod_beta Let_def split: sum.split)
  obtain m1 where m1: "Sip (Downstream m1 (core_entry demo_params)) \<in> set (fst (snd ?inv))"
    using demo_core_forward [OF refl refl, of "''b1''" True] demo_from_the_ue [of "''b1''"] same
    by (auto simp: onInvite_def a after_actions_snd)
  have t: "terminateMediaForRequest demo_lib demo_params demo_request PcscfService = (PcscfService, [])"
    by (simp add: terminateMediaForRequest_def markTerminating_def find_for_termination_def PcscfService_def Let_def)
  obtain m2 where m2: "Sip (Downstream m2 (core_entry demo_params)) \<in> set (fst (snd ?can))"
    using demo_core_forward [OF refl refl, of "''b2''" False] demo_from_the_ue [of "''b2''"]
    by (auto simp: onCancel_def t route_request_def after_actions_snd)
  have "viaBranch demo_lib m2 \<noteq> viaBranch demo_lib m1"
    by (rule cancel_never_matches_the_invite [OF m1 m2 _ _ udp udp])
      (simp_all add: demo_keeps_branch demo_penv_def)
  then show ?thesis by blast
qed

end
