(* ===== verification/Auth_Manager.thy ===== *)
theory Auth_Manager
  imports Hss_Clients
begin

section \<open>Digest and AKA challenges (s-cscf/auth_manager.cpp)\<close>

text \<open>
  Base64, the construction of challenges, and the verification of responses.  MD5 is Boost's: a
  parameter that yields the four words of the digest.
\<close>

subsection \<open>Base64\<close>

definition kBase64Chars :: string where
  "kBase64Chars = ''ABCDEFGHIJKLMNOPQRSTUVWXYZabcdefghijklmnopqrstuvwxyz0123456789+/''"

definition b64_char :: "32 word \<Rightarrow> nat \<Rightarrow> char" where
  "b64_char n shift = kBase64Chars ! unat (drop_bit shift n AND 0x3F)"

definition widen :: "byte \<Rightarrow> 32 word" where
  "widen b = ucast b"

fun base64Encode :: "byte list \<Rightarrow> string" where
  "base64Encode [] = []"
| "base64Encode [a] =
     (let n = push_bit 16 (widen a) in [b64_char n 18, b64_char n 12, CHR ''='', CHR ''=''])"
| "base64Encode [a, b] =
     (let n = push_bit 16 (widen a) OR push_bit 8 (widen b)
      in [b64_char n 18, b64_char n 12, b64_char n 6, CHR ''=''])"
| "base64Encode (a # b # c # rest) =
     (let n = push_bit 16 (widen a) OR push_bit 8 (widen b) OR widen c
      in [b64_char n 18, b64_char n 12, b64_char n 6, b64_char n 0] @ base64Encode rest)"

definition b64_val :: "char \<Rightarrow> byte" where
  "b64_val c =
     (let n = char_code c in
      if 65 \<le> n \<and> n \<le> 90 then word_of_nat (n - 65)
      else if 97 \<le> n \<and> n \<le> 122 then word_of_nat (n - 97 + 26)
      else if 48 \<le> n \<and> n \<le> 57 then word_of_nat (n - 48 + 52)
      else if c = CHR ''+'' then 62
      else if c = CHR ''/'' then 63
      else 0)"

definition narrow :: "32 word \<Rightarrow> nat \<Rightarrow> byte" where
  "narrow n shift = ucast (drop_bit shift n AND 0xFF)"

definition b64_join :: "byte \<Rightarrow> byte \<Rightarrow> byte \<Rightarrow> byte \<Rightarrow> 32 word" where
  "b64_join a b c d = push_bit 18 (widen a) OR push_bit 12 (widen b) OR push_bit 6 (widen c) OR widen d"

fun base64Decode :: "string \<Rightarrow> byte list" where
  "base64Decode (a # b # c # d # rest) =
     (let n = b64_join (b64_val a) (b64_val b) (b64_val c) (b64_val d)
      in [narrow n 16] @ (if c \<noteq> CHR ''='' then [narrow n 8] else []) @
         (if d \<noteq> CHR ''='' then [narrow n 0] else []) @ base64Decode rest)"
| "base64Decode s = []"

subsection \<open>MD5\<close>

definition byte_hex :: "nat \<Rightarrow> string" where
  "byte_hex b = hex_digits 2 b"

definition bytesToHex :: "byte list \<Rightarrow> string" where
  "bytesToHex data = concat (map (\<lambda>b. byte_hex (unat b)) data)"

type_synonym md5_fun = "string \<Rightarrow> 32 word list"

definition md5Hex :: "md5_fun \<Rightarrow> string \<Rightarrow> string" where
  "md5Hex md5 s =
     concat (map (\<lambda>w. concat (map (\<lambda>shift. byte_hex (unat (drop_bit shift w AND 0xFF))) [24, 16, 8, 0]))
       (md5 s))"

subsection \<open>Challenges\<close>

definition buildDigestChallenge :: "string \<Rightarrow> string \<Rightarrow> string" where
  "buildDigestChallenge realm nonce =
     ''Digest realm='' @ [CHR 0x22] @ realm @ [CHR 0x22] @ '', domain='' @ [CHR 0x22] @ ''sip:'' @ realm @
     [CHR 0x22] @ '', nonce='' @ [CHR 0x22] @ nonce @ [CHR 0x22] @ '', algorithm=MD5, qop='' @ [CHR 0x22] @
     ''auth'' @ [CHR 0x22] @ '', stale=FALSE''"

definition aka_nonce :: "AuthVector \<Rightarrow> string" where
  "aka_nonce av = base64Encode (av_rand av @ av_autn av)"

definition buildChallenge :: "AuthVector \<Rightarrow> string \<Rightarrow> string \<Rightarrow> string" where
  "buildChallenge av realm scheme =
     (if scheme = ''Digest-MD5'' then buildDigestChallenge realm (base64Encode (av_rand av))
      else ''Digest realm='' @ [CHR 0x22] @ realm @ [CHR 0x22] @ '', nonce='' @ [CHR 0x22] @ aka_nonce av @
           [CHR 0x22] @ '', algorithm=AKAv1-MD5, qop='' @ [CHR 0x22] @ ''auth'' @ [CHR 0x22])"

definition parseAuthorization :: "string \<Rightarrow> DigestAuthFields result" where
  "parseAuthorization header = parse_digest_authorization header"

subsection \<open>Verification\<close>

definition secret_of :: "byte list \<Rightarrow> string" where
  "secret_of xres = map (\<lambda>b. char_of (unat b)) xres"

definition colon :: "string \<Rightarrow> string \<Rightarrow> string" where
  "colon a b = a @ '':'' @ b"

text \<open>The response both sides compute; none when \<^verbatim>\<open>qop\<close> is given without
  \<^verbatim>\<open>nc\<close> or \<^verbatim>\<open>cnonce\<close>.\<close>

definition digest_response :: "md5_fun \<Rightarrow> DigestAuthFields \<Rightarrow> string \<Rightarrow> string \<Rightarrow> string option" where
  "digest_response md5 p secret meth =
     (let ha1 = md5Hex md5 (colon (da_username p) (colon (da_realm p) secret));
          ha2 = md5Hex md5 (colon meth (da_uri p)) in
      if da_qop p \<noteq> [] then
        (if da_nc p = [] \<or> da_cnonce p = [] then None
         else Some (md5Hex md5 (colon ha1 (colon (da_nonce p) (colon (da_nc p)
                (colon (da_cnonce p) (colon (da_qop p) ha2)))))))
      else Some (md5Hex md5 (colon ha1 (colon (da_nonce p) ha2))))"

definition response_matches :: "md5_fun \<Rightarrow> DigestAuthFields \<Rightarrow> string \<Rightarrow> string \<Rightarrow> bool" where
  "response_matches md5 p secret meth =
     (case digest_response md5 p secret meth of
        None \<Rightarrow> False | Some e \<Rightarrow> lowercase (da_response p) = lowercase e)"

definition expected_nonce :: "AuthVector \<Rightarrow> string \<Rightarrow> string option" where
  "expected_nonce av scheme =
     (if scheme = ''Digest-MD5'' then Some (base64Encode (av_rand av))
      else if scheme = ''AKAv1-MD5'' \<or> scheme = ''Digest-AKAv1-MD5'' then Some (aka_nonce av)
      else None)"

definition verifyResponse :: "md5_fun \<Rightarrow> string \<Rightarrow> AuthVector \<Rightarrow> string \<Rightarrow> string \<Rightarrow> bool" where
  "verifyResponse md5 auth_header av meth scheme =
     (case parseAuthorization auth_header of
        Inl _ \<Rightarrow> False
      | Inr p \<Rightarrow>
          if da_response p = [] \<or> da_nonce p = [] \<or> da_uri p = [] then False
          else (case expected_nonce av scheme of
                  None \<Rightarrow> False
                | Some nonce \<Rightarrow>
                    if da_nonce p \<noteq> nonce then False
                    else response_matches md5 p (secret_of (av_xres av)) meth))"

definition verifyDigestPassword :: "md5_fun \<Rightarrow> string \<Rightarrow> string \<Rightarrow> string \<Rightarrow> string \<Rightarrow> bool" where
  "verifyDigestPassword md5 auth_header password meth nonce =
     (case parseAuthorization auth_header of
        Inl _ \<Rightarrow> False
      | Inr p \<Rightarrow>
          if da_username p = [] \<or> da_realm p = [] \<or> da_uri p = [] \<or> da_response p = [] then False
          else if da_nonce p \<noteq> nonce then False
          else response_matches md5 p password meth)"

subsection \<open>Lemmas on Base64\<close>

lemma length_kBase64Chars [simp]: "length kBase64Chars = 64"
  by (simp add: kBase64Chars_def)

lemma b64_table: "map (\<lambda>c. unat (b64_val c)) kBase64Chars = [0..<64]"
  by code_simp

lemma b64_val_nth:
  assumes "k < 64" shows "b64_val (kBase64Chars ! k) = word_of_nat k"
proof -
  have "unat (b64_val (kBase64Chars ! k)) = map (\<lambda>c. unat (b64_val c)) kBase64Chars ! k"
    using assms by simp
  also have "\<dots> = k" unfolding b64_table using assms by simp
  finally have "word_of_nat (unat (b64_val (kBase64Chars ! k))) = (word_of_nat k :: byte)" by simp
  then show ?thesis by simp
qed

lemma pad_not_in_table: "CHR ''='' \<notin> set kBase64Chars"
  by (simp add: kBase64Chars_def)

lemma masks: "x AND 0x3F = take_bit 6 x" "y AND 0xFF = take_bit 8 y" for x y :: "32 word"
  by (simp_all add: take_bit_eq_mask mask_eq_exp_minus_1)

lemma six_bits: "unat (x AND 0x3F :: 32 word) < 64"
  using take_bit_nat_less_exp [of 6 "unat x"] by (simp add: masks unsigned_take_bit_eq)

lemma b64_char_pad: "b64_char n s \<noteq> CHR ''=''"
proof -
  have "b64_char n s \<in> set kBase64Chars"
    unfolding b64_char_def using six_bits [of "drop_bit s n"] by (intro nth_mem) simp
  then show ?thesis using pad_not_in_table by metis
qed

lemma widen_of_nat: "m < 256 \<Longrightarrow> widen (word_of_nat m) = word_of_nat m"
  by (simp add: widen_def unsigned_of_nat take_bit_nat_eq_self)

lemma b64_val_char: "widen (b64_val (b64_char n s)) = take_bit 6 (drop_bit s n)"
proof -
  have v: "b64_val (b64_char n s) = word_of_nat (unat (drop_bit s n AND 0x3F))"
    unfolding b64_char_def by (rule b64_val_nth [OF six_bits])
  have "unat (drop_bit s n AND 0x3F) < 256" using six_bits [of "drop_bit s n"] by simp
  from widen_of_nat [OF this] show ?thesis unfolding v by (simp add: masks)
qed

lemma b64_val_pad: "widen (b64_val (CHR ''='')) = 0"
  by (simp add: b64_val_def char_code_def Let_def widen_def)

lemma join_bytes:
  "push_bit 18 (take_bit 6 (drop_bit 18 n)) OR push_bit 12 (take_bit 6 (drop_bit 12 n)) OR
   push_bit 6 (take_bit 6 (drop_bit 6 n)) OR take_bit 6 n = take_bit 24 (n :: 32 word)"
proof (rule bit_word_eqI)
  fix k assume "k < LENGTH(32)"
  consider "k < 6" | "6 \<le> k" "k < 12" | "12 \<le> k" "k < 18" | "18 \<le> k" by linarith
  then show "bit (push_bit 18 (take_bit 6 (drop_bit 18 n)) OR push_bit 12 (take_bit 6 (drop_bit 12 n)) OR
      push_bit 6 (take_bit 6 (drop_bit 6 n)) OR take_bit 6 n) k = bit (take_bit 24 n) k"
    by cases (auto simp: bit_simps)
qed

text \<open>The three bytes of a b64_group, read back from any word that agrees with it on their bits.\<close>

definition b64_group :: "byte \<Rightarrow> byte \<Rightarrow> byte \<Rightarrow> 32 word" where
  "b64_group a b c = push_bit 16 (widen a) OR push_bit 8 (widen b) OR widen c"

lemma bit_byte [simp]: "8 \<le> n \<Longrightarrow> \<not> bit (b :: byte) n"
  by (auto dest: bit_imp_le_length)

lemma narrow_group:
  "narrow (b64_group a b c) 16 = a" "narrow (b64_group a b c) 8 = b" "narrow (b64_group a b c) 0 = c"
  by (rule bit_word_eqI; auto simp: narrow_def b64_group_def widen_def masks bit_simps)+

lemma join_eval:
  "b64_join (b64_val (b64_char n 18)) (b64_val (b64_char n 12)) (b64_val (b64_char n 6)) (b64_val (b64_char n 0)) =
     take_bit 24 n"
  by (simp add: b64_join_def b64_val_char join_bytes)

lemma narrow_take: "narrow (take_bit 24 n) 16 = narrow n 16" "narrow (take_bit 24 n) 8 = narrow n 8"
    "narrow (take_bit 24 n) 0 = narrow n 0"
  by (rule bit_word_eqI; auto simp: narrow_def masks bit_simps)+

lemma join_pad_one:
  "c = 0 \<Longrightarrow> b64_join (b64_val (b64_char (b64_group a b c) 18)) (b64_val (b64_char (b64_group a b c) 12))
     (b64_val (b64_char (b64_group a b c) 6)) (b64_val (CHR ''='')) = take_bit 24 (b64_group a b c)"
proof -
  assume c: "c = 0"
  have "take_bit 6 (b64_group a b c) = 0"
    by (rule bit_word_eqI) (auto simp: b64_group_def c widen_def bit_simps)
  then show ?thesis using join_bytes [of "b64_group a b c"]
    by (simp add: b64_join_def b64_val_char b64_val_pad)
qed

lemma join_pad_two:
  "b = 0 \<Longrightarrow> c = 0 \<Longrightarrow> b64_join (b64_val (b64_char (b64_group a b c) 18)) (b64_val (b64_char (b64_group a b c) 12))
     (b64_val (CHR ''='')) (b64_val (CHR ''='')) = take_bit 24 (b64_group a b c)"
proof -
  assume b: "b = 0" "c = 0"
  have "take_bit 6 (b64_group a b c) = 0" "take_bit 6 (drop_bit 6 (b64_group a b c)) = 0"
    by (rule bit_word_eqI; auto simp: b64_group_def b widen_def bit_simps)+
  then show ?thesis using join_bytes [of "b64_group a b c"]
    by (simp add: b64_join_def b64_val_char b64_val_pad)
qed

lemma base64_rt: "base64Decode (base64Encode data) = data"
proof (induction data rule: base64Encode.induct)
  case (2 a)
  have g: "push_bit 16 (widen a) = b64_group a 0 0" by (simp add: b64_group_def widen_def)
  show ?case
    using narrow_group(1) [of a 0 0]
    by (simp add: g Let_def b64_char_pad join_pad_two narrow_take)
next
  case (3 a b)
  have g: "push_bit 16 (widen a) OR push_bit 8 (widen b) = b64_group a b 0" by (simp add: b64_group_def widen_def)
  show ?case
    using narrow_group(1,2) [of a b 0]
    by (simp add: g Let_def b64_char_pad join_pad_one narrow_take)
next
  case (4 a b c rest)
  have g: "push_bit 16 (widen a) OR push_bit 8 (widen b) OR widen c = b64_group a b c" by (simp add: b64_group_def)
  show ?case
    using narrow_group [of a b c] 4
    by (simp add: g Let_def b64_char_pad join_eval narrow_take)
qed simp

text \<open>Base64 decoding gives back the encoded bytes, for every length and so for every
  padding.\<close>

theorem base64_roundtrip: "base64Decode (base64Encode data) = data"
  by (rule base64_rt)

subsection \<open>Verification\<close>

text \<open>The header a client sends for the fields it fills in.\<close>

definition client_header :: "DigestAuthFields \<Rightarrow> string" where
  "client_header p =
     render_digest (''username'', da_username p)
       [(''realm'', da_realm p), (''nonce'', da_nonce p), (''uri'', da_uri p), (''qop'', da_qop p),
        (''nc'', da_nc p), (''cnonce'', da_cnonce p), (''algorithm'', da_algorithm p),
        (''response'', da_response p)]"

definition comma_free :: "DigestAuthFields \<Rightarrow> bool" where
  "comma_free p \<longleftrightarrow> CHR '','' \<notin> set (da_username p) \<and> CHR '','' \<notin> set (da_realm p) \<and>
     CHR '','' \<notin> set (da_nonce p) \<and> CHR '','' \<notin> set (da_uri p) \<and> CHR '','' \<notin> set (da_qop p) \<and>
     CHR '','' \<notin> set (da_nc p) \<and> CHR '','' \<notin> set (da_cnonce p) \<and>
     CHR '','' \<notin> set (da_algorithm p) \<and> CHR '','' \<notin> set (da_response p)"

lemma plain_names:
  "CHR '','' \<notin> set v \<Longrightarrow> n \<in> {''username'', ''realm'', ''nonce'', ''uri'', ''qop'', ''nc'', ''cnonce'', ''algorithm'', ''response''} \<Longrightarrow>
   plain_field (n, v)"
  by (auto simp: plain_field_def lowercase_def tolower_def is_space_def char_code_def Let_def)

lemma client_header_parses:
  assumes "comma_free p" and "da_username p \<noteq> []"
  shows "parseAuthorization (client_header p) = Inr p"
  unfolding parseAuthorization_def client_header_def
proof (rule parse_digest_render)
  show "list_all plain_field ((''username'', da_username p) # [(''realm'', da_realm p), (''nonce'', da_nonce p),
      (''uri'', da_uri p), (''qop'', da_qop p), (''nc'', da_nc p), (''cnonce'', da_cnonce p),
      (''algorithm'', da_algorithm p), (''response'', da_response p)])"
    using assms(1) by (simp add: plain_names comma_free_def)
qed (use assms in \<open>simp_all add: set_digest_field_def empty_digest_fields_def\<close>)

lemma hex_char_range: "d < 16 \<Longrightarrow> hex_char d \<noteq> CHR '',''"
proof -
  assume "d < 16"
  then have "char_code (hex_char d) \<ge> 48" by (simp add: hex_char_def)
  moreover have "char_code (CHR '','') = 44" by (simp add: char_code_def)
  ultimately show ?thesis by auto
qed

lemma hex_digits_chars: "c \<in> set (hex_digits n v) \<Longrightarrow> c \<noteq> CHR '',''"
proof (induction n v rule: hex_digits.induct)
  case (2 n v)
  then show ?case using hex_char_range [of "v mod 16"] by auto
qed simp

lemma md5Hex_comma_free: "CHR '','' \<notin> set (md5Hex md5 s)"
  by (auto simp: md5Hex_def byte_hex_def dest: hex_digits_chars)

lemma md5Hex_nonempty: "md5 s \<noteq> [] \<Longrightarrow> md5Hex md5 s \<noteq> []"
proof -
  have "byte_hex n \<noteq> []" for n using length_hex_digits [of 2 n] unfolding byte_hex_def by force
  then show "md5 s \<noteq> [] \<Longrightarrow> md5Hex md5 s \<noteq> []" by (cases "md5 s") (simp_all add: md5Hex_def)
qed

lemma base64_comma_free: "CHR '','' \<notin> set (base64Encode data)"
proof -
  have "b64_char n s \<noteq> CHR '',''" for n s
  proof -
    have "b64_char n s \<in> set kBase64Chars"
      unfolding b64_char_def using six_bits [of "drop_bit s n"] by (intro nth_mem) simp
    moreover have "CHR '','' \<notin> set kBase64Chars" by (simp add: kBase64Chars_def)
    ultimately show ?thesis by metis
  qed
  then have "b64_char n s \<noteq> CHR '','' \<and> CHR '','' \<noteq> b64_char n s" for n s by metis
  then show ?thesis by (induction data rule: base64Encode.induct) (simp_all add: Let_def)
qed

subsection \<open>Properties\<close>

text \<open>C29: A response is accepted only for the challenge it was made for: the nonce of the header
  decodes to the challenge's RAND followed by its AUTN, and the response equals, up to letter
  case, the digest computed from the expected result XRES of that vector.\<close>

theorem accepted_response_answers_the_challenge:
  assumes "verifyResponse md5 hdr av meth scheme" and "scheme = ''Digest-AKAv1-MD5''"
  shows "\<exists>p e. parseAuthorization hdr = Inr p \<and> base64Decode (da_nonce p) = av_rand av @ av_autn av \<and>
    digest_response md5 p (secret_of (av_xres av)) meth = Some e \<and>
    lowercase (da_response p) = lowercase e"
proof -
  from assms obtain p where p: "parseAuthorization hdr = Inr p"
    and n: "da_nonce p = aka_nonce av" and r: "response_matches md5 p (secret_of (av_xres av)) meth"
    by (auto simp: verifyResponse_def expected_nonce_def split: sum.splits if_splits)
  from r obtain e where "digest_response md5 p (secret_of (av_xres av)) meth = Some e"
      "lowercase (da_response p) = lowercase e"
    by (auto simp: response_matches_def split: option.splits)
  with p n show ?thesis by (auto simp: aka_nonce_def base64_rt)
qed

lemma secret_holder:
  assumes "comma_free p" and "da_username p \<noteq> []" and "da_uri p \<noteq> []"
    and "da_nonce p = aka_nonce av" and "av_rand av \<noteq> []" and "\<forall>s. md5 s \<noteq> []"
    and "digest_response md5 p (secret_of (av_xres av)) meth = Some e"
  shows "verifyResponse md5 (client_header (p\<lparr>da_response := e\<rparr>)) av meth ''Digest-AKAv1-MD5''"
proof -
  let ?p = "p\<lparr>da_response := e\<rparr>"
  from assms(7) obtain x where e: "e = md5Hex md5 x"
    by (auto simp: digest_response_def Let_def split: if_splits)
  have "parseAuthorization (client_header ?p) = Inr ?p"
    by (rule client_header_parses) (use assms(1,2) e md5Hex_comma_free in \<open>auto simp: comma_free_def\<close>)
  moreover have "aka_nonce av \<noteq> []"
    using assms(5) base64_rt [of "av_rand av @ av_autn av"] by (auto simp: aka_nonce_def)
  moreover have "digest_response md5 ?p (secret_of (av_xres av)) meth =
      digest_response md5 p (secret_of (av_xres av)) meth"
    by (simp add: digest_response_def cong: if_cong)
  then have "digest_response md5 ?p (secret_of (av_xres av)) meth = Some e"
    using assms(7) by simp
  ultimately show ?thesis
    using assms(3,4,6) e md5Hex_nonempty [of md5 x]
    by (simp add: verifyResponse_def expected_nonce_def response_matches_def)
qed

text \<open>A client that holds the secret is accepted: the header it renders for the nonce of the
  challenge, with the digest over its own credentials as response, verifies, whatever the other
  fields are (without commas).\<close>

theorem holder_of_the_secret_is_accepted:
  assumes "comma_free p" and "da_username p \<noteq> []" and "da_uri p \<noteq> []"
    and "da_nonce p = aka_nonce av" and "av_rand av \<noteq> []" and "\<forall>s. md5 s \<noteq> []"
    and "digest_response md5 p (secret_of (av_xres av)) meth = Some e"
  shows "verifyResponse md5 (client_header (p\<lparr>da_response := e\<rparr>)) av meth ''Digest-AKAv1-MD5''"
  by (rule secret_holder [OF assms])

definition demo_vector :: AuthVector where
  "demo_vector = \<lparr>av_rand = [1, 2, 3], av_autn = [4, 5, 6], av_xres = [7], av_ck = [], av_ik = []\<rparr>"

definition demo_fields :: DigestAuthFields where
  "demo_fields = \<lparr>da_username = ''alice'', da_realm = ''ims.local'', da_nonce = aka_nonce demo_vector,
     da_response = [], da_uri = ''sip:ims.local'', da_algorithm = ''AKAv1-MD5'', da_qop = [], da_nc = [],
     da_cnonce = []\<rparr>"

definition demo_md5 :: md5_fun where
  "demo_md5 s = [word_of_nat (length s)]"

definition demo_response :: string where
  "demo_response = the (digest_response demo_md5 demo_fields (secret_of (av_xres demo_vector)) ''REGISTER'')"

lemma demo_fields_comma_free: "comma_free demo_fields"
  by (simp add: comma_free_def demo_fields_def aka_nonce_def base64_comma_free)

lemma holder_of_the_secret_is_accepted_witness:
  "verifyResponse demo_md5 (client_header (demo_fields\<lparr>da_response := demo_response\<rparr>)) demo_vector
     ''REGISTER'' ''Digest-AKAv1-MD5''"
  by (rule holder_of_the_secret_is_accepted [OF demo_fields_comma_free])
    (simp_all add: demo_fields_def demo_vector_def demo_md5_def demo_response_def digest_response_def Let_def)

lemma demo_accepted:
  "verifyResponse demo_md5 (client_header (demo_fields\<lparr>da_response := demo_response\<rparr>)) demo_vector
     ''REGISTER'' ''Digest-AKAv1-MD5''"
  by (rule secret_holder [OF demo_fields_comma_free])
    (simp_all add: demo_fields_def demo_vector_def demo_md5_def demo_response_def digest_response_def Let_def)

lemma accepted_response_answers_the_challenge_witness:
  "\<exists>p :: DigestAuthFields. base64Decode (da_nonce p) = av_rand demo_vector @ av_autn demo_vector"
  using accepted_response_answers_the_challenge [OF demo_accepted] by auto

end
