(* ===== verification/Auth_Providers.thy ===== *)
theory Auth_Providers
  imports Auth_Manager Sip_Message Umap
begin

section \<open>Credential stores and authentication providers (s-cscf)\<close>

text \<open>
  \<^verbatim>\<open>digest_credential_store.cpp\<close>, \<^verbatim>\<open>mongo_digest_credential_store.cpp\<close>,
  \<^verbatim>\<open>digest_auth_provider.cpp\<close> and \<^verbatim>\<open>ims_aka_auth_provider.cpp\<close>.  A
  credential store is a record of its two lookups.  A provider's state is its table of pending
  challenges; clock readings, the two random words of a nonce and (for the AKA provider) the HSS
  client with its state are arguments.  The locale \<open>auth_provider\<close> states what both promise
  the registrar: each acceptance spends a challenge.
\<close>

subsection \<open>Credential stores\<close>

record DigestCredential =
  dc_username :: string
  dc_realm :: string
  dc_password :: string
  dc_impi :: string
  dc_impu :: string
  dc_associated_impus :: "string list"

record credential_store =
  CS_findByUsername :: "string \<Rightarrow> string \<Rightarrow> DigestCredential option result"
  CS_findByIdentity :: "string \<Rightarrow> DigestCredential option result"

record LocalDigestCredentialStore =
  ls_credentials :: "DigestCredential list"
  ls_by_username_realm :: "(string, nat) umap"
  ls_by_identity :: "(string, nat) umap"

definition makeUsernameRealmKey :: "string \<Rightarrow> string \<Rightarrow> string" where
  "makeUsernameRealmKey username realm = username @ ''|'' @ realm"

definition addUsernameAlias :: "string \<Rightarrow> string \<Rightarrow> nat \<Rightarrow> (string, nat) umap \<Rightarrow> (string, nat) umap" where
  "addUsernameAlias username realm index m =
     (if username = [] \<or> realm = [] then m
      else um_emplace (makeUsernameRealmKey username realm) index m)"

text \<open>\<^verbatim>\<open>makeImpi\<close>, \<^verbatim>\<open>makeCanonicalImpu\<close> and
  \<^verbatim>\<open>makeAssociatedImpus\<close> are, letter for letter, the helpers of the HSS stub.\<close>

definition local_credential :: "HssSubscriberConfig \<Rightarrow> DigestCredential" where
  "local_credential s =
     \<lparr>dc_username = make_impi s, dc_realm = sub_realm s, dc_password = sub_password s,
      dc_impi = make_impi s, dc_impu = make_canonical_impu s,
      dc_associated_impus = make_associated_impus s\<rparr>"

definition local_add ::
  "osip_lib \<Rightarrow> HssSubscriberConfig \<Rightarrow> LocalDigestCredentialStore \<Rightarrow> LocalDigestCredentialStore" where
  "local_add L s st =
     (let credential = local_credential s;
          index = length (ls_credentials st);
          realm = dc_realm credential;
          users = addUsernameAlias (sub_tel s @ ''@'' @ sub_realm s) realm index
                    (addUsernameAlias (sub_tel s) realm index
                      (addUsernameAlias (sub_imsi s) realm index
                        (addUsernameAlias (dc_username credential) realm index (ls_by_username_realm st))));
          ids = fold (\<lambda>identity m. um_emplace (normalize_impu_uri L identity) index m)
                  (dc_impi credential # dc_impu credential # dc_associated_impus credential)
                  (ls_by_identity st)
      in \<lparr>ls_credentials = ls_credentials st @ [credential], ls_by_username_realm = users,
          ls_by_identity = ids\<rparr>)"

definition local_init :: "osip_lib \<Rightarrow> HssAdapterConfig \<Rightarrow> LocalDigestCredentialStore" where
  "local_init L config =
     fold (local_add L) (ha_subscribers config)
       \<lparr>ls_credentials = [], ls_by_username_realm = [], ls_by_identity = []\<rparr>"

definition lookupByIndex :: "LocalDigestCredentialStore \<Rightarrow> nat \<Rightarrow> DigestCredential option" where
  "lookupByIndex st index =
     (if length (ls_credentials st) \<le> index then None else Some (ls_credentials st ! index))"

definition local_findByUsername ::
  "LocalDigestCredentialStore \<Rightarrow> string \<Rightarrow> string \<Rightarrow> DigestCredential option result" where
  "local_findByUsername st username realm =
     (case um_find (ls_by_username_realm st) (makeUsernameRealmKey username realm) of
        None \<Rightarrow> Inr None | Some i \<Rightarrow> Inr (lookupByIndex st i))"

definition local_findByIdentity ::
  "osip_lib \<Rightarrow> LocalDigestCredentialStore \<Rightarrow> string \<Rightarrow> DigestCredential option result" where
  "local_findByIdentity L st identity =
     (case um_find (ls_by_identity st) (normalize_impu_uri L identity) of
        None \<Rightarrow> Inr None | Some i \<Rightarrow> Inr (lookupByIndex st i))"

definition local_store :: "osip_lib \<Rightarrow> HssAdapterConfig \<Rightarrow> credential_store" where
  "local_store L config =
     \<lparr>CS_findByUsername = local_findByUsername (local_init L config),
      CS_findByIdentity = local_findByIdentity L (local_init L config)\<rparr>"

definition to_digest_credential :: "SubscriberRecord \<Rightarrow> DigestCredential" where
  "to_digest_credential r =
     (let ids = sr_identities r in
      \<lparr>dc_username = (case find_char (id_impi ids) (CHR ''@'') of
                        None \<Rightarrow> id_impi ids | Some pos \<Rightarrow> substr (id_impi ids) 0 pos),
       dc_realm = id_realm ids, dc_password = sa_password (sr_auth r), dc_impi = id_impi ids,
       dc_impu = id_canonical_impu ids, dc_associated_impus = id_associated_impus ids\<rparr>)"

text \<open>The repository is always set: the factory returns an error otherwise.\<close>

definition mongo_findByUsername ::
  "osip_lib \<Rightarrow> 'd collection \<Rightarrow> 'd \<Rightarrow> string \<Rightarrow> string \<Rightarrow> DigestCredential option result" where
  "mongo_findByUsername L C d username realm =
     (let try_lookup = (\<lambda>candidate.
            case findByUsernameRealm L C candidate realm d of
              Inl e \<Rightarrow> Inl e | Inr r \<Rightarrow> Inr (map_option to_digest_credential r))
      in case try_lookup username of
           Inl e \<Rightarrow> Inl e
         | Inr (Some c) \<Rightarrow> Inr (Some c)
         | Inr None \<Rightarrow>
             if CHR ''@'' \<in> set username \<or> username = [] \<or> hd username \<noteq> CHR ''+'' then Inr None
             else try_lookup (''tel:'' @ username))"

definition mongo_findByIdentity ::
  "osip_lib \<Rightarrow> 'd collection \<Rightarrow> 'd \<Rightarrow> string \<Rightarrow> DigestCredential option result" where
  "mongo_findByIdentity L C d identity =
     (case repo_findByIdentity L C (normalize_impu_uri L identity) d of
        Inl e \<Rightarrow> Inl e | Inr r \<Rightarrow> Inr (map_option to_digest_credential r))"

definition mongo_store :: "osip_lib \<Rightarrow> 'd collection \<Rightarrow> 'd \<Rightarrow> credential_store" where
  "mongo_store L C d =
     \<lparr>CS_findByUsername = mongo_findByUsername L C d, CS_findByIdentity = mongo_findByIdentity L C d\<rparr>"

subsection \<open>What the providers share (i_auth_provider.hpp)\<close>

record AuthChallenge =
  ch_session_key :: string
  ch_impi :: string
  ch_impu :: string
  ch_scheme :: string
  ch_realm :: string
  ch_www_authenticate :: string

record AuthVerificationResult =
  vr_session_key :: string
  vr_impi :: string
  vr_impu :: string
  vr_scheme :: string

definition auth_failed :: "string \<Rightarrow> ErrorInfo" where
  "auth_failed message = mk_error kDiameterAuthFailed message []"

definition no_pending :: string where
  "no_pending = ''no pending auth state''"

definition unit_separator :: char where
  "unit_separator = CHR 0x1F"

definition kPendingAuthTtl :: int where
  "kPendingAuthTtl = seconds 120"

subsection \<open>The digest provider\<close>

record digest_pending =
  dp_nonce :: string
  dp_credential :: DigestCredential
  dp_expires_at :: time_point

type_synonym digest_table = "(string, digest_pending) umap"

definition digest_extractIdentity :: "osip_lib \<Rightarrow> osip_message \<Rightarrow> string" where
  "digest_extractIdentity L req =
     (case impi_from_authorization_or_from L req of
        Some i \<Rightarrow> normalize_impu_uri L i
      | None \<Rightarrow>
          (case impu_from_to L req of
             Some i \<Rightarrow> normalize_impu_uri L i
           | None \<Rightarrow> normalize_impu_uri L (toHeader L req)))"

definition digest_makePendingKey :: "osip_lib \<Rightarrow> string \<Rightarrow> string \<Rightarrow> string" where
  "digest_makePendingKey L call_id priv = call_id @ unit_separator # normalize_impu_uri L priv"

definition digest_purgeExpired :: "time_point \<Rightarrow> digest_table \<Rightarrow> digest_table" where
  "digest_purgeExpired now m = um_erase_if (\<lambda>e. dp_expires_at (snd e) \<le> now) m"

definition makeNonce :: "64 word \<Rightarrow> 64 word \<Rightarrow> string" where
  "makeNonce a b = hex_digits 16 (unat a) @ hex_digits 16 (unat b)"

definition digest_canHandleInitialRegister :: "osip_lib \<Rightarrow> credential_store \<Rightarrow> osip_message \<Rightarrow> bool" where
  "digest_canHandleInitialRegister L CS req =
     (if message_method req \<noteq> ''REGISTER'' then False
      else (let identity = digest_extractIdentity L req in
            if identity = [] then False
            else (case CS_findByIdentity CS identity of Inr (Some _) \<Rightarrow> True | _ \<Rightarrow> False)))"

definition digest_canHandleAuthorization ::
  "osip_lib \<Rightarrow> credential_store \<Rightarrow> time_point \<Rightarrow> osip_message \<Rightarrow> digest_table \<Rightarrow> digest_table \<times> bool" where
  "digest_canHandleAuthorization L CS now req m =
     (case getHeader L ''Authorization'' req of
        None \<Rightarrow> (m, False)
      | Some auth_header \<Rightarrow>
          (case parseAuthorization auth_header of
             Inl _ \<Rightarrow> (m, False)
           | Inr params \<Rightarrow>
               if da_algorithm params \<noteq> [] \<and> da_algorithm params \<noteq> ''MD5'' then (m, False)
               else (case CS_findByUsername CS (da_username params) (da_realm params) of
                       Inr (Some _) \<Rightarrow> (digest_purgeExpired now m, True)
                     | _ \<Rightarrow> (m, False))))"

definition digest_challenge ::
  "string \<Rightarrow> string \<Rightarrow> DigestCredential \<Rightarrow> string \<Rightarrow> AuthChallenge" where
  "digest_challenge realm call_id c nonce =
     \<lparr>ch_session_key = call_id, ch_impi = dc_impi c, ch_impu = dc_impu c, ch_scheme = ''Digest-MD5'',
      ch_realm = realm, ch_www_authenticate = buildDigestChallenge realm nonce\<rparr>"

text \<open>\<^verbatim>\<open>createChallenge\<close> looks twice: before and after it draws the nonce.\<close>

definition digest_createChallenge ::
  "osip_lib \<Rightarrow> credential_store \<Rightarrow> string \<Rightarrow> time_point \<Rightarrow> time_point \<Rightarrow> 64 word \<times> 64 word \<Rightarrow>
     osip_message \<Rightarrow> digest_table \<Rightarrow> digest_table \<times> AuthChallenge result" where
  "digest_createChallenge L CS realm now later rnd req m =
     (case CS_findByIdentity CS (digest_extractIdentity L req) of
        Inl e \<Rightarrow> (m, Inl e)
      | Inr None \<Rightarrow> (m, Inl (mk_error kDiameterUserNotFound ''digest credential not found'' []))
      | Inr (Some credential) \<Rightarrow>
          (let call_id = callId req;
               key = digest_makePendingKey L call_id (dc_impi credential);
               m1 = digest_purgeExpired now m
           in case um_find m1 key of
                Some p \<Rightarrow> (m1, Inr (digest_challenge realm call_id (dp_credential p) (dp_nonce p)))
              | None \<Rightarrow>
                  (let nonce = makeNonce (fst rnd) (snd rnd);
                       m2 = digest_purgeExpired later m1
                   in case um_find m2 key of
                        Some p \<Rightarrow> (m2, Inr (digest_challenge realm call_id (dp_credential p) (dp_nonce p)))
                      | None \<Rightarrow>
                          (um_put key \<lparr>dp_nonce = nonce, dp_credential = credential,
                                       dp_expires_at = later + kPendingAuthTtl\<rparr> m2,
                           Inr (digest_challenge realm call_id credential nonce)))))"

definition digest_commit :: "string \<Rightarrow> digest_pending \<Rightarrow> digest_table \<Rightarrow> digest_table \<times> bool" where
  "digest_commit key pending m =
     (case um_find m key of
        None \<Rightarrow> (m, False)
      | Some p \<Rightarrow> if dp_nonce p \<noteq> dp_nonce pending then (m, False) else (um_erase key m, True))"

definition digest_verifyAuthorization ::
  "osip_lib \<Rightarrow> md5_fun \<Rightarrow> credential_store \<Rightarrow> time_point \<Rightarrow> osip_message \<Rightarrow> digest_table \<Rightarrow>
     digest_table \<times> AuthVerificationResult result" where
  "digest_verifyAuthorization L md5 CS now req m =
     (case getHeader L ''Authorization'' req of
        None \<Rightarrow> (m, Inl (auth_failed ''missing Authorization header''))
      | Some auth_header \<Rightarrow>
          (case parseAuthorization auth_header of
             Inl e \<Rightarrow> (m, Inl e)
           | Inr params \<Rightarrow>
               (case CS_findByUsername CS (da_username params) (da_realm params) of
                  Inl e \<Rightarrow> (m, Inl e)
                | Inr None \<Rightarrow> (m, Inl (auth_failed ''credential not found''))
                | Inr (Some credential) \<Rightarrow>
                    (let key = digest_makePendingKey L (callId req) (dc_impi credential);
                         m1 = digest_purgeExpired now m
                     in case um_find m1 key of
                          None \<Rightarrow> (m1, Inl (auth_failed no_pending))
                        | Some pending \<Rightarrow>
                            if \<not> verifyDigestPassword md5 auth_header (dc_password (dp_credential pending))
                                   (message_method req) (dp_nonce pending)
                            then (m1, Inl (auth_failed ''authorization verification failed''))
                            else
                              (let (m2, ok) = digest_commit key pending m1 in
                               if \<not> ok then (m2, Inl (auth_failed no_pending))
                               else (m2, Inr \<lparr>vr_session_key = callId req,
                                              vr_impi = dc_impi (dp_credential pending),
                                              vr_impu = dc_impu (dp_credential pending),
                                              vr_scheme = ''Digest-MD5''\<rparr>))))))"

subsection \<open>The AKA provider\<close>

record aka_pending =
  ap_vector :: AuthVector
  ap_impi :: string
  ap_impu :: string
  ap_scheme :: string
  ap_expires_at :: time_point

text \<open>The keys with a request to the HSS under way are those whose \<^verbatim>\<open>shared_future\<close> is in
  \<^verbatim>\<open>in_flight_auth_\<close>.\<close>

record aka_provider =
  aka_pending_auth :: "(string, aka_pending) umap"
  aka_in_flight :: "string list"

definition aka_extractImpi :: "osip_lib \<Rightarrow> osip_message \<Rightarrow> string" where
  "aka_extractImpi L m =
     (case impi_from_authorization_or_from L m of
        Some i \<Rightarrow> normalize_impu_uri L i | None \<Rightarrow> normalize_impu_uri L (fromHeader L m))"

definition aka_extractImpu :: "osip_lib \<Rightarrow> osip_message \<Rightarrow> string" where
  "aka_extractImpu L m =
     (case impu_from_to L m of
        Some i \<Rightarrow> normalize_impu_uri L i | None \<Rightarrow> normalize_impu_uri L (toHeader L m))"

definition aka_makePendingKey :: "osip_lib \<Rightarrow> string \<Rightarrow> string \<Rightarrow> string \<Rightarrow> string" where
  "aka_makePendingKey L call_id priv pub =
     call_id @ unit_separator # normalize_impu_uri L priv @ unit_separator # normalize_impu_uri L pub"

definition aka_purgeExpired :: "time_point \<Rightarrow> aka_provider \<Rightarrow> aka_provider" where
  "aka_purgeExpired now st =
     st\<lparr>aka_pending_auth := um_erase_if (\<lambda>e. ap_expires_at (snd e) \<le> now) (aka_pending_auth st)\<rparr>"

definition normalizeAuthorizationImpi :: "osip_lib \<Rightarrow> string \<Rightarrow> string \<Rightarrow> string" where
  "normalizeAuthorizationImpi L home username =
     (let n = normalize_impu_uri L username in
      if CHR ''@'' \<notin> set n \<and> \<not> starts_with ''tel:'' n \<and> \<not> starts_with ''sip:'' n \<and> \<not> starts_with ''sips:'' n
      then n @ ''@'' @ home else n)"

definition findPendingForAuthorization ::
  "osip_lib \<Rightarrow> string \<Rightarrow> string \<Rightarrow> string \<Rightarrow> aka_provider \<Rightarrow> (string \<times> aka_pending) option" where
  "findPendingForAuthorization L home call_id username st =
     (let n = normalizeAuthorizationImpi L home username in
      List.find (\<lambda>e. ap_impi (snd e) = n \<and> starts_with (call_id @ [unit_separator]) (fst e))
        (aka_pending_auth st))"

definition aka_canHandleInitialRegister :: "osip_message \<Rightarrow> bool" where
  "aka_canHandleInitialRegister req = (message_method req = ''REGISTER'')"

definition aka_canHandleAuthorization ::
  "osip_lib \<Rightarrow> string \<Rightarrow> time_point \<Rightarrow> osip_message \<Rightarrow> aka_provider \<Rightarrow> aka_provider \<times> bool" where
  "aka_canHandleAuthorization L home now req st =
     (case getHeader L ''Authorization'' req of
        None \<Rightarrow> (st, False)
      | Some auth_header \<Rightarrow>
          (case parseAuthorization auth_header of
             Inl _ \<Rightarrow> (st, False)
           | Inr params \<Rightarrow>
               (let st1 = aka_purgeExpired now st in
                (st1, findPendingForAuthorization L home (callId req) (da_username params) st1 \<noteq> None \<or>
                      da_algorithm params = [] \<or> da_algorithm params = ''AKAv1-MD5'' \<or>
                      da_algorithm params = ''Digest-AKAv1-MD5''))))"

definition aka_build_challenge :: "string \<Rightarrow> string \<Rightarrow> aka_pending \<Rightarrow> AuthChallenge" where
  "aka_build_challenge home call_id p =
     \<lparr>ch_session_key = call_id, ch_impi = ap_impi p, ch_impu = ap_impu p, ch_scheme = ap_scheme p,
      ch_realm = home, ch_www_authenticate = buildChallenge (ap_vector p) home (ap_scheme p)\<rparr>"

text \<open>The first critical section decides whether the challenge exists, another thread is fetching it,
  or this one must; the last stores what the owner fetched.\<close>

datatype aka_begin = Found aka_pending | Wait | Own

definition aka_begin_challenge :: "time_point \<Rightarrow> string \<Rightarrow> aka_provider \<Rightarrow> aka_provider \<times> aka_begin" where
  "aka_begin_challenge now key st =
     (let st1 = aka_purgeExpired now st in
      case um_find (aka_pending_auth st1) key of
        Some p \<Rightarrow> (st1, Found p)
      | None \<Rightarrow>
          if key \<in> set (aka_in_flight st1) then (st1, Wait)
          else (st1\<lparr>aka_in_flight := key # aka_in_flight st1\<rparr>, Own))"

definition aka_finish_challenge :: "string \<Rightarrow> aka_pending result \<Rightarrow> aka_provider \<Rightarrow> aka_provider" where
  "aka_finish_challenge key r st =
     st\<lparr>aka_pending_auth := (case r of Inl _ \<Rightarrow> aka_pending_auth st
                                     | Inr p \<Rightarrow> um_put key p (aka_pending_auth st)),
        aka_in_flight := removeAll key (aka_in_flight st)\<rparr>"

definition aka_mar :: "string \<Rightarrow> string \<Rightarrow> string \<Rightarrow> MarParams" where
  "aka_mar home priv pub =
     \<lparr>mar_impi = priv, mar_impu = pub, mar_sip_auth_scheme = ''Digest-AKAv1-MD5'',
      mar_sip_authorization = [], mar_server_name = ''sip:scscf.'' @ home, mar_sip_number_auth_items = 1\<rparr>"

text \<open>\<open>waited\<close> is the value of the shared future, where the call waits for another thread.\<close>

definition aka_createChallenge ::
  "osip_lib \<Rightarrow> 'h hss \<Rightarrow> string \<Rightarrow> time_point \<Rightarrow> time_point \<Rightarrow> aka_pending result \<Rightarrow> osip_message \<Rightarrow>
     aka_provider \<times> 'h \<Rightarrow> (aka_provider \<times> 'h) \<times> AuthChallenge result" where
  "aka_createChallenge L H home now later waited req sh =
     (let (st, h) = sh;
          priv = aka_extractImpi L req;
          pub = aka_extractImpu L req;
          call_id = callId req;
          key = aka_makePendingKey L call_id priv pub;
          (st1, b) = aka_begin_challenge now key st
      in case b of
           Found p \<Rightarrow> ((st1, h), Inr (aka_build_challenge home call_id p))
         | Wait \<Rightarrow> ((st1, h), (case waited of Inl e \<Rightarrow> Inl e | Inr p \<Rightarrow> Inr (aka_build_challenge home call_id p)))
         | Own \<Rightarrow>
             (let (h1, maa) = H_mar H (aka_mar home priv pub) h;
                  r = (case maa of
                         Inl e \<Rightarrow> Inl e
                       | Inr a \<Rightarrow> Inr \<lparr>ap_vector = maa_auth_vector a, ap_impi = priv, ap_impu = pub,
                                       ap_scheme = maa_sip_auth_scheme a,
                                       ap_expires_at = later + kPendingAuthTtl\<rparr>)
              in ((aka_finish_challenge key r st1, h1),
                  (case r of Inl e \<Rightarrow> Inl e | Inr p \<Rightarrow> Inr (aka_build_challenge home call_id p)))))"

definition aka_commit :: "string \<Rightarrow> aka_pending \<Rightarrow> aka_provider \<Rightarrow> aka_provider \<times> bool" where
  "aka_commit key pending st =
     (case um_find (aka_pending_auth st) key of
        None \<Rightarrow> (st, False)
      | Some p \<Rightarrow>
          if av_rand (ap_vector p) \<noteq> av_rand (ap_vector pending) \<or>
             av_autn (ap_vector p) \<noteq> av_autn (ap_vector pending)
          then (st, False)
          else (st\<lparr>aka_pending_auth := um_erase key (aka_pending_auth st)\<rparr>, True))"

definition aka_verifyAuthorization ::
  "osip_lib \<Rightarrow> md5_fun \<Rightarrow> string \<Rightarrow> time_point \<Rightarrow> osip_message \<Rightarrow> aka_provider \<Rightarrow>
     aka_provider \<times> AuthVerificationResult result" where
  "aka_verifyAuthorization L md5 home now req st =
     (case getHeader L ''Authorization'' req of
        None \<Rightarrow> (st, Inl (auth_failed ''missing Authorization header''))
      | Some auth_header \<Rightarrow>
          (case parseAuthorization auth_header of
             Inl e \<Rightarrow> (st, Inl e)
           | Inr params \<Rightarrow>
               (let st1 = aka_purgeExpired now st in
                case findPendingForAuthorization L home (callId req) (da_username params) st1 of
                  None \<Rightarrow> (st1, Inl (auth_failed no_pending))
                | Some (key, pending) \<Rightarrow>
                    if \<not> verifyResponse md5 auth_header (ap_vector pending) (message_method req) (ap_scheme pending)
                    then (st1, Inl (auth_failed ''authorization verification failed''))
                    else
                      (let (st2, ok) = aka_commit key pending st1 in
                       if \<not> ok then (st2, Inl (auth_failed no_pending))
                       else (st2, Inr \<lparr>vr_session_key = callId req, vr_impi = ap_impi pending,
                                       vr_impu = ap_impu pending, vr_scheme = ap_scheme pending\<rparr>)))))"

subsection \<open>The interface the registrar uses\<close>

text \<open>A history of calls on a provider, with the counts of the acceptances and of the challenges
  handed out.\<close>

datatype 'e auth_call = Offer 'e | Challenge 'e | Verify 'e

fun auth_run ::
  "('e \<Rightarrow> 's \<Rightarrow> 's \<times> bool) \<Rightarrow> ('e \<Rightarrow> 's \<Rightarrow> 's \<times> AuthChallenge result) \<Rightarrow>
   ('e \<Rightarrow> 's \<Rightarrow> 's \<times> AuthVerificationResult result) \<Rightarrow> 'e auth_call list \<Rightarrow> nat \<times> nat \<Rightarrow> 's \<Rightarrow> (nat \<times> nat) \<times> 's"
where
  "auth_run offer challenge verify [] n s = (n, s)"
| "auth_run offer challenge verify (Offer e # cs) n s =
     auth_run offer challenge verify cs n (fst (offer e s))"
| "auth_run offer challenge verify (Challenge e # cs) (a, c) s =
     (let (s', r) = challenge e s in
      auth_run offer challenge verify cs (a, case r of Inl _ \<Rightarrow> c | Inr _ \<Rightarrow> Suc c) s')"
| "auth_run offer challenge verify (Verify e # cs) (a, c) s =
     (let (s', r) = verify e s in
      auth_run offer challenge verify cs (case r of Inl _ \<Rightarrow> a | Inr _ \<Rightarrow> Suc a, c) s')"

text \<open>\<^verbatim>\<open>IAuthProvider\<close>: an acceptance spends a pending challenge, only a challenge that is
  handed out adds one, and nothing else does.\<close>

locale auth_provider =
  fixes offer :: "'e \<Rightarrow> 's \<Rightarrow> 's \<times> bool"
    and challenge :: "'e \<Rightarrow> 's \<Rightarrow> 's \<times> AuthChallenge result"
    and verify :: "'e \<Rightarrow> 's \<Rightarrow> 's \<times> AuthVerificationResult result"
    and pending :: "'s \<Rightarrow> nat"
  assumes offer_adds_none: "pending (fst (offer e s)) \<le> pending s"
    and challenge_adds_one: "pending (fst (challenge e s)) \<le> Suc (pending s)"
    and challenge_error: "challenge e s = (s', Inl err) \<Longrightarrow> pending s' \<le> pending s"
    and verify_error: "verify e s = (s', Inl err) \<Longrightarrow> pending s' \<le> pending s"
    and verify_spends: "verify e s = (s', Inr r) \<Longrightarrow> pending s' < pending s"
begin

lemma acceptances_spend_challenges:
  "auth_run offer challenge verify cs (a, c) s = ((a', c'), s') \<Longrightarrow> a' + pending s' + c \<le> a + pending s + c'"
proof (induction cs arbitrary: a c s)
  case (Cons call cs)
  show ?case
  proof (cases call)
    case (Offer e)
    with Cons.prems Cons.IH [of a c "fst (offer e s)"] show ?thesis using offer_adds_none [of e s] by simp
  next
    case (Challenge e)
    obtain s1 r where r: "challenge e s = (s1, r)" by (metis prod.exhaust)
    then show ?thesis using Challenge Cons.prems Cons.IH [of a _ s1] challenge_adds_one [of e s] challenge_error [of e s s1]
      by (cases r) (fastforce dest: Cons.IH)+
  next
    case (Verify e)
    obtain s1 r where r: "verify e s = (s1, r)" by (metis prod.exhaust)
    then show ?thesis using Verify Cons.prems Cons.IH [of _ c s1] verify_error [of e s s1] verify_spends [of e s s1]
      by (cases r) (fastforce dest: Cons.IH)+
  qed
qed simp

lemma nothing_pending_nothing_accepted: "pending s = 0 \<Longrightarrow> verify e s \<noteq> (s', Inr r)"
  using verify_spends by fastforce

end

lemma length_um_erase_if: "length (um_erase_if P m) \<le> length m"
  by (simp add: um_erase_if_def)

lemma length_um_put: "length (um_put k v m) \<le> Suc (length m)"
  by (induction k v m rule: um_put.induct) simp_all

lemma length_um_erase: "um_find m k = Some v \<Longrightarrow> length (um_erase k m) < length m"
  unfolding um_erase_def um_erase_if_def
proof (induction m)
  case (Cons e m)
  have "length (filter (\<lambda>e. fst e \<noteq> k) m) < Suc (length m)" by (simp add: le_imp_less_Suc)
  with Cons show ?case by (auto split: if_splits)
qed simp

text \<open>The environment of a call on the digest provider: the request, the clock at the first and at the
  later critical section, and the random words.\<close>

type_synonym digest_env = "osip_message \<times> time_point \<times> time_point \<times> 64 word \<times> 64 word"

definition digest_offer ::
  "osip_lib \<Rightarrow> credential_store \<Rightarrow> digest_env \<Rightarrow> digest_table \<Rightarrow> digest_table \<times> bool" where
  "digest_offer L CS e m = (case e of (req, now, later, rnd) \<Rightarrow> digest_canHandleAuthorization L CS now req m)"

definition digest_challenge_call ::
  "osip_lib \<Rightarrow> credential_store \<Rightarrow> string \<Rightarrow> digest_env \<Rightarrow> digest_table \<Rightarrow> digest_table \<times> AuthChallenge result" where
  "digest_challenge_call L CS realm e m =
     (case e of (req, now, later, rnd) \<Rightarrow> digest_createChallenge L CS realm now later rnd req m)"

definition digest_verify_call ::
  "osip_lib \<Rightarrow> md5_fun \<Rightarrow> credential_store \<Rightarrow> digest_env \<Rightarrow> digest_table \<Rightarrow>
     digest_table \<times> AuthVerificationResult result" where
  "digest_verify_call L md5 CS e m =
     (case e of (req, now, later, rnd) \<Rightarrow> digest_verifyAuthorization L md5 CS now req m)"

lemma digest_length:
  "length (fst (digest_canHandleAuthorization L CS now req m)) \<le> length m"
  "length (fst (digest_createChallenge L CS realm now later rnd req m)) \<le> Suc (length m)"
  "digest_createChallenge L CS realm now later rnd req m = (m', Inl err) \<Longrightarrow> m' = m"
proof -
  have p: "length (digest_purgeExpired t m) \<le> length m" for t m
    by (simp add: digest_purgeExpired_def length_um_erase_if)
  show "length (fst (digest_canHandleAuthorization L CS now req m)) \<le> length m"
    by (auto simp: digest_canHandleAuthorization_def p split: option.split sum.split)
  have "length (um_put k v (digest_purgeExpired later (digest_purgeExpired now m))) \<le> Suc (length m)" for k v
    by (rule order_trans [OF length_um_put]) (use p order_trans in \<open>simp; blast\<close>)
  moreover have "length (digest_purgeExpired later (digest_purgeExpired now m)) \<le> Suc (length m)"
    "length (digest_purgeExpired now m) \<le> Suc (length m)"
    using p [of later "digest_purgeExpired now m"] p [of now m] by simp_all
  ultimately show "length (fst (digest_createChallenge L CS realm now later rnd req m)) \<le> Suc (length m)"
    by (auto simp: digest_createChallenge_def Let_def split: option.split sum.split)
  show "digest_createChallenge L CS realm now later rnd req m = (m', Inl err) \<Longrightarrow> m' = m"
    by (auto simp: digest_createChallenge_def Let_def split: option.splits sum.splits)
qed

lemma digest_verify_cases:
  "digest_verifyAuthorization L md5 CS now req m = (m', r) \<Longrightarrow>
   (case r of Inl _ \<Rightarrow> m' = m \<or> m' = digest_purgeExpired now m
    | Inr v \<Rightarrow> \<exists>h p c k. getHeader L ''Authorization'' req = Some h \<and> parseAuthorization h = Inr p \<and>
        CS_findByUsername CS (da_username p) (da_realm p) = Inr (Some c) \<and>
        um_find (digest_purgeExpired now m) (digest_makePendingKey L (callId req) (dc_impi c)) = Some k \<and>
        verifyDigestPassword md5 h (dc_password (dp_credential k)) (message_method req) (dp_nonce k) \<and>
        m' = um_erase (digest_makePendingKey L (callId req) (dc_impi c)) (digest_purgeExpired now m))"
  by (auto simp: digest_verifyAuthorization_def digest_commit_def Let_def split: option.splits sum.splits if_splits)

interpretation digest: auth_provider "digest_offer L CS" "digest_challenge_call L CS realm"
  "digest_verify_call L md5 CS" length
proof unfold_locales
  fix e :: digest_env and m m' :: digest_table and err r
  obtain req now later rnd where e: "e = (req, now, later, rnd)" by (metis prod_cases3)
  have p: "length (digest_purgeExpired now m) \<le> length m"
    by (simp add: digest_purgeExpired_def length_um_erase_if)
  show "length (fst (digest_offer L CS e m)) \<le> length m"
    "length (fst (digest_challenge_call L CS realm e m)) \<le> Suc (length m)"
    by (simp_all add: e digest_offer_def digest_challenge_call_def digest_length)
  show "digest_challenge_call L CS realm e m = (m', Inl err) \<Longrightarrow> length m' \<le> length m"
    by (auto simp: e digest_challenge_call_def dest: digest_length(3))
  show "digest_verify_call L md5 CS e m = (m', Inl err) \<Longrightarrow> length m' \<le> length m"
    using digest_verify_cases [of L md5 CS now req m m' "Inl err"] p by (auto simp: e digest_verify_call_def)
  show "digest_verify_call L md5 CS e m = (m', Inr r) \<Longrightarrow> length m' < length m"
    using digest_verify_cases [of L md5 CS now req m m' "Inr r"] p
    by (auto simp: e digest_verify_call_def dest!: length_um_erase)
qed

text \<open>For the AKA provider the environment also holds the value a waiting thread gets; the state
  includes that of the HSS.\<close>

type_synonym aka_env = "osip_message \<times> time_point \<times> time_point \<times> aka_pending result"

definition aka_offer ::
  "osip_lib \<Rightarrow> string \<Rightarrow> aka_env \<Rightarrow> aka_provider \<times> 'h \<Rightarrow> (aka_provider \<times> 'h) \<times> bool" where
  "aka_offer L home e sh =
     (case e of (req, now, later, w) \<Rightarrow>
        (let (st, b) = aka_canHandleAuthorization L home now req (fst sh) in ((st, snd sh), b)))"

definition aka_challenge_call ::
  "osip_lib \<Rightarrow> 'h hss \<Rightarrow> string \<Rightarrow> aka_env \<Rightarrow> aka_provider \<times> 'h \<Rightarrow> (aka_provider \<times> 'h) \<times> AuthChallenge result" where
  "aka_challenge_call L H home e sh =
     (case e of (req, now, later, w) \<Rightarrow> aka_createChallenge L H home now later w req sh)"

definition aka_verify_call ::
  "osip_lib \<Rightarrow> md5_fun \<Rightarrow> string \<Rightarrow> aka_env \<Rightarrow> aka_provider \<times> 'h \<Rightarrow>
     (aka_provider \<times> 'h) \<times> AuthVerificationResult result" where
  "aka_verify_call L md5 home e sh =
     (case e of (req, now, later, w) \<Rightarrow>
        (let (st, r) = aka_verifyAuthorization L md5 home now req (fst sh) in ((st, snd sh), r)))"

definition aka_pending_count :: "aka_provider \<times> 'h \<Rightarrow> nat" where
  "aka_pending_count sh = length (aka_pending_auth (fst sh))"

lemma aka_purge_length: "length (aka_pending_auth (aka_purgeExpired now st)) \<le> length (aka_pending_auth st)"
  by (simp add: aka_purgeExpired_def length_um_erase_if)

lemma aka_challenge_length:
  assumes "aka_createChallenge L H home now later w req sh = (sh', r)"
  shows "length (aka_pending_auth (fst sh')) \<le> Suc (length (aka_pending_auth (fst sh)))"
    "r = Inl err \<Longrightarrow> length (aka_pending_auth (fst sh')) \<le> length (aka_pending_auth (fst sh))"
proof -
  note p = aka_purge_length [of now "fst sh"]
  have "length (um_put k v (aka_pending_auth (aka_purgeExpired now (fst sh)))) \<le>
      Suc (length (aka_pending_auth (fst sh)))" for k v
    by (rule order_trans [OF length_um_put]) (use p in simp)
  then show "length (aka_pending_auth (fst sh')) \<le> Suc (length (aka_pending_auth (fst sh)))"
    "r = Inl err \<Longrightarrow> length (aka_pending_auth (fst sh')) \<le> length (aka_pending_auth (fst sh))"
    using assms p
    by (auto simp: aka_createChallenge_def aka_begin_challenge_def aka_finish_challenge_def Let_def
        split: prod.splits option.splits if_splits sum.splits)
qed

lemma aka_verify_cases:
  "aka_verifyAuthorization L md5 home now req st = (st', r) \<Longrightarrow>
   (case r of Inl _ \<Rightarrow> st' = st \<or> st' = aka_purgeExpired now st
    | Inr v \<Rightarrow> \<exists>h p k q. getHeader L ''Authorization'' req = Some h \<and> parseAuthorization h = Inr p \<and>
        findPendingForAuthorization L home (callId req) (da_username p) (aka_purgeExpired now st) = Some (k, q) \<and>
        verifyResponse md5 h (ap_vector q) (message_method req) (ap_scheme q) \<and>
        um_find (aka_pending_auth (aka_purgeExpired now st)) k \<noteq> None \<and>
        aka_pending_auth st' = um_erase k (aka_pending_auth (aka_purgeExpired now st)) \<and>
        vr_impi v = ap_impi q \<and> vr_impu v = ap_impu q)"
  by (auto simp: aka_verifyAuthorization_def aka_commit_def Let_def split: option.splits sum.splits if_splits)

interpretation aka: auth_provider "aka_offer L home" "aka_challenge_call L (H :: 'h hss) home" "aka_verify_call L md5 home"
  aka_pending_count
proof unfold_locales
  fix e :: aka_env and s s' :: "aka_provider \<times> 'h" and err r
  obtain req now later w where e: "e = (req, now, later, w)" by (metis prod_cases4)
  note p = aka_purge_length [of now "fst s"]
  show "aka_pending_count (fst (aka_offer L home e s)) \<le> aka_pending_count s"
    using p by (auto simp: e aka_offer_def aka_pending_count_def aka_canHandleAuthorization_def Let_def
        split: option.split sum.split)
  show "aka_pending_count (fst (aka_challenge_call L H home e s)) \<le> Suc (aka_pending_count s)"
    using aka_challenge_length(1) [of L H home now later w req s]
    by (simp add: e aka_challenge_call_def aka_pending_count_def prod_eq_iff)
  show "aka_challenge_call L H home e s = (s', Inl err) \<Longrightarrow> aka_pending_count s' \<le> aka_pending_count s"
    using aka_challenge_length(2) [of L H home now later w req s s' "Inl err"]
    by (simp add: e aka_challenge_call_def aka_pending_count_def)
  show "aka_verify_call L md5 home e s = (s', Inl err) \<Longrightarrow> aka_pending_count s' \<le> aka_pending_count s"
    using aka_verify_cases [of L md5 home now req "fst s" "fst s'" "Inl err"] p
    by (auto simp: e aka_verify_call_def aka_pending_count_def split: prod.splits)
  show "aka_verify_call L md5 home e s = (s', Inr r) \<Longrightarrow> aka_pending_count s' < aka_pending_count s"
    using aka_verify_cases [of L md5 home now req "fst s" "fst s'" "Inr r"] p
    by (auto simp: e aka_verify_call_def aka_pending_count_def split: prod.splits dest!: length_um_erase)
qed

subsection \<open>Properties\<close>

lemma um_find_erase_if_None: "um_find m k = None \<Longrightarrow> um_find (um_erase_if P m) k = None"
  unfolding um_erase_if_def by (induction m) (auto split: if_splits)

text \<open>C7: An accepted digest response cannot be replayed: the request that was accepted, presented
  again at any time, is answered with the error on which the registrar issues a new
  challenge.\<close>

theorem accepted_digest_is_not_replayed:
  assumes "digest_verifyAuthorization L md5 CS now req m = (m', Inr r)"
  shows "snd (digest_verifyAuthorization L md5 CS later req m') = Inl (auth_failed no_pending)"
proof -
  from digest_verify_cases [OF assms] obtain h p c where
      h: "getHeader L ''Authorization'' req = Some h" "parseAuthorization h = Inr p"
      "CS_findByUsername CS (da_username p) (da_realm p) = Inr (Some c)"
    and m': "m' = um_erase (digest_makePendingKey L (callId req) (dc_impi c)) (digest_purgeExpired now m)"
    by auto
  have "um_find (digest_purgeExpired later m') (digest_makePendingKey L (callId req) (dc_impi c)) = None"
    unfolding digest_purgeExpired_def by (rule um_find_erase_if_None) (simp add: m' um_lookup)
  with h show ?thesis by (simp add: digest_verifyAuthorization_def Let_def)
qed

definition demo_credential :: DigestCredential where
  "demo_credential = \<lparr>dc_username = ''alice'', dc_realm = ''ims.local'', dc_password = ''p'',
     dc_impi = ''alice@ims.local'', dc_impu = ''sip:alice@ims.local'', dc_associated_impus = []\<rparr>"

definition demo_credentials :: credential_store where
  "demo_credentials = \<lparr>CS_findByUsername = (\<lambda>u r. Inr (Some demo_credential)),
     CS_findByIdentity = (\<lambda>i. Inr (Some demo_credential))\<rparr>"

definition demo_login :: DigestAuthFields where
  "demo_login = \<lparr>da_username = ''alice'', da_realm = ''ims.local'', da_nonce = ''n'',
     da_response = [], da_uri = ''sip:ims.local'', da_algorithm = ''MD5'', da_qop = [],
     da_nc = [], da_cnonce = []\<rparr>"

definition demo_digest_fields :: DigestAuthFields where
  "demo_digest_fields =
     demo_login\<lparr>da_response := the (digest_response demo_md5 demo_login ''p'' ''REGISTER'')\<rparr>"

definition demo_authorized :: "DigestAuthFields \<Rightarrow> osip_message" where
  "demo_authorized p = empty_message\<lparr>m_method := Some ''REGISTER'',
     m_call_id := Some \<lparr>cid_number = Some ''c'', cid_host = None\<rparr>,
     m_authorizations := [\<lparr>auth_opaque = client_header p\<rparr>]\<rparr>"

lemma lowercase_Authorization: "lowercase ''Authorization'' = ''authorization''"
  by code_simp

lemma demo_authorized_header: "getHeader demo_lib ''Authorization'' (demo_authorized p) = Some (client_header p)"
proof -
  have "client_header p \<noteq> []" by (simp add: client_header_def render_digest_def)
  then show ?thesis
    by (simp add: getHeader_def getHeaders_def lowercase_Authorization
      demo_authorized_def empty_message_def authorization_to_string_def demo_lib_def nonempty_def)
qed

definition demo_digest_table :: digest_table where
  "demo_digest_table = [(digest_makePendingKey demo_lib ''c'' ''alice@ims.local'',
     \<lparr>dp_nonce = ''n'', dp_credential = demo_credential, dp_expires_at = 100\<rparr>)]"

lemma demo_digest_fields_ok:
  "parseAuthorization (client_header demo_digest_fields) = Inr demo_digest_fields"
  "verifyDigestPassword demo_md5 (client_header demo_digest_fields) ''p'' ''REGISTER'' ''n''"
proof -
  have r: "digest_response demo_md5 demo_login ''p'' ''REGISTER'' \<noteq> None"
    by (simp add: digest_response_def demo_login_def Let_def)
  then obtain e x where e: "digest_response demo_md5 demo_login ''p'' ''REGISTER'' = Some e" "e = md5Hex demo_md5 x"
    by (auto simp: digest_response_def Let_def split: if_splits)
  have "e \<noteq> []" using md5Hex_nonempty [of demo_md5 x] by (simp add: e(2) demo_md5_def)
  have "comma_free demo_digest_fields"
    by (simp add: comma_free_def demo_digest_fields_def demo_login_def e(1)[unfolded demo_login_def] e(2) md5Hex_comma_free)
  then show p: "parseAuthorization (client_header demo_digest_fields) = Inr demo_digest_fields"
    by (rule client_header_parses) (simp add: demo_digest_fields_def demo_login_def)
  have "digest_response demo_md5 demo_digest_fields ''p'' ''REGISTER'' = Some e"
    using e(1) by (simp add: demo_digest_fields_def digest_response_def cong: if_cong)
  then show "verifyDigestPassword demo_md5 (client_header demo_digest_fields) ''p'' ''REGISTER'' ''n''"
    using \<open>e \<noteq> []\<close> e(1)
    by (simp add: verifyDigestPassword_def p response_matches_def)
      (simp add: demo_digest_fields_def demo_login_def)
qed

lemma accepted_digest_is_not_replayed_witness:
  "snd (digest_verifyAuthorization demo_lib demo_md5 demo_credentials 10 (demo_authorized demo_digest_fields) []) =
     Inl (auth_failed no_pending)"
proof -
  let ?req = "demo_authorized demo_digest_fields"
  have m: "message_method ?req = ''REGISTER''" "callId ?req = ''c''"
    by (simp_all add: message_method_def callId_def demo_authorized_def empty_message_def)
  have "\<exists>r. digest_verifyAuthorization demo_lib demo_md5 demo_credentials 0 ?req demo_digest_table = ([], Inr r)"
    by (simp add: digest_verifyAuthorization_def demo_authorized_header demo_digest_fields_ok m Let_def
        demo_credentials_def digest_purgeExpired_def um_erase_if_def demo_digest_table_def
        demo_credential_def digest_commit_def um_erase_def)
  then show ?thesis using accepted_digest_is_not_replayed by blast
qed

text \<open>C8: Every acceptance of the AKA provider spends a challenge of its own: in any sequence of calls, on
  any terminals and with any HSS, the number of accepted authorisations is at most the number of
  challenges handed out plus those pending at the start.\<close>

theorem acceptances_are_paid_for:
  assumes "auth_run (aka_offer L home) (aka_challenge_call L (H :: 'h hss) home) (aka_verify_call L md5 home)
    calls (0, 0) s = ((accepted, issued), s')"
  shows "accepted \<le> issued + aka_pending_count s"
  using aka.acceptances_spend_challenges [OF assms] by simp

lemma acceptances_are_paid_for_witness:
  "fst (fst (auth_run (aka_offer demo_lib ''ims.local'')
     (aka_challenge_call demo_lib (stub_hss demo_lib (\<lambda>g. (replicate 16 0, g)) demo_config) ''ims.local'')
     (aka_verify_call demo_lib demo_md5 ''ims.local'')
     [Verify (demo_authorized demo_digest_fields, 0, 0, Inl (auth_failed []))] (0, 0)
     (\<lparr>aka_pending_auth = [], aka_in_flight = []\<rparr>, ()))) \<le> 0"
proof -
  let ?s = "(\<lparr>aka_pending_auth = [], aka_in_flight = []\<rparr>, ())"
  let ?r = "auth_run (aka_offer demo_lib ''ims.local'')
     (aka_challenge_call demo_lib (stub_hss demo_lib (\<lambda>g. (replicate 16 0, g)) demo_config) ''ims.local'')
     (aka_verify_call demo_lib demo_md5 ''ims.local'')
     [Verify (demo_authorized demo_digest_fields, 0, 0, Inl (auth_failed []))] (0, 0) ?s"
  have "?r = ((fst (fst ?r), snd (fst ?r)), snd ?r)" by simp
  from acceptances_are_paid_for [OF this] have "fst (fst ?r) \<le> snd (fst ?r) + 0"
    by (simp add: aka_pending_count_def)
  moreover have "snd (fst ?r) = 0" by (simp add: Let_def case_prod_beta)
  ultimately show ?thesis by simp
qed

end
