(* ===== verification/Memory_Store.thy ===== *)
theory Memory_Store
  imports Uri_Utils Umap
begin

section \<open>The registration store (sip/store.hpp, sip/memory_store.cpp)\<close>

text \<open>
  The state is the hash table \<^verbatim>\<open>bindings_\<close> from public identities to registration
  bindings.  Every public operation holds the mutex, so each is one atomic step; the clock
  readings it makes are arguments.  An iterator into the table is the key it points to, with
  \<^theory_text>\<open>None\<close> for \<^verbatim>\<open>end()\<close>; a set of identities is the list an iteration over it
  yields.
\<close>

subsection \<open>Data\<close>

record ContactBinding =
  contact_uri :: string
  instance_id :: string
  reg_id :: string
  path :: string
  expires :: time_point
  q_value :: "16 word"
  user_agent :: string
  cb_call_id :: string
  cb_cseq :: "32 word"

datatype RegState = kRegistered | kUnregistered | kNotRegistered

record RegistrationBinding =
  impu :: string
  impi :: string
  scscf_uri :: string
  contacts :: "ContactBinding list"
  reg_state :: RegState

definition active_contacts :: "time_point \<Rightarrow> RegistrationBinding \<Rightarrow> ContactBinding list" where
  "active_contacts now b = filter (\<lambda>c. now < expires c) (contacts b)"

record ContactBindingSelector =
  normalized_contact_uri :: string
  sel_instance_id :: string
  sel_reg_id :: string

definition uses_instance_and_reg_id :: "ContactBindingSelector \<Rightarrow> bool" where
  "uses_instance_and_reg_id s \<longleftrightarrow> sel_instance_id s \<noteq> [] \<and> sel_reg_id s \<noteq> []"

record ContactBatchUpsert =
  bu_impus :: "string list"
  bu_selector :: ContactBindingSelector
  bu_contact :: ContactBinding
  bu_impi :: string
  bu_scscf_uri :: string
  bu_state :: RegState
  bu_require_existing_match :: bool
  bu_reject_older_cseq :: bool

record ContactBatchRemove =
  br_impus :: "string list"
  br_selector :: ContactBindingSelector
  br_call_id :: string
  br_cseq :: "32 word"
  br_reject_older_cseq :: bool

type_synonym bindings = "(string, RegistrationBinding) umap"

subsection \<open>Operations\<close>

definition normalizeContactUri :: "string \<Rightarrow> string" where
  "normalizeContactUri u = extract_uri_from_name_addr u"

definition matchesSelector :: "ContactBinding \<Rightarrow> ContactBindingSelector \<Rightarrow> bool" where
  "matchesSelector c sel =
     (if uses_instance_and_reg_id sel
      then instance_id c = sel_instance_id sel \<and> reg_id c = sel_reg_id sel
      else normalizeContactUri (contact_uri c) = normalized_contact_uri sel)"

text \<open>Removing the expired contacts; a binding left empty is erased, and then the iterator
  returned is the one \<^verbatim>\<open>erase\<close> returns.\<close>

definition prune_contacts :: "time_point \<Rightarrow> RegistrationBinding \<Rightarrow> RegistrationBinding" where
  "prune_contacts now b = b\<lparr>contacts := filter (\<lambda>c. \<not> expires c \<le> now) (contacts b)\<rparr>"

definition pruneExpiredLocked :: "time_point \<Rightarrow> string \<Rightarrow> bindings \<Rightarrow> bindings \<times> string option" where
  "pruneExpiredLocked now k m =
     (case um_find m k of
        None \<Rightarrow> (m, None)
      | Some b \<Rightarrow>
          (let b' = prune_contacts now b in
           if contacts b' = [] then (um_erase k m, um_next k m)
           else (um_put k b' m, Some k)))"

definition store :: "RegistrationBinding \<Rightarrow> bindings \<Rightarrow> bindings" where
  "store b m = um_put (impu b) b m"

definition registration_not_found :: "string \<Rightarrow> ErrorInfo" where
  "registration_not_found k =
     mk_error kRegistrationNotFound (''Registration not found for IMPU: '' @ k) []"

definition lookup :: "time_point \<Rightarrow> string \<Rightarrow> bindings \<Rightarrow> bindings \<times> RegistrationBinding result" where
  "lookup now k m =
     (let (m', it) = pruneExpiredLocked now k m in
      case it of
        None \<Rightarrow> (m', Inl (registration_not_found k))
      | Some k' \<Rightarrow>
          (case um_find m' k' of
             Some b \<Rightarrow> (m', Inr b)
           | None \<Rightarrow> (m', Inl (mk_error kInternalError ''dangling iterator'' []))))"

fun replace_first :: "('a \<Rightarrow> bool) \<Rightarrow> 'a \<Rightarrow> 'a list \<Rightarrow> 'a list" where
  "replace_first P y [] = []"
| "replace_first P y (x # xs) = (if P x then y # xs else x # replace_first P y xs)"

definition upsertContactLocked ::
  "string \<Rightarrow> ContactBindingSelector \<Rightarrow> ContactBinding \<Rightarrow> string \<Rightarrow> string \<Rightarrow> RegState \<Rightarrow> bool \<Rightarrow> bool \<Rightarrow>
   bindings \<Rightarrow> bindings \<times> bool" where
  "upsertContactLocked key sel contact impi' scscf' st require_match reject_older m =
     (if um_find m key = None \<and> require_match then (m, False)
      else
        (let binding0 = (case um_find m key of
                           Some b \<Rightarrow> b
                         | None \<Rightarrow> \<lparr>impu = key, impi = impi', scscf_uri = scscf', contacts = [],
                                    reg_state = st\<rparr>);
             binding1 = binding0\<lparr>impi := (if impi' \<noteq> [] then impi' else impi binding0),
                                 scscf_uri := (if scscf' \<noteq> [] then scscf' else scscf_uri binding0),
                                 reg_state := st\<rparr>;
             P = (\<lambda>c. matchesSelector c sel)
         in case find P (contacts binding1) of
              None \<Rightarrow>
                if require_match then (um_put key binding1 m, False)
                else (um_put key (binding1\<lparr>contacts := contacts binding1 @ [contact]\<rparr>) m, True)
            | Some existing \<Rightarrow>
                if reject_older \<and> cb_call_id existing = cb_call_id contact
                   \<and> cb_cseq contact < cb_cseq existing
                then (um_put key binding1 m, True)
                else (um_put key
                       (binding1\<lparr>contacts := replace_first P contact (contacts binding1)\<rparr>) m, True)))"

definition keep_on_remove ::
  "ContactBindingSelector \<Rightarrow> string \<Rightarrow> 32 word \<Rightarrow> bool \<Rightarrow> ContactBinding \<Rightarrow> bool" where
  "keep_on_remove sel call_id cseq reject_older c \<longleftrightarrow>
     \<not> matchesSelector c sel \<or> (reject_older \<and> cb_call_id c = call_id \<and> cseq < cb_cseq c)"

definition removeContactLocked ::
  "string \<Rightarrow> ContactBindingSelector \<Rightarrow> string \<Rightarrow> 32 word \<Rightarrow> bool \<Rightarrow> bindings \<Rightarrow> bindings \<times> bool" where
  "removeContactLocked key sel call_id cseq reject_older m =
     (case um_find m key of
        None \<Rightarrow> (m, False)
      | Some b \<Rightarrow>
          (let cs = filter (keep_on_remove sel call_id cseq reject_older) (contacts b) in
           if length cs = length (contacts b) then (m, False)
           else if cs = [] then (um_erase key m, True)
           else (um_put key (b\<lparr>contacts := cs, reg_state := kRegistered\<rparr>) m, True)))"

definition upsertContact ::
  "time_point \<Rightarrow> string \<Rightarrow> ContactBindingSelector \<Rightarrow> ContactBinding \<Rightarrow> string \<Rightarrow> string \<Rightarrow> RegState \<Rightarrow>
   bool \<Rightarrow> bool \<Rightarrow> bindings \<Rightarrow> bindings \<times> bool" where
  "upsertContact now key sel contact impi' scscf' st require_match reject_older m =
     upsertContactLocked key sel contact impi' scscf' st require_match reject_older
       (fst (pruneExpiredLocked now key m))"

definition removeContact :: "time_point \<Rightarrow> string \<Rightarrow> ContactBindingSelector \<Rightarrow> bindings \<Rightarrow> bindings \<times> bool" where
  "removeContact now key sel m =
     removeContactLocked key sel [] 0 False (fst (pruneExpiredLocked now key m))"

text \<open>The clock is read once for each identity that is pruned: \<^verbatim>\<open>clk k\<close> is the reading
  made while pruning \<^verbatim>\<open>k\<close>.\<close>

definition prune_all :: "(string \<Rightarrow> time_point) \<Rightarrow> string list \<Rightarrow> bindings \<Rightarrow> bindings" where
  "prune_all clk ks m = fold (\<lambda>k m. fst (pruneExpiredLocked (clk k) k m)) ks m"

definition upsert_one :: "ContactBatchUpsert \<Rightarrow> string \<Rightarrow> bindings \<Rightarrow> bindings \<times> bool" where
  "upsert_one b k m =
     upsertContactLocked k (bu_selector b) (bu_contact b) (bu_impi b) (bu_scscf_uri b)
       (bu_state b) (bu_require_existing_match b) (bu_reject_older_cseq b) m"

fun upsert_loop :: "ContactBatchUpsert \<Rightarrow> string list \<Rightarrow> nat \<Rightarrow> bindings \<Rightarrow> bindings \<times> nat" where
  "upsert_loop b [] changed m = (m, changed)"
| "upsert_loop b (k # ks) changed m =
     (let (m', ok) = upsert_one b k m in
      if \<not> ok then (m', 0) else upsert_loop b ks (Suc changed) m')"

definition has_match :: "ContactBindingSelector \<Rightarrow> string \<Rightarrow> bindings \<Rightarrow> bool" where
  "has_match sel k m =
     (case um_find m k of None \<Rightarrow> False | Some b \<Rightarrow> list_ex (\<lambda>c. matchesSelector c sel) (contacts b))"

definition upsertContacts ::
  "(string \<Rightarrow> time_point) \<Rightarrow> ContactBatchUpsert \<Rightarrow> bindings \<Rightarrow> bindings \<times> nat" where
  "upsertContacts clk b m =
     (let m1 = prune_all clk (bu_impus b) m in
      if bu_require_existing_match b \<and> \<not> list_all (\<lambda>k. has_match (bu_selector b) k m1) (bu_impus b)
      then (m1, 0)
      else upsert_loop b (bu_impus b) 0 m1)"

fun remove_loop :: "ContactBatchRemove \<Rightarrow> string list \<Rightarrow> nat \<Rightarrow> bindings \<Rightarrow> bindings \<times> nat" where
  "remove_loop b [] removed m = (m, removed)"
| "remove_loop b (k # ks) removed m =
     (let (m', ok) = removeContactLocked k (br_selector b) (br_call_id b) (br_cseq b)
                       (br_reject_older_cseq b) m in
      remove_loop b ks (if ok then Suc removed else removed) m')"

definition removeContacts ::
  "(string \<Rightarrow> time_point) \<Rightarrow> ContactBatchRemove \<Rightarrow> bindings \<Rightarrow> bindings \<times> nat" where
  "removeContacts clk b m = remove_loop b (br_impus b) 0 (prune_all clk (br_impus b) m)"

fun remove_bindings_loop :: "string list \<Rightarrow> nat \<Rightarrow> bindings \<Rightarrow> bindings \<times> nat" where
  "remove_bindings_loop [] removed m = (m, removed)"
| "remove_bindings_loop (k # ks) removed m =
     remove_bindings_loop ks (if um_find m k \<noteq> None then Suc removed else removed) (um_erase k m)"

definition removeBindings :: "string list \<Rightarrow> bindings \<Rightarrow> bindings \<times> nat" where
  "removeBindings ks m = remove_bindings_loop ks 0 m"

definition remove :: "string \<Rightarrow> bindings \<Rightarrow> bindings" where
  "remove k m = (case um_find m k of None \<Rightarrow> m | Some _ \<Rightarrow> um_erase k m)"

fun purgeExpired :: "time_point \<Rightarrow> bindings \<Rightarrow> bindings \<times> nat" where
  "purgeExpired now [] = ([], 0)"
| "purgeExpired now ((k, b) # m) =
     (let b' = prune_contacts now b;
          (m', n) = purgeExpired now m;
          n' = n + (length (contacts b) - length (contacts b')) in
      if contacts b' = [] then (m', n') else ((k, b') # m', n'))"

definition isRegistered :: "time_point \<Rightarrow> string \<Rightarrow> bindings \<Rightarrow> bindings \<times> bool" where
  "isRegistered now k m =
     (let (m', it) = pruneExpiredLocked now k m in
      case it of
        None \<Rightarrow> (m', False)
      | Some k' \<Rightarrow>
          (case um_find m' k' of
             Some b \<Rightarrow> (m', reg_state b = kRegistered \<and> contacts b \<noteq> [])
           | None \<Rightarrow> (m', False)))"

subsection \<open>Well-formed stores\<close>

definition store_wf :: "bindings \<Rightarrow> bool" where
  "store_wf m \<longleftrightarrow> um_wf m \<and> (\<forall>k b. um_find m k = Some b \<longrightarrow> impu b = k)"

lemma store_wf_um [simp, intro]: "store_wf m \<Longrightarrow> um_wf m"
  by (simp add: store_wf_def)

lemma store_wf_put: "store_wf m \<Longrightarrow> impu b = k \<Longrightarrow> store_wf (um_put k b m)"
  by (auto simp: store_wf_def um_find_put um_wf_put)

lemma store_wf_erase: "store_wf m \<Longrightarrow> store_wf (um_erase k m)"
  by (auto simp: store_wf_def um_find_erase um_wf_erase split: if_splits)

lemma store_wf_find: "store_wf m \<Longrightarrow> um_find m k = Some b \<Longrightarrow> impu b = k"
  by (simp add: store_wf_def)

lemma impu_prune [simp]: "impu (prune_contacts now b) = impu b"
  by (simp add: prune_contacts_def)

lemma contacts_prune [simp]: "contacts (prune_contacts now b) = active_contacts now b"
  by (simp add: prune_contacts_def active_contacts_def not_le)

lemma store_wf_prune: "store_wf m \<Longrightarrow> store_wf (fst (pruneExpiredLocked now k m))"
  by (auto simp: pruneExpiredLocked_def Let_def store_wf_find intro!: store_wf_put store_wf_erase
      split: option.split)

lemma store_wf_prune_all: "store_wf m \<Longrightarrow> store_wf (prune_all clk ks m)"
  unfolding prune_all_def by (induction ks arbitrary: m) (simp_all add: store_wf_prune)

lemma store_wf_upsert_locked:
  "store_wf m \<Longrightarrow> store_wf (fst (upsertContactLocked k sel c i u st r o' m))"
  by (auto simp: upsertContactLocked_def Let_def store_wf_find intro!: store_wf_put
      split: option.splits)

lemma store_wf_upsert_loop: "store_wf m \<Longrightarrow> store_wf (fst (upsert_loop b ks n m))"
  by (induction ks arbitrary: n m)
    (simp_all add: Let_def case_prod_beta upsert_one_def store_wf_upsert_locked)

lemma store_wf_remove_locked: "store_wf m \<Longrightarrow> store_wf (fst (removeContactLocked k sel ci cs o' m))"
  by (auto simp: removeContactLocked_def Let_def store_wf_find intro!: store_wf_put store_wf_erase
      split: option.splits)

lemma store_wf_remove_loop: "store_wf m \<Longrightarrow> store_wf (fst (remove_loop b ks n m))"
  by (induction b ks n m rule: remove_loop.induct)
    (simp_all add: Let_def case_prod_beta store_wf_remove_locked)

lemma store_wf_remove_bindings: "store_wf m \<Longrightarrow> store_wf (fst (remove_bindings_loop ks n m))"
  by (induction ks n m rule: remove_bindings_loop.induct) (simp_all add: store_wf_erase)

lemma set_purgeExpired:
  "set (fst (purgeExpired now m)) =
     {(k, prune_contacts now b) | k b. (k, b) \<in> set m \<and> active_contacts now b \<noteq> []}"
  by (induction now m rule: purgeExpired.induct) (auto simp: Let_def case_prod_beta)

lemma keys_purgeExpired:
  "um_wf m \<Longrightarrow> um_wf (fst (purgeExpired now m))"
proof (induction now m rule: purgeExpired.induct)
  case (2 now k b m)
  have "k \<notin> fst ` set (fst (purgeExpired now m))"
    using "2.prems" by (force simp: um_wf_def set_purgeExpired)
  with 2 show ?case by (auto simp: Let_def case_prod_beta um_wf_def)
qed simp

lemma find_purgeExpired:
  assumes "um_wf m"
  shows "um_find (fst (purgeExpired now m)) k =
    (case um_find m k of None \<Rightarrow> None
     | Some b \<Rightarrow> if active_contacts now b = [] then None else Some (prune_contacts now b))"
proof (cases "um_find m k")
  case None
  then have "k \<notin> fst ` set (fst (purgeExpired now m))"
    by (force simp: set_purgeExpired map_of_eq_None_iff)
  then have "um_find (fst (purgeExpired now m)) k = None" by (simp add: map_of_eq_None_iff)
  with None show ?thesis by simp
next
  case (Some b)
  then have b: "(k, b') \<in> set m \<longleftrightarrow> b' = b" for b'
    using assms by (auto simp: um_wf_in)
  show ?thesis
  proof (cases "active_contacts now b = []")
    case True
    then have "k \<notin> fst ` set (fst (purgeExpired now m))"
      using b by (force simp: set_purgeExpired)
    then have "um_find (fst (purgeExpired now m)) k = None" by (simp add: map_of_eq_None_iff)
    with Some True show ?thesis by simp
  next
    case False
    then have "(k, prune_contacts now b) \<in> set (fst (purgeExpired now m))"
      using b by (auto simp: set_purgeExpired)
    with Some False show ?thesis by (simp add: um_wf_in keys_purgeExpired assms)
  qed
qed

lemma store_wf_purge: "store_wf m \<Longrightarrow> store_wf (fst (purgeExpired now m))"
  by (auto simp: store_wf_def keys_purgeExpired find_purgeExpired split: option.splits if_splits)

text \<open>The states the operations reach from the empty store.\<close>

inductive store_reachable :: "bindings \<Rightarrow> bool" where
  init: "store_reachable []"
| store: "store_reachable m \<Longrightarrow> store_reachable (store b m)"
| lookup: "store_reachable m \<Longrightarrow> store_reachable (fst (lookup now k m))"
| upsertContact: "store_reachable m \<Longrightarrow>
    store_reachable (fst (upsertContact now k sel c i u st r rj m))"
| removeContact: "store_reachable m \<Longrightarrow> store_reachable (fst (removeContact now k sel m))"
| upsertContacts: "store_reachable m \<Longrightarrow> store_reachable (fst (upsertContacts clk bu m))"
| removeContacts: "store_reachable m \<Longrightarrow> store_reachable (fst (removeContacts clk br m))"
| removeBindings: "store_reachable m \<Longrightarrow> store_reachable (fst (removeBindings ks m))"
| remove: "store_reachable m \<Longrightarrow> store_reachable (remove k m)"
| purgeExpired: "store_reachable m \<Longrightarrow> store_reachable (fst (purgeExpired now m))"
| isRegistered: "store_reachable m \<Longrightarrow> store_reachable (fst (isRegistered now k m))"

lemma fst_lookup [simp]: "fst (lookup now k m) = fst (pruneExpiredLocked now k m)"
  by (simp add: lookup_def case_prod_beta split: option.split)

lemma fst_isRegistered [simp]: "fst (isRegistered now k m) = fst (pruneExpiredLocked now k m)"
  by (simp add: isRegistered_def case_prod_beta split: option.split)

lemma store_wf_upsertContacts: "store_wf m \<Longrightarrow> store_wf (fst (upsertContacts clk b m))"
  by (simp add: upsertContacts_def Let_def store_wf_prune_all store_wf_upsert_loop)

lemma store_wf_removeContacts: "store_wf m \<Longrightarrow> store_wf (fst (removeContacts clk b m))"
  by (simp add: removeContacts_def store_wf_prune_all store_wf_remove_loop)

lemma store_wf_removeBindings: "store_wf m \<Longrightarrow> store_wf (fst (removeBindings ks m))"
  by (simp add: removeBindings_def store_wf_remove_bindings)

lemmas store_wf_ops =
  store_wf_prune store_wf_upsert_locked store_wf_remove_locked store_wf_upsertContacts
  store_wf_removeContacts store_wf_removeBindings store_wf_purge

lemma store_reachable_wf: "store_reachable m \<Longrightarrow> store_wf m"
proof (induction rule: store_reachable.induct)
  case init
  show ?case by (simp add: store_wf_def)
next
  case (store m b)
  then show ?case by (simp add: store_def store_wf_put)
next
  case (remove m k)
  then show ?case by (simp add: remove_def store_wf_erase split: option.split)
qed (simp_all add: store_wf_ops upsertContact_def removeContact_def)

subsection \<open>What a store promises: the contacts that are active\<close>

text \<open>The abstract store: for each identity, the contacts that have not expired.\<close>

definition active :: "time_point \<Rightarrow> bindings \<Rightarrow> string \<Rightarrow> ContactBinding list" where
  "active now m k = (case um_find m k of None \<Rightarrow> [] | Some b \<Rightarrow> active_contacts now b)"

lemma active_contacts_prune [simp]:
  "now \<le> now' \<Longrightarrow> active_contacts now' (prune_contacts now b) = active_contacts now' b"
  by (auto simp: active_contacts_def prune_contacts_def filter_filter intro!: filter_cong)

lemma active_contacts_mono:
  "now \<le> now' \<Longrightarrow> active_contacts now b = [] \<Longrightarrow> active_contacts now' b = []"
  by (auto simp: active_contacts_def filter_empty_conv)

lemma find_prune:
  "um_find (fst (pruneExpiredLocked now k m)) k' =
     (if k' = k then
        (case um_find m k of None \<Rightarrow> None
         | Some b \<Rightarrow> if active_contacts now b = [] then None else Some (prune_contacts now b))
      else um_find m k')"
  by (auto simp: pruneExpiredLocked_def Let_def um_find_put um_find_erase split: option.split)

text \<open>Pruning does not change what is active, then or later.\<close>

lemma active_prune: "now \<le> now' \<Longrightarrow> active now' (fst (pruneExpiredLocked now k m)) = active now' m"
  by (rule ext) (auto simp: active_def find_prune active_contacts_mono split: option.split)

lemma find_prune_all_notin: "k \<notin> set ks \<Longrightarrow> um_find (prune_all clk ks m) k = um_find m k"
  unfolding prune_all_def by (induction ks arbitrary: m) (auto simp: find_prune)

lemma active_prune_all:
  "\<forall>k \<in> set ks. clk k \<le> now \<Longrightarrow> active now (prune_all clk ks m) = active now m"
  unfolding prune_all_def by (induction ks arbitrary: m) (simp_all add: active_prune)

lemma lookup_active:
  assumes "store_wf m" "active now m k \<noteq> []"
  shows "\<exists>b. snd (lookup now k m) = Inr b \<and> impu b = k \<and> contacts b = active now m k"
proof -
  from assms(2) obtain b where b: "um_find m k = Some b" "active_contacts now b \<noteq> []"
    by (auto simp: active_def split: option.splits)
  have "impu b = k" using assms(1) b(1) by (rule store_wf_find)
  with b show ?thesis
    by (simp add: lookup_def pruneExpiredLocked_def um_find_put active_def)
qed

lemma lookup_absent:
  "um_find m k = None \<Longrightarrow>
   lookup now k m = (m, Inl (registration_not_found k))"
  by (simp add: lookup_def pruneExpiredLocked_def)

lemma um_next_find:
  "um_wf m \<Longrightarrow> um_next k m = Some k' \<Longrightarrow> k' \<noteq> k \<and> um_find m k' \<noteq> None"
proof (induction k m rule: um_next.induct)
  case (2 k e m)
  then show ?case
    by (cases "fst e = k"; cases m) (auto simp: um_wf_def map_of_eq_None_iff image_iff)
qed simp

lemma lookup_expired:
  assumes "store_wf m" "um_find m k = Some b" "active now m k = []"
  shows "snd (lookup now k m) =
    (case um_next k m of
       None \<Rightarrow> Inl (registration_not_found k)
     | Some k' \<Rightarrow> Inr (the (um_find m k')))"
proof -
  have "active_contacts now b = []" using assms(2,3) by (simp add: active_def)
  with assms(2) have "lookup now k m = (case um_next k m of
      None \<Rightarrow> (um_erase k m, Inl (registration_not_found k))
    | Some k' \<Rightarrow> (case um_find (um_erase k m) k' of
        Some b \<Rightarrow> (um_erase k m, Inr b)
      | None \<Rightarrow> (um_erase k m, Inl (mk_error kInternalError ''dangling iterator'' []))))"
    by (simp add: lookup_def pruneExpiredLocked_def split: option.split)
  moreover have "um_next k m = Some k' \<Longrightarrow> um_find (um_erase k m) k' = um_find m k' \<and>
      um_find m k' \<noteq> None" for k'
    using um_next_find assms(1) by (fastforce simp: um_find_erase)
  ultimately show ?thesis by (auto split: option.split)
qed

subsection \<open>Inserting and removing contacts\<close>

text \<open>A stored contact that a request must not overwrite: same selector and Call-ID, newer CSeq.\<close>

definition newer_than :: "ContactBindingSelector \<Rightarrow> string \<Rightarrow> 32 word \<Rightarrow> ContactBinding \<Rightarrow> bool" where
  "newer_than sel call_id cseq c \<longleftrightarrow> matchesSelector c sel \<and> cb_call_id c = call_id \<and> cseq < cb_cseq c"

lemma replace_first_find:
  "find P xs = Some x \<Longrightarrow> y \<in> set (replace_first P y xs)"
  by (induction xs) (auto split: if_splits)

lemma find_SomeD: "find P xs = Some x \<Longrightarrow> x \<in> set xs \<and> P x"
  by (induction xs) (auto split: if_splits)

lemma find_None_ex: "find P xs = None \<longleftrightarrow> \<not> list_ex P xs"
  by (induction xs) auto

lemma upsert_locked_other:
  "k' \<noteq> k \<Longrightarrow> um_find (fst (upsertContactLocked k sel c i u st r rj m)) k' = um_find m k'"
  by (auto simp: upsertContactLocked_def Let_def um_find_put split: option.splits)

lemma upsert_locked_true:
  assumes "\<not> r \<or> has_match sel k m"
  shows "snd (upsertContactLocked k sel c i u st r rj m)"
proof (cases "um_find m k")
  case None
  with assms have "\<not> r" by (simp add: has_match_def)
  with None show ?thesis by (simp add: upsertContactLocked_def Let_def)
next
  case (Some b)
  show ?thesis
  proof (cases "find (\<lambda>c. matchesSelector c sel) (contacts b)")
    case None
    with assms Some have "\<not> r" by (simp add: has_match_def find_None_ex)
    with None Some show ?thesis by (simp add: upsertContactLocked_def Let_def)
  next
    case (Some e)
    with \<open>um_find m k = Some b\<close> show ?thesis by (simp add: upsertContactLocked_def Let_def)
  qed
qed

lemma upsert_locked_result:
  assumes "snd (upsertContactLocked k sel c i u st r rj m)"
  shows "\<exists>b. um_find (fst (upsertContactLocked k sel c i u st r rj m)) k = Some b \<and>
    reg_state b = st \<and>
    (c \<in> set (contacts b) \<or>
     rj \<and> (\<exists>c'. c' \<in> set (contacts b) \<and> newer_than sel (cb_call_id c) (cb_cseq c) c'))"
proof -
  define b0 where "b0 = (case um_find m k of Some b \<Rightarrow> b
    | None \<Rightarrow> \<lparr>impu = k, impi = i, scscf_uri = u, contacts = [], reg_state = st\<rparr>)"
  define b1 where "b1 = b0\<lparr>impi := (if i \<noteq> [] then i else impi b0),
    scscf_uri := (if u \<noteq> [] then u else scscf_uri b0), reg_state := st\<rparr>"
  let ?P = "\<lambda>c. matchesSelector c sel"
  have guard: "\<not> (um_find m k = None \<and> r)"
    using assms by (auto simp: upsertContactLocked_def)
  have eq: "upsertContactLocked k sel c i u st r rj m =
      (case find ?P (contacts b1) of
         None \<Rightarrow> if r then (um_put k b1 m, False)
                 else (um_put k (b1\<lparr>contacts := contacts b1 @ [c]\<rparr>) m, True)
       | Some e \<Rightarrow>
           if rj \<and> cb_call_id e = cb_call_id c \<and> cb_cseq c < cb_cseq e
           then (um_put k b1 m, True)
           else (um_put k (b1\<lparr>contacts := replace_first ?P c (contacts b1)\<rparr>) m, True))"
    using guard by (simp only: upsertContactLocked_def Let_def b0_def b1_def if_False)
  have st: "reg_state b1 = st" by (simp add: b1_def)
  show ?thesis
  proof (cases "find ?P (contacts b1)")
    case None
    with assms eq have "\<not> r" by (auto split: if_splits)
    with None eq st show ?thesis by (simp add: um_find_put)
  next
    case (Some e)
    show ?thesis
    proof (cases "rj \<and> cb_call_id e = cb_call_id c \<and> cb_cseq c < cb_cseq e")
      case True
      then have "newer_than sel (cb_call_id c) (cb_cseq c) e" and "e \<in> set (contacts b1)"
        using find_SomeD [OF Some] by (auto simp: newer_than_def)
      with True Some eq st show ?thesis by (auto simp: um_find_put)
    next
      case False
      with Some eq st replace_first_find [OF Some] show ?thesis
        by (auto simp: um_find_put)
    qed
  qed
qed

lemma upsert_loop_other:
  "k \<notin> set ks \<Longrightarrow> um_find (fst (upsert_loop b ks n m)) k = um_find m k"
  by (induction ks arbitrary: n m)
    (auto simp: Let_def case_prod_beta upsert_one_def upsert_locked_other)

lemma has_match_other:
  "k' \<noteq> k \<Longrightarrow> has_match sel k' (fst (upsertContactLocked k sel' c i u st r rj m)) = has_match sel k' m"
  by (simp add: has_match_def upsert_locked_other)

definition upserted :: "ContactBatchUpsert \<Rightarrow> RegistrationBinding \<Rightarrow> bool" where
  "upserted b rb \<longleftrightarrow>
     reg_state rb = bu_state b \<and>
     (bu_contact b \<in> set (contacts rb) \<or>
      bu_reject_older_cseq b \<and>
      (\<exists>c'. c' \<in> set (contacts rb) \<and>
         newer_than (bu_selector b) (cb_call_id (bu_contact b)) (cb_cseq (bu_contact b)) c'))"

lemma upsert_loop_ok:
  assumes "distinct ks"
    and "\<forall>k \<in> set ks. \<not> bu_require_existing_match b \<or> has_match (bu_selector b) k m"
  shows "snd (upsert_loop b ks n m) = n + length ks \<and>
    (\<forall>k \<in> set ks. \<exists>rb. um_find (fst (upsert_loop b ks n m)) k = Some rb \<and> upserted b rb)"
  using assms
proof (induction ks arbitrary: n m)
  case (Cons k ks)
  define m' where "m' = fst (upsert_one b k m)"
  have ok: "snd (upsert_one b k m)"
    unfolding upsert_one_def by (rule upsert_locked_true) (use Cons.prems in simp)
  then have step: "upsert_loop b (k # ks) n m = upsert_loop b ks (Suc n) m'"
    by (simp add: m'_def case_prod_beta Let_def)
  have "\<forall>k' \<in> set ks. has_match (bu_selector b) k' m' = has_match (bu_selector b) k' m"
    using Cons.prems(1) has_match_other unfolding m'_def upsert_one_def by (metis distinct.simps(2))
  then have IH: "snd (upsert_loop b ks (Suc n) m') = Suc n + length ks \<and>
      (\<forall>k \<in> set ks. \<exists>rb. um_find (fst (upsert_loop b ks (Suc n) m')) k = Some rb \<and> upserted b rb)"
    by (intro Cons.IH) (use Cons.prems in auto)
  have "um_find (fst (upsert_loop b ks (Suc n) m')) k = um_find m' k"
    by (rule upsert_loop_other) (use Cons.prems in simp)
  moreover have "\<exists>rb. um_find m' k = Some rb \<and> upserted b rb"
    using upsert_locked_result ok unfolding upsert_one_def m'_def upserted_def by blast
  ultimately show ?case using IH step by auto
qed simp

lemma upsertContacts_ok:
  assumes "distinct (bu_impus b)" "\<not> bu_require_existing_match b"
  shows "snd (upsertContacts clk b m) = length (bu_impus b)"
    and "k \<in> set (bu_impus b) \<Longrightarrow>
      \<exists>rb. um_find (fst (upsertContacts clk b m)) k = Some rb \<and> upserted b rb"
  using upsert_loop_ok [of "bu_impus b" b "prune_all clk (bu_impus b) m" 0] assms
  by (auto simp: upsertContacts_def)

lemma upsertContacts_other:
  "k \<notin> set (bu_impus b) \<Longrightarrow> um_find (fst (upsertContacts clk b m)) k = um_find m k"
  by (simp add: upsertContacts_def Let_def find_prune_all_notin upsert_loop_other)

lemma upsertContacts_atomic:
  assumes "distinct (bu_impus b)" "bu_require_existing_match b"
    and m1: "m1 = prune_all clk (bu_impus b) m"
  shows "(if list_all (\<lambda>k. has_match (bu_selector b) k m1) (bu_impus b)
    then snd (upsertContacts clk b m) = length (bu_impus b) \<and>
      (\<forall>k \<in> set (bu_impus b). \<exists>rb. um_find (fst (upsertContacts clk b m)) k = Some rb \<and> upserted b rb)
    else upsertContacts clk b m = (m1, 0))"
  using upsert_loop_ok [of "bu_impus b" b m1 0] assms(1,2)
  by (auto simp: upsertContacts_def Let_def list_all_iff m1)

lemma remove_locked_other:
  "k' \<noteq> k \<Longrightarrow> um_find (fst (removeContactLocked k sel ci cs rj m)) k' = um_find m k'"
  by (auto simp: removeContactLocked_def Let_def um_find_put um_find_erase split: option.splits)

lemma filter_length_eq: "length (filter P xs) = length xs \<Longrightarrow> filter P xs = xs"
  by (metis filter_True length_filter_less less_irrefl)

text \<open>The contacts a removal leaves are those it must keep.\<close>

definition contacts_of :: "bindings \<Rightarrow> string \<Rightarrow> ContactBinding list" where
  "contacts_of m k = (case um_find m k of None \<Rightarrow> [] | Some b \<Rightarrow> contacts b)"

lemma remove_locked_contacts:
  "contacts_of (fst (removeContactLocked k sel ci cs rj m)) k =
     filter (keep_on_remove sel ci cs rj) (contacts_of m k)"
proof (cases "um_find m k")
  case None
  then show ?thesis by (simp add: removeContactLocked_def contacts_of_def)
next
  case (Some b)
  then show ?thesis
    using filter_length_eq [of "keep_on_remove sel ci cs rj" "contacts b"]
    by (auto simp: removeContactLocked_def contacts_of_def Let_def um_find_put um_find_erase)
qed

lemma remove_loop_contacts:
  assumes "distinct ks"
  shows "contacts_of (fst (remove_loop b ks n m)) k =
    (if k \<in> set ks
     then filter (keep_on_remove (br_selector b) (br_call_id b) (br_cseq b) (br_reject_older_cseq b))
            (contacts_of m k)
     else contacts_of m k)"
  using assms
proof (induction ks arbitrary: n m)
  case (Cons a ks)
  let ?m' = "fst (removeContactLocked a (br_selector b) (br_call_id b) (br_cseq b)
    (br_reject_older_cseq b) m)"
  have "contacts_of ?m' k = contacts_of m k" if "k \<noteq> a"
    using that by (simp add: contacts_of_def remove_locked_other)
  with Cons show ?case
    by (cases "k = a") (auto simp: Let_def case_prod_beta remove_locked_contacts)
qed simp

lemma contacts_prune_all:
  assumes "distinct ks" "k \<in> set ks"
  shows "contacts_of (prune_all clk ks m) k = active (clk k) m k"
  using assms
proof (induction ks arbitrary: m)
  case (Cons a ks)
  let ?m' = "fst (pruneExpiredLocked (clk a) a m)"
  have step: "prune_all clk (a # ks) m = prune_all clk ks ?m'" by (simp add: prune_all_def)
  show ?case
  proof (cases "k = a")
    case True
    then show ?thesis
      using Cons.prems step
      by (auto simp: contacts_of_def find_prune_all_notin find_prune active_def split: option.split)
  next
    case False
    then have "active (clk k) ?m' k = active (clk k) m k" by (simp add: active_def find_prune)
    with False Cons step show ?thesis by simp
  qed
qed simp

lemma removeContacts_contacts:
  assumes "distinct (br_impus b)" "k \<in> set (br_impus b)"
  shows "contacts_of (fst (removeContacts clk b m)) k =
    filter (keep_on_remove (br_selector b) (br_call_id b) (br_cseq b) (br_reject_older_cseq b))
      (active (clk k) m k)"
  using assms by (simp add: removeContacts_def remove_loop_contacts contacts_prune_all)

lemma remove_bindings_find:
  "um_find (fst (remove_bindings_loop ks n m)) k = (if k \<in> set ks then None else um_find m k)"
  by (induction ks n m rule: remove_bindings_loop.induct) (auto simp: um_find_erase)

lemma active_purge:
  assumes "um_wf m" "now \<le> now'"
  shows "active now' (fst (purgeExpired now m)) k = active now' m k"
  using assms by (auto simp: active_def find_purgeExpired active_contacts_mono split: option.split)

lemma purge_count:
  "snd (purgeExpired now m) =
     (\<Sum>(k, b) \<leftarrow> m. length (contacts b) - length (active_contacts now b))"
  by (induction now m rule: purgeExpired.induct) (auto simp: Let_def case_prod_beta)

subsection \<open>The interface the registrar and the session router use\<close>

text \<open>\<^verbatim>\<open>IRegistrationStore\<close>: the operations its clients call, and what they promise.\<close>

locale registration_store =
  fixes st_lookup :: "time_point \<Rightarrow> string \<Rightarrow> 'm \<Rightarrow> 'm \<times> RegistrationBinding result"
    and st_upserts :: "(string \<Rightarrow> time_point) \<Rightarrow> ContactBatchUpsert \<Rightarrow> 'm \<Rightarrow> 'm \<times> nat"
    and st_removes :: "(string \<Rightarrow> time_point) \<Rightarrow> ContactBatchRemove \<Rightarrow> 'm \<Rightarrow> 'm \<times> nat"
    and st_remove_all :: "string list \<Rightarrow> 'm \<Rightarrow> 'm \<times> nat"
    and st_contacts :: "'m \<Rightarrow> string \<Rightarrow> ContactBinding list"
    and st_inv :: "'m \<Rightarrow> bool"
  assumes inv_upserts: "st_inv m \<Longrightarrow> st_inv (fst (st_upserts clk b m))"
    and inv_removes: "st_inv m \<Longrightarrow> st_inv (fst (st_removes clk r m))"
    and inv_remove_all: "st_inv m \<Longrightarrow> st_inv (fst (st_remove_all ks m))"
    and lookup_live:
      "st_inv m \<Longrightarrow> filter (\<lambda>c. now < expires c) (st_contacts m k) \<noteq> [] \<Longrightarrow>
       \<exists>rb. snd (st_lookup now k m) = Inr rb \<and> impu rb = k \<and>
            contacts rb = filter (\<lambda>c. now < expires c) (st_contacts m k)"
    and upserts_contacts:
      "distinct (bu_impus b) \<Longrightarrow> \<not> bu_require_existing_match b \<Longrightarrow> k \<in> set (bu_impus b) \<Longrightarrow>
       bu_contact b \<in> set (st_contacts (fst (st_upserts clk b m)) k) \<or>
       bu_reject_older_cseq b \<and>
       (\<exists>c'. c' \<in> set (st_contacts (fst (st_upserts clk b m)) k) \<and>
          newer_than (bu_selector b) (cb_call_id (bu_contact b)) (cb_cseq (bu_contact b)) c')"
    and removes_contacts:
      "distinct (br_impus r) \<Longrightarrow> k \<in> set (br_impus r) \<Longrightarrow>
       c \<in> set (st_contacts (fst (st_removes clk r m)) k) \<Longrightarrow>
       keep_on_remove (br_selector r) (br_call_id r) (br_cseq r) (br_reject_older_cseq r) c"
    and remove_all_contacts:
      "k \<in> set ks \<Longrightarrow> st_contacts (fst (st_remove_all ks m)) k = []"
begin

text \<open>After a registration an identity can be looked up until the contact expires, unless the
  store holds a newer contact of the same Call-ID.\<close>

lemma register_then_lookup:
  assumes "st_inv m" "distinct (bu_impus b)" "\<not> bu_require_existing_match b"
    and "k \<in> set (bu_impus b)" "now < expires (bu_contact b)"
    and fresh: "\<forall>c' \<in> set (st_contacts (fst (st_upserts clk b m)) k).
      \<not> newer_than (bu_selector b) (cb_call_id (bu_contact b)) (cb_cseq (bu_contact b)) c'"
  shows "\<exists>rb. snd (st_lookup now k (fst (st_upserts clk b m))) = Inr rb \<and> impu rb = k \<and>
    bu_contact b \<in> set (contacts rb)"
proof -
  let ?m = "fst (st_upserts clk b m)"
  have "bu_contact b \<in> set (st_contacts ?m k)"
    using upserts_contacts [OF assms(2-4)] fresh by blast
  then have c: "bu_contact b \<in> set (filter (\<lambda>c. now < expires c) (st_contacts ?m k))"
    using assms(5) by simp
  then have ne: "filter (\<lambda>c. now < expires c) (st_contacts ?m k) \<noteq> []" by (metis empty_iff empty_set)
  show ?thesis using lookup_live [OF inv_upserts [OF assms(1)] ne] c by metis
qed

text \<open>A de-registration leaves no contact of the selected terminal but newer ones.\<close>

lemma deregister_only_newer:
  assumes "distinct (br_impus r)" "k \<in> set (br_impus r)"
    and "c \<in> set (st_contacts (fst (st_removes clk r m)) k)" "matchesSelector c (br_selector r)"
  shows "br_reject_older_cseq r \<and> cb_call_id c = br_call_id r \<and> br_cseq r < cb_cseq c"
  using removes_contacts [OF assms(1-3)] assms(4) by (auto simp: keep_on_remove_def)

end

lemma contacts_of_active: "filter (\<lambda>c. now < expires c) (contacts_of m k) = active now m k"
  by (simp add: contacts_of_def active_def active_contacts_def split: option.split)

interpretation mem: registration_store lookup upsertContacts removeContacts removeBindings
  contacts_of store_wf
proof unfold_locales
  fix m :: bindings and clk and b :: ContactBatchUpsert and r :: ContactBatchRemove and ks :: "string list"
  assume "store_wf m"
  then show "store_wf (fst (upsertContacts clk b m))" "store_wf (fst (removeContacts clk r m))"
    "store_wf (fst (removeBindings ks m))"
    by (simp_all add: store_wf_ops)
next
  fix m :: bindings and now k
  assume "store_wf m" "filter (\<lambda>c. now < expires c) (contacts_of m k) \<noteq> []"
  then show "\<exists>rb. snd (lookup now k m) = Inr rb \<and> impu rb = k \<and>
      contacts rb = filter (\<lambda>c. now < expires c) (contacts_of m k)"
    using lookup_active by (simp add: contacts_of_active)
next
  fix b :: ContactBatchUpsert and k clk and m :: bindings
  assume "distinct (bu_impus b)" "\<not> bu_require_existing_match b" "k \<in> set (bu_impus b)"
  then show "bu_contact b \<in> set (contacts_of (fst (upsertContacts clk b m)) k) \<or>
       bu_reject_older_cseq b \<and>
       (\<exists>c'. c' \<in> set (contacts_of (fst (upsertContacts clk b m)) k) \<and>
          newer_than (bu_selector b) (cb_call_id (bu_contact b)) (cb_cseq (bu_contact b)) c')"
    using upsertContacts_ok(2) [of b k clk m] by (auto simp: contacts_of_def upserted_def)
next
  fix r :: ContactBatchRemove and k c clk and m :: bindings
  assume "distinct (br_impus r)" "k \<in> set (br_impus r)"
    "c \<in> set (contacts_of (fst (removeContacts clk r m)) k)"
  then show "keep_on_remove (br_selector r) (br_call_id r) (br_cseq r) (br_reject_older_cseq r) c"
    by (simp add: removeContacts_contacts)
next
  fix k :: string and ks and m :: bindings
  assume "k \<in> set ks"
  then show "contacts_of (fst (removeBindings ks m)) k = []"
    by (simp add: removeBindings_def contacts_of_def remove_bindings_find)
qed

subsection \<open>Properties\<close>

definition demo_contact :: "time_point \<Rightarrow> 32 word \<Rightarrow> ContactBinding" where
  "demo_contact e cs = \<lparr>contact_uri = ''<sip:u@h>'', instance_id = [], reg_id = [], path = [],
     expires = e, q_value = 1000, user_agent = [], cb_call_id = ''c1'', cb_cseq = cs\<rparr>"

definition demo_selector :: ContactBindingSelector where
  "demo_selector = \<lparr>normalized_contact_uri = ''sip:u@h'', sel_instance_id = [], sel_reg_id = []\<rparr>"

definition demo_binding :: "string \<Rightarrow> time_point \<Rightarrow> RegistrationBinding" where
  "demo_binding k e = \<lparr>impu = k, impi = ''i'', scscf_uri = ''s'', contacts = [demo_contact e 1],
     reg_state = kRegistered\<rparr>"

definition demo_upsert :: "string list \<Rightarrow> bool \<Rightarrow> ContactBatchUpsert" where
  "demo_upsert ks r = \<lparr>bu_impus = ks, bu_selector = demo_selector, bu_contact = demo_contact 100 7,
     bu_impi = ''i'', bu_scscf_uri = ''s'', bu_state = kRegistered, bu_require_existing_match = r,
     bu_reject_older_cseq = True\<rparr>"

lemma demo_contact_sel [simp]:
  "expires (demo_contact e cs) = e" "cb_call_id (demo_contact e cs) = ''c1''"
  "cb_cseq (demo_contact e cs) = cs"
  by (simp_all add: demo_contact_def)

lemmas demo_store_defs =
  demo_contact_def demo_selector_def demo_binding_def demo_upsert_def

text \<open>Every state the store reaches by its public operations, from the empty store and in any
  order, holds each identity once, and each entry is filed under its own identity.\<close>

theorem store_reachable_invariant:
  assumes "store_reachable m"
  shows "distinct (map fst m) \<and> (\<forall>(k, b) \<in> set m. impu b = k)"
  using store_reachable_wf [OF assms] by (auto simp: store_wf_def um_wf_def)

theorem store_reachable_invariant_witness:
  "distinct (map fst (fst (lookup 5 ''a'' (store (demo_binding ''a'' 9) []))))"
proof -
  have r: "store_reachable (fst (lookup 5 ''a'' (store (demo_binding ''a'' 9) [])))"
    by (intro store_reachable.lookup store_reachable.store store_reachable.init)
  show ?thesis using store_reachable_invariant [OF r] by blast
qed

text \<open>Looking up an identity that still has an unexpired contact returns that identity's own
  binding, holding exactly its unexpired contacts in their order.\<close>

theorem lookup_returns_live_binding:
  assumes "store_wf m" and "active now m k \<noteq> []"
  shows "\<exists>b. snd (lookup now k m) = Inr b \<and> impu b = k \<and> contacts b = active now m k"
  using assms by (rule lookup_active)

theorem lookup_returns_live_binding_witness:
  "\<exists>b. snd (lookup 5 ''a'' [(''a'', demo_binding ''a'' 9)]) = Inr b \<and> impu b = ''a'' \<and>
     contacts b = active 5 [(''a'', demo_binding ''a'' 9)] ''a''"
  by (rule lookup_returns_live_binding)
    (simp_all add: store_wf_def um_wf_def demo_binding_def demo_contact_def active_def
      active_contacts_def)

text \<open>C28: Looking up an identity whose contacts have all expired does not report it as not found
  when the table has an entry after it: the erased entry's successor is returned, the
  registration of another identity.\<close>

theorem lookup_expired_returns_successor:
  assumes "store_wf m" and "um_find m k = Some b" and "active now m k = []"
    and "um_next k m = Some k'"
  shows "\<exists>b'. snd (lookup now k m) = Inr b' \<and> impu b' = k' \<and> k' \<noteq> k"
proof -
  have k': "k' \<noteq> k" "um_find m k' \<noteq> None"
    using um_next_find [of m k k'] assms(1,4) by auto
  then obtain b' where b': "um_find m k' = Some b'" by auto
  then have "impu b' = k'" using assms(1) by (simp add: store_wf_def)
  then show ?thesis using lookup_expired [OF assms(1-3)] assms(4) b' k' by simp
qed

theorem lookup_expired_returns_successor_witness:
  "\<exists>b'. snd (lookup 5 ''a'' [(''a'', demo_binding ''a'' 4), (''b'', demo_binding ''b'' 9)]) = Inr b' \<and>
     impu b' = ''b'' \<and> ''b'' \<noteq> ''a''"
  by (rule lookup_expired_returns_successor [where b = "demo_binding ''a'' 4"])
    (simp_all add: store_wf_def um_wf_def demo_binding_def demo_contact_def active_def
      active_contacts_def)

text \<open>C6: After a registration was stored for a set of identities, looking up any of them before
  the contact expires returns that identity's binding with the new contact in it, unless the store
  holds a contact of the same terminal and Call-ID with a higher CSeq.\<close>

theorem registration_can_be_looked_up:
  assumes "store_wf m" and "distinct (bu_impus b)" and "\<not> bu_require_existing_match b"
    and "k \<in> set (bu_impus b)" and "now < expires (bu_contact b)"
    and "\<forall>c' \<in> set (contacts_of (fst (upsertContacts clk b m)) k).
      \<not> newer_than (bu_selector b) (cb_call_id (bu_contact b)) (cb_cseq (bu_contact b)) c'"
  shows "\<exists>rb. snd (lookup now k (fst (upsertContacts clk b m))) = Inr rb \<and> impu rb = k \<and>
    bu_contact b \<in> set (contacts rb)"
  using assms by (rule mem.register_then_lookup)

theorem registration_can_be_looked_up_witness:
  "\<exists>rb. snd (lookup 50 ''b'' (fst (upsertContacts (\<lambda>_. 10) (demo_upsert [''a'', ''b''] False) []))) =
      Inr rb \<and> impu rb = ''b'' \<and> bu_contact (demo_upsert [''a'', ''b''] False) \<in> set (contacts rb)"
  by (rule registration_can_be_looked_up)
    (simp_all add: demo_store_defs store_wf_def upsertContacts_def prune_all_def upsert_one_def
      pruneExpiredLocked_def upsertContactLocked_def Let_def contacts_of_def newer_than_def)

text \<open>A refresh over several identities is all or nothing: if each of them has the contact,
  all are updated and their number is returned; otherwise 0 is returned and nothing but the
  pruning of expired contacts has happened.\<close>

theorem refresh_all_or_nothing:
  assumes "distinct (bu_impus b)" and "bu_require_existing_match b"
  shows "if list_all (\<lambda>k. has_match (bu_selector b) k (prune_all clk (bu_impus b) m)) (bu_impus b)
    then snd (upsertContacts clk b m) = length (bu_impus b) \<and>
      (\<forall>k \<in> set (bu_impus b). \<exists>rb. um_find (fst (upsertContacts clk b m)) k = Some rb \<and> upserted b rb)
    else upsertContacts clk b m = (prune_all clk (bu_impus b) m, 0)"
  using upsertContacts_atomic [OF assms refl] .

theorem refresh_all_or_nothing_witness:
  "upsertContacts (\<lambda>_. 10) (demo_upsert [''a'', ''b''] True) [(''a'', demo_binding ''a'' 90)] =
     (prune_all (\<lambda>_. 10) [''a'', ''b''] [(''a'', demo_binding ''a'' 90)], 0)"
proof -
  let ?b = "demo_upsert [''a'', ''b''] True"
  have d: "distinct (bu_impus ?b)" "bu_require_existing_match ?b" by (simp_all add: demo_upsert_def)
  have nb: "\<not> has_match demo_selector ''b''
      (prune_all (\<lambda>_. 10) [''a'', ''b''] [(''a'', demo_binding ''a'' 90)])"
    by (simp add: has_match_def prune_all_def find_prune)
  show ?thesis
    using refresh_all_or_nothing [OF d, of "\<lambda>_. 10" "[(''a'', demo_binding ''a'' 90)]"]
    by (simp add: demo_upsert_def nb)
qed

text \<open>A de-registration of one contact leaves, under every identity of the batch, no matching
  contact except one of the same Call-ID with a higher CSeq, so a stale de-registration is
  ignored and any other removes the contact.\<close>

theorem deregistration_leaves_only_newer:
  assumes "distinct (br_impus r)" and "k \<in> set (br_impus r)"
    and "c \<in> set (contacts_of (fst (removeContacts clk r m)) k)"
    and "matchesSelector c (br_selector r)"
  shows "br_reject_older_cseq r \<and> cb_call_id c = br_call_id r \<and> br_cseq r < cb_cseq c"
  using assms by (rule mem.deregister_only_newer)

definition demo_remove :: "32 word \<Rightarrow> ContactBatchRemove" where
  "demo_remove cs = \<lparr>br_impus = [''a''], br_selector = demo_selector, br_call_id = ''c1'',
     br_cseq = cs, br_reject_older_cseq = True\<rparr>"

lemma demo_matches: "matchesSelector (demo_contact e cs) demo_selector"
proof -
  have "extract_uri_from_name_addr ([] @ ''<'' @ ''sip:u@h'' @ ''>'' @ []) = ''sip:u@h''"
    by (rule extract_between_brackets) simp_all
  then show ?thesis
    by (simp add: matchesSelector_def uses_instance_and_reg_id_def normalizeContactUri_def
      demo_contact_def demo_selector_def)
qed

theorem deregistration_leaves_only_newer_witness:
  "br_reject_older_cseq (demo_remove 0) \<and> cb_call_id (demo_contact 90 1) = br_call_id (demo_remove 0) \<and>
   br_cseq (demo_remove 0) < cb_cseq (demo_contact 90 1)"
  by (rule deregistration_leaves_only_newer
      [where k = "''a''" and clk = "\<lambda>_. 10" and m = "[(''a'', demo_binding ''a'' 90)]"])
    (simp_all add: demo_remove_def demo_matches removeContacts_contacts active_def
      active_contacts_def demo_binding_def keep_on_remove_def)

text \<open>The periodic purge changes nothing that is active, now or later; what it leaves are
  exactly the contacts active at the purge, and the number it reports is the number of contacts it
  removed.\<close>

theorem purge_removes_exactly_the_expired:
  assumes "store_wf m" and "now \<le> now'"
  shows "active now' (fst (purgeExpired now m)) = active now' m \<and>
    (\<forall>k. contacts_of (fst (purgeExpired now m)) k = active now m k) \<and>
    snd (purgeExpired now m) =
      (\<Sum>(k, b) \<leftarrow> m. length (contacts b) - length (active_contacts now b))"
  using active_purge [of m now now'] assms purge_count
  by (auto simp: contacts_of_def find_purgeExpired active_def fun_eq_iff split: option.split)

theorem purge_removes_exactly_the_expired_witness:
  "contacts_of (fst (purgeExpired 5 [(''a'', demo_binding ''a'' 4), (''b'', demo_binding ''b'' 9)])) ''b'' =
     active 5 [(''a'', demo_binding ''a'' 4), (''b'', demo_binding ''b'' 9)] ''b''"
proof -
  have wf: "store_wf [(''a'', demo_binding ''a'' 4), (''b'', demo_binding ''b'' 9)]"
    by (simp add: store_wf_def um_wf_def demo_binding_def)
  show ?thesis using purge_removes_exactly_the_expired [OF wf, of 5 5] by simp
qed

end
