(* ===== verification/Registrar.thy ===== *)
theory Registrar
  imports Auth_Providers Memory_Store
begin

section \<open>The registrar (s-cscf/registrar.cpp)\<close>

text \<open>
  The handling of REGISTER: de-registration, refresh of a known contact, challenge and
  registration.  The state holds the registration store, the providers in the configured order
  and the state of the HSS; the environment of a call holds the clock readings, the random tag and
  nonce words, and the formatted date.  A handler returns the new state, the responses it hands to
  the transaction, and the exception it leaves with, if \<^verbatim>\<open>SipMessage::cseq\<close> throws.
\<close>

datatype provider =
    Digest_provider credential_store string digest_table
  | Aka_provider string aka_provider

record 'h registrar =
  rg_store :: bindings
  rg_providers :: "provider option list"
  rg_hss :: 'h

record register_env =
  re_lookup_now :: time_point
  re_match_now :: "ContactBinding \<Rightarrow> time_point"
  re_contact_now :: time_point
  re_store_clock :: "string \<Rightarrow> time_point"
  re_auth_now :: time_point
  re_auth_later :: time_point
  re_waited :: "aka_pending result"
  re_nonce :: "64 word \<times> 64 word"
  re_tag :: string
  re_date :: string

type_synonym 'h reg_outcome = "'h registrar \<times> osip_message list \<times> std_exception option"

subsection \<open>Helpers\<close>

text \<open>The set of identities, as the list of its elements.\<close>

definition makeImpuSet :: "string list \<Rightarrow> string \<Rightarrow> string list" where
  "makeImpuSet associated primary = remdups (associated @ [primary])"

definition addSecurityAgreementHeaders ::
  "osip_lib \<Rightarrow> osip_message \<Rightarrow> bool \<Rightarrow> osip_message \<Rightarrow> osip_message" where
  "addSecurityAgreementHeaders L request final_register_response response =
     fold (\<lambda>mechanism r.
             (let r1 = addHeader L ''Security-Server'' mechanism r in
              if final_register_response then addHeader L ''Security-Verify'' mechanism r1 else r1))
       (getHeaders L ''Security-Client'' request) response"

definition determineRegisterExpires :: "osip_lib \<Rightarrow> osip_message \<Rightarrow> 32 word" where
  "determineRegisterExpires L request =
     (case contact_expires L request of
        Some e \<Rightarrow> e
      | None \<Rightarrow> (case expires_value L request of Some e \<Rightarrow> e | None \<Rightarrow> 3600))"

definition makeContactSelector :: "osip_lib \<Rightarrow> osip_message \<Rightarrow> string option \<Rightarrow> ContactBindingSelector" where
  "makeContactSelector L request c =
     (let sel = \<lparr>normalized_contact_uri = (case c of Some u \<Rightarrow> extract_uri_from_name_addr u | None \<Rightarrow> []),
                 sel_instance_id = or_empty (contact_param L ''+sip.instance'' request),
                 sel_reg_id = or_empty (contact_param L ''reg-id'' request)\<rparr>
      in if \<not> uses_instance_and_reg_id sel then sel\<lparr>sel_instance_id := [], sel_reg_id := []\<rparr> else sel)"

definition previous_or_empty :: "(ContactBinding \<Rightarrow> string) \<Rightarrow> ContactBinding option \<Rightarrow> string" where
  "previous_or_empty f previous = (case previous of None \<Rightarrow> [] | Some p \<Rightarrow> f p)"

definition makeContactBinding ::
  "osip_lib \<Rightarrow> time_point \<Rightarrow> osip_message \<Rightarrow> string option \<Rightarrow> 32 word \<Rightarrow> ContactBinding option \<Rightarrow>
     std_exception + ContactBinding" where
  "makeContactBinding L now request c exp previous =
     (case message_cseq request of
        Inl ex \<Rightarrow> Inl ex
      | Inr cseq \<Rightarrow>
          Inr \<lparr>contact_uri = (case c of Some u \<Rightarrow> u | None \<Rightarrow> previous_or_empty contact_uri previous),
               instance_id = (case contact_param L ''+sip.instance'' request of
                                Some i \<Rightarrow> i | None \<Rightarrow> previous_or_empty instance_id previous),
               reg_id = (case contact_param L ''reg-id'' request of
                           Some i \<Rightarrow> i | None \<Rightarrow> previous_or_empty reg_id previous),
               path = (case getHeaders L ''Path'' request of
                         [] \<Rightarrow> previous_or_empty path previous | p # _ \<Rightarrow> p),
               expires = now + seconds (uint exp),
               q_value = 1000,
               user_agent = (case getHeader L ''User-Agent'' request of
                               Some a \<Rightarrow> a | None \<Rightarrow> previous_or_empty user_agent previous),
               cb_call_id = callId request,
               cb_cseq = cseq\<rparr>)"

definition extractImpi :: "osip_lib \<Rightarrow> osip_message \<Rightarrow> string" where
  "extractImpi L m =
     (case impi_from_authorization_or_from L m of
        Some i \<Rightarrow> normalize_impu_uri L i | None \<Rightarrow> normalize_impu_uri L (fromHeader L m))"

definition extractImpu :: "osip_lib \<Rightarrow> osip_message \<Rightarrow> string" where
  "extractImpu L m =
     (case impu_from_to L m of
        Some i \<Rightarrow> normalize_impu_uri L i | None \<Rightarrow> normalize_impu_uri L (toHeader L m))"

definition isDeregister :: "osip_lib \<Rightarrow> osip_message \<Rightarrow> bool" where
  "isDeregister L m \<longleftrightarrow>
     expires_value L m = Some 0 \<or> is_wildcard_contact L m \<or> contact_expires L m = Some 0"

definition hasAuthorization :: "osip_lib \<Rightarrow> osip_message \<Rightarrow> bool" where
  "hasAuthorization L m =
     (case getHeader L ''Authorization'' m of
        None \<Rightarrow> False
      | Some h \<Rightarrow> (case parseAuthorization h of Inl _ \<Rightarrow> False | Inr p \<Rightarrow> da_nonce p \<noteq> [] \<and> da_response p \<noteq> []))"

subsection \<open>The providers, by dynamic dispatch\<close>

definition provider_canHandleInitialRegister :: "osip_lib \<Rightarrow> osip_message \<Rightarrow> provider \<Rightarrow> bool" where
  "provider_canHandleInitialRegister L req p =
     (case p of Digest_provider CS realm t \<Rightarrow> digest_canHandleInitialRegister L CS req
      | Aka_provider home a \<Rightarrow> aka_canHandleInitialRegister req)"

definition provider_canHandleAuthorization ::
  "osip_lib \<Rightarrow> time_point \<Rightarrow> osip_message \<Rightarrow> provider \<Rightarrow> provider \<times> bool" where
  "provider_canHandleAuthorization L now req p =
     (case p of
        Digest_provider CS realm t \<Rightarrow>
          (let (t', b) = digest_canHandleAuthorization L CS now req t in (Digest_provider CS realm t', b))
      | Aka_provider home a \<Rightarrow>
          (let (a', b) = aka_canHandleAuthorization L home now req a in (Aka_provider home a', b)))"

definition provider_createChallenge ::
  "osip_lib \<Rightarrow> 'h hss \<Rightarrow> register_env \<Rightarrow> osip_message \<Rightarrow> provider \<Rightarrow> 'h \<Rightarrow>
     provider \<times> 'h \<times> AuthChallenge result" where
  "provider_createChallenge L H env req p h =
     (case p of
        Digest_provider CS realm t \<Rightarrow>
          (let (t', r) = digest_createChallenge L CS realm (re_auth_now env) (re_auth_later env)
                           (re_nonce env) req t
           in (Digest_provider CS realm t', h, r))
      | Aka_provider home a \<Rightarrow>
          (let ((a', h'), r) = aka_createChallenge L H home (re_auth_now env) (re_auth_later env)
                                 (re_waited env) req (a, h)
           in (Aka_provider home a', h', r)))"

definition provider_verifyAuthorization ::
  "osip_lib \<Rightarrow> md5_fun \<Rightarrow> time_point \<Rightarrow> osip_message \<Rightarrow> provider \<Rightarrow> provider \<times> AuthVerificationResult result" where
  "provider_verifyAuthorization L md5 now req p =
     (case p of
        Digest_provider CS realm t \<Rightarrow>
          (let (t', r) = digest_verifyAuthorization L md5 CS now req t in (Digest_provider CS realm t', r))
      | Aka_provider home a \<Rightarrow>
          (let (a', r) = aka_verifyAuthorization L md5 home now req a in (Aka_provider home a', r)))"

text \<open>The searches stop at the first provider that can handle the request; asking purges the pending
  tables on the way.\<close>

fun selectProviderForInitialRegister :: "osip_lib \<Rightarrow> osip_message \<Rightarrow> provider option list \<Rightarrow> nat option" where
  "selectProviderForInitialRegister L req [] = None"
| "selectProviderForInitialRegister L req (p # ps) =
     (if (case p of None \<Rightarrow> False | Some q \<Rightarrow> provider_canHandleInitialRegister L req q) then Some 0
      else map_option Suc (selectProviderForInitialRegister L req ps))"

fun selectProviderForAuthorization ::
  "osip_lib \<Rightarrow> time_point \<Rightarrow> osip_message \<Rightarrow> provider option list \<Rightarrow> provider option list \<times> nat option" where
  "selectProviderForAuthorization L now req [] = ([], None)"
| "selectProviderForAuthorization L now req (None # ps) =
     (let (ps', i) = selectProviderForAuthorization L now req ps in (None # ps', map_option Suc i))"
| "selectProviderForAuthorization L now req (Some p # ps) =
     (let (p', b) = provider_canHandleAuthorization L now req p in
      if b then (Some p' # ps, Some 0)
      else (let (ps', i) = selectProviderForAuthorization L now req ps in (Some p' # ps', map_option Suc i)))"

subsection \<open>Responses\<close>

definition respond :: "osip_message result \<Rightarrow> osip_message list" where
  "respond r = (case r of Inl _ \<Rightarrow> [] | Inr m \<Rightarrow> [m])"

definition simple_response :: "osip_lib \<Rightarrow> register_env \<Rightarrow> osip_message \<Rightarrow> int \<Rightarrow> string \<Rightarrow> osip_message list" where
  "simple_response L env request code reason = respond (createResponse L (re_tag env) request code reason)"

definition sendRegisterOk ::
  "osip_lib \<Rightarrow> register_env \<Rightarrow> osip_message \<Rightarrow> 32 word \<Rightarrow> string option \<Rightarrow> string list \<Rightarrow> osip_message list" where
  "sendRegisterOk L env request exp c associated =
     (case createResponse L (re_tag env) request 200 ''OK'' of
        Inl _ \<Rightarrow> []
      | Inr resp \<Rightarrow>
          (let r1 = (case c of None \<Rightarrow> resp | Some u \<Rightarrow> setContact L u resp);
               r2 = addHeader L ''Expires'' (show_nat (unat exp)) r1;
               r3 = addHeader L ''Date'' (re_date env) r2;
               r4 = addSecurityAgreementHeaders L request True r3;
               uris = (if associated \<noteq> [] then associated else [extractImpu L request]);
               r5 = fold (\<lambda>u r. addHeader L ''P-Associated-URI'' (''<'' @ u @ ''>'') r) uris r4
           in [r5]))"

subsection \<open>The handlers\<close>

definition sendChallenge ::
  "osip_lib \<Rightarrow> 'h hss \<Rightarrow> register_env \<Rightarrow> osip_message \<Rightarrow> 'h registrar \<Rightarrow> 'h reg_outcome" where
  "sendChallenge L H env request rg =
     (case selectProviderForInitialRegister L request (rg_providers rg) of
        None \<Rightarrow> (rg, simple_response L env request 501 ''Not Implemented'', None)
      | Some i \<Rightarrow>
          (case rg_providers rg ! i of
             None \<Rightarrow> (rg, [], None)
           | Some p \<Rightarrow>
               (let (p', h', challenge) = provider_createChallenge L H env request p (rg_hss rg);
                    rg' = rg\<lparr>rg_providers := (rg_providers rg)[i := Some p'], rg_hss := h'\<rparr>
                in case challenge of
                     Inl e \<Rightarrow> (rg', simple_response L env request 501 ''Not Implemented'', None)
                   | Inr ch \<Rightarrow>
                       (case createResponse L (re_tag env) request 401 ''Unauthorized'' of
                          Inl _ \<Rightarrow> (rg', [], None)
                        | Inr resp \<Rightarrow>
                            (rg', [addHeader L ''Date'' (re_date env)
                                     (addSecurityAgreementHeaders L request False
                                       (addHeader L ''WWW-Authenticate'' (ch_www_authenticate ch) resp))],
                             None)))))"

definition server_name :: "string \<Rightarrow> string" where
  "server_name home = ''sip:scscf.'' @ home"

text \<open>Whether a stored contact is the one a refresh names, and still valid.\<close>

definition refreshable :: "register_env \<Rightarrow> ContactBindingSelector \<Rightarrow> ContactBinding \<Rightarrow> bool" where
  "refreshable env sel candidate \<longleftrightarrow>
     re_match_now env candidate < expires candidate \<and>
     (if uses_instance_and_reg_id sel
      then instance_id candidate = sel_instance_id sel \<and> reg_id candidate = sel_reg_id sel
      else extract_uri_from_name_addr (contact_uri candidate) = normalized_contact_uri sel)"

text \<open>\<open>None\<close> in place of an outcome: the request is not a refresh, and the caller goes on.\<close>

definition tryHandleReregister ::
  "osip_lib \<Rightarrow> 'h hss \<Rightarrow> string \<Rightarrow> register_env \<Rightarrow> osip_message \<Rightarrow> 'h registrar \<Rightarrow>
     'h registrar \<times> (osip_message list \<times> std_exception option) option" where
  "tryHandleReregister L H home env request rg =
     (let (store1, found) = lookup (re_lookup_now env) (extractImpu L request) (rg_store rg);
          rg1 = rg\<lparr>rg_store := store1\<rparr>
      in case found of
           Inl _ \<Rightarrow> (rg1, None)
         | Inr binding \<Rightarrow>
             if reg_state binding \<noteq> kRegistered then (rg1, None)
             else (case contact L request of
                     None \<Rightarrow> (rg1, None)
                   | Some c \<Rightarrow>
                       (let sel = makeContactSelector L request (Some c) in
                        case find (refreshable env sel) (contacts binding) of
                          None \<Rightarrow> (rg1, None)
                        | Some existing \<Rightarrow>
                            (let exp = determineRegisterExpires L request in
                             case makeContactBinding L (re_contact_now env) request (Some c) exp (Some existing) of
                               Inl ex \<Rightarrow> (rg1, Some ([], Some ex))
                             | Inr refreshed \<Rightarrow>
                                 (let sar = \<lparr>sar_impi = impi binding, sar_impu = impu binding,
                                             sar_server_name = server_name home,
                                             sar_assignment_type = SAR_kReRegistration\<rparr>;
                                      (h', saa) = H_sar H sar (rg_hss rg1);
                                      associated =
                                        (case saa of
                                           Inr a \<Rightarrow> if up_associated_impus (saa_user_profile a) \<noteq> []
                                                    then up_associated_impus (saa_user_profile a) else [impu binding]
                                         | Inl _ \<Rightarrow> [impu binding]);
                                      (store2, n) = upsertContacts (re_store_clock env)
                                        \<lparr>bu_impus = makeImpuSet associated (impu binding), bu_selector = sel,
                                         bu_contact = refreshed, bu_impi = impi binding,
                                         bu_scscf_uri = scscf_uri binding, bu_state = kRegistered,
                                         bu_require_existing_match = True, bu_reject_older_cseq = True\<rparr>
                                        (rg_store rg1);
                                      rg2 = rg1\<lparr>rg_store := store2, rg_hss := h'\<rparr>
                                  in if n = 0
                                     then (rg2, Some (simple_response L env request 500 ''Internal Server Error'', None))
                                     else (rg2, Some (sendRegisterOk L env request exp (Some c) associated, None)))))))"

definition verifyAndRegister ::
  "osip_lib \<Rightarrow> md5_fun \<Rightarrow> 'h hss \<Rightarrow> string \<Rightarrow> register_env \<Rightarrow> osip_message \<Rightarrow> 'h registrar \<Rightarrow> 'h reg_outcome" where
  "verifyAndRegister L md5 H home env request rg =
     (let (ps, sel_provider) = selectProviderForAuthorization L (re_auth_now env) request (rg_providers rg);
          rg1 = rg\<lparr>rg_providers := ps\<rparr>
      in case sel_provider of
           None \<Rightarrow> (rg1, simple_response L env request 400 ''Bad Request'', None)
         | Some i \<Rightarrow>
             (case ps ! i of
                None \<Rightarrow> (rg1, [], None)
              | Some p \<Rightarrow>
                  (let (p', verification) = provider_verifyAuthorization L md5 (re_auth_now env) request p;
                       rg2 = rg1\<lparr>rg_providers := ps[i := Some p']\<rparr>
                   in case verification of
                        Inl e \<Rightarrow>
                          if err_message e = no_pending then sendChallenge L H env request rg2
                          else (rg2, simple_response L env request 403 ''Forbidden'', None)
                      | Inr v \<Rightarrow>
                          (let sar = \<lparr>sar_impi = vr_impi v, sar_impu = vr_impu v,
                                      sar_server_name = server_name home,
                                      sar_assignment_type = SAR_kRegistration\<rparr>;
                               (h', saa) = H_sar H sar (rg_hss rg2);
                               rg3 = rg2\<lparr>rg_hss := h'\<rparr>
                           in case saa of
                                Inl _ \<Rightarrow> (rg3, simple_response L env request 500 ''Internal Server Error'', None)
                              | Inr a \<Rightarrow>
                                  (let c = contact L request;
                                       exp = determineRegisterExpires L request;
                                       associated = up_associated_impus (saa_user_profile a)
                                   in case makeContactBinding L (re_contact_now env) request c exp None of
                                        Inl ex \<Rightarrow> (rg3, [], Some ex)
                                      | Inr cb \<Rightarrow>
                                          (let (store', n) = upsertContacts (re_store_clock env)
                                                 \<lparr>bu_impus = makeImpuSet associated (vr_impu v),
                                                  bu_selector = makeContactSelector L request c,
                                                  bu_contact = cb, bu_impi = vr_impi v,
                                                  bu_scscf_uri = server_name home, bu_state = kRegistered,
                                                  bu_require_existing_match = False,
                                                  bu_reject_older_cseq = True\<rparr>
                                                 (rg_store rg3)
                                           in (rg3\<lparr>rg_store := store'\<rparr>,
                                               sendRegisterOk L env request exp c
                                                 (if associated = [] then [vr_impu v] else associated),
                                               None)))))))"

definition handleDeregister ::
  "osip_lib \<Rightarrow> 'h hss \<Rightarrow> string \<Rightarrow> register_env \<Rightarrow> osip_message \<Rightarrow> 'h registrar \<Rightarrow> 'h reg_outcome" where
  "handleDeregister L H home env request rg =
     (let pub = extractImpu L request;
          c = contact L request;
          sar = \<lparr>sar_impi = extractImpi L request, sar_impu = pub, sar_server_name = server_name home,
                 sar_assignment_type = SAR_kUserDeregistration\<rparr>;
          (h', saa) = H_sar H sar (rg_hss rg);
          targets = makeImpuSet
            (case saa of Inr a \<Rightarrow> up_associated_impus (saa_user_profile a) | Inl _ \<Rightarrow> []) pub;
          rg1 = rg\<lparr>rg_hss := h'\<rparr>;
          ok = (case createResponse L (re_tag env) request 200 ''OK'' of
                  Inl _ \<Rightarrow> [] | Inr resp \<Rightarrow> [addHeader L ''Date'' (re_date env) resp])
      in if c \<noteq> None \<and> c \<noteq> Some ''*'' then
           (case message_cseq request of
              Inl ex \<Rightarrow> (rg1, [], Some ex)
            | Inr cseq \<Rightarrow>
                (rg1\<lparr>rg_store := fst (removeContacts (re_store_clock env)
                        \<lparr>br_impus = targets, br_selector = makeContactSelector L request c,
                         br_call_id = callId request, br_cseq = cseq, br_reject_older_cseq = True\<rparr>
                        (rg_store rg1))\<rparr>, ok, None))
         else (rg1\<lparr>rg_store := fst (removeBindings targets (rg_store rg1))\<rparr>, ok, None))"

definition handleRegister ::
  "osip_lib \<Rightarrow> md5_fun \<Rightarrow> 'h hss \<Rightarrow> string \<Rightarrow> register_env \<Rightarrow> osip_message \<Rightarrow> 'h registrar \<Rightarrow> 'h reg_outcome" where
  "handleRegister L md5 H home env request rg =
     (if isDeregister L request then handleDeregister L H home env request rg
      else
        (let (rg1, done) = tryHandleReregister L H home env request rg in
         case done of
           Some (resps, ex) \<Rightarrow> (rg1, resps, ex)
         | None \<Rightarrow>
             if hasAuthorization L request then verifyAndRegister L md5 H home env request rg1
             else sendChallenge L H env request rg1))"

subsection \<open>Where contacts come from\<close>

lemma contacts_prune_subset:
  "set (contacts_of (fst (pruneExpiredLocked now k m)) k') \<subseteq> set (contacts_of m k')"
  by (auto simp: contacts_of_def find_prune active_contacts_def split: option.splits if_splits)

lemma contacts_remove_subset:
  assumes "distinct (br_impus b)"
  shows "set (contacts_of (fst (removeContacts clk b m)) k) \<subseteq> set (contacts_of m k)"
proof (cases "k \<in> set (br_impus b)")
  case True
  show ?thesis unfolding removeContacts_contacts [OF assms True]
    by (auto simp: active_def active_contacts_def contacts_of_def split: option.splits)
next
  case False
  then have "contacts_of (prune_all clk (br_impus b) m) k = contacts_of m k"
    by (simp add: contacts_of_def find_prune_all_notin)
  with False show ?thesis using assms by (simp add: removeContacts_def remove_loop_contacts)
qed

lemma contacts_remove_bindings:
  "contacts_of (fst (removeBindings ks m)) k = (if k \<in> set ks then [] else contacts_of m k)"
  by (simp add: removeBindings_def contacts_of_def remove_bindings_find)

lemma sendChallenge_store [simp]: "rg_store (fst (sendChallenge L H env req rg)) = rg_store rg"
  by (auto simp: sendChallenge_def Let_def case_prod_beta split: option.split sum.split)

lemma in_makeImpuSet: "primary \<in> set (makeImpuSet ks primary)" "distinct (makeImpuSet ks primary)"
  by (simp_all add: makeImpuSet_def)

lemma handleDeregister_subset:
  "set (contacts_of (rg_store (fst (handleDeregister L H home env req rg))) k) \<subseteq>
     set (contacts_of (rg_store rg) k)"
  using contacts_remove_subset
  by (auto simp: handleDeregister_def Let_def case_prod_beta contacts_remove_bindings in_makeImpuSet
      split: sum.splits if_splits; blast)

text \<open>A request refreshes when the lookup yields a registration with a live contact that matches; it is
  verified when the provider selected for its authorization accepts it.\<close>

definition refreshes :: "osip_lib \<Rightarrow> register_env \<Rightarrow> osip_message \<Rightarrow> 'h registrar \<Rightarrow> bool" where
  "refreshes L env req rg \<longleftrightarrow>
     (\<exists>rb c. snd (lookup (re_lookup_now env) (extractImpu L req) (rg_store rg)) = Inr rb \<and>
        reg_state rb = kRegistered \<and> contact L req = Some c \<and>
        find (refreshable env (makeContactSelector L req (Some c))) (contacts rb) \<noteq> None)"

definition verified_as ::
  "osip_lib \<Rightarrow> md5_fun \<Rightarrow> register_env \<Rightarrow> osip_message \<Rightarrow> 'h registrar \<Rightarrow> AuthVerificationResult \<Rightarrow> bool" where
  "verified_as L md5 env req rg v \<longleftrightarrow>
     (\<exists>ps i p. selectProviderForAuthorization L (re_auth_now env) req (rg_providers rg) = (ps, Some i) \<and>
        ps ! i = Some p \<and> snd (provider_verifyAuthorization L md5 (re_auth_now env) req p) = Inr v)"

lemma tryHandleReregister_not:
  "\<not> refreshes L env req rg \<Longrightarrow>
   tryHandleReregister L H home env req rg =
     (rg\<lparr>rg_store := fst (lookup (re_lookup_now env) (extractImpu L req) (rg_store rg))\<rparr>, None)"
  by (auto simp: tryHandleReregister_def refreshes_def Let_def case_prod_beta split: sum.split option.split)

lemma verified_asI:
  "snd (selectProviderForAuthorization L (re_auth_now env) req (rg_providers rg)) = Some i \<Longrightarrow>
   fst (selectProviderForAuthorization L (re_auth_now env) req (rg_providers rg)) ! i = Some p \<Longrightarrow>
   snd (provider_verifyAuthorization L md5 (re_auth_now env) req p) = Inr v \<Longrightarrow>
   verified_as L md5 env req rg v"
  unfolding verified_as_def by (metis prod.collapse)

lemma verifyAndRegister_store:
  assumes "\<And>v. \<not> verified_as L md5 env req rg v"
  shows "rg_store (fst (verifyAndRegister L md5 H home env req rg)) = rg_store rg"
  using assms
  by (auto simp: verifyAndRegister_def Let_def case_prod_beta dest: verified_asI split: option.split sum.split)

lemma verified_as_store [simp]: "verified_as L md5 env req (rg\<lparr>rg_store := m\<rparr>) v = verified_as L md5 env req rg v"
  by (simp add: verified_as_def)

text \<open>C5: A contact enters the store only through a verified request or a refresh: when a REGISTER
  leaves a contact under some identity that was not there before, either the provider selected for
  its authorization accepted it, or the store already held a live contact the request names.\<close>

theorem new_contacts_are_verified_or_refreshed:
  assumes "c \<in> set (contacts_of (rg_store (fst (handleRegister L md5 H home env req rg))) k)"
    and "c \<notin> set (contacts_of (rg_store rg) k)"
  shows "(\<exists>v. verified_as L md5 env req rg v) \<or> refreshes L env req rg"
proof (rule ccontr)
  assume no: "\<not> ((\<exists>v. verified_as L md5 env req rg v) \<or> refreshes L env req rg)"
  let ?rg = "rg\<lparr>rg_store := fst (lookup (re_lookup_now env) (extractImpu L req) (rg_store rg))\<rparr>"
  have "set (contacts_of (rg_store (fst (handleRegister L md5 H home env req rg))) k) \<subseteq> set (contacts_of (rg_store rg) k)"
  proof (cases "isDeregister L req")
    case True
    then show ?thesis using handleDeregister_subset by (simp add: handleRegister_def)
  next
    case False
    have "rg_store (fst (verifyAndRegister L md5 H home env req ?rg)) = rg_store ?rg"
      by (rule verifyAndRegister_store) (use no in simp)
    with False no show ?thesis
      using contacts_prune_subset by (auto simp: handleRegister_def tryHandleReregister_not)
  qed
  with assms show False by blast
qed

text \<open>C32: De-registration is not authenticated: a REGISTER with an expiry of zero and no Contact, or with
  the Contact \<^verbatim>\<open>*\<close>, removes every contact of the identity in its To header, with any
  header, any provider and any HSS.  (One that names a contact is no subject of this: it removes that one.)\<close>

theorem deregistration_is_not_authenticated:
  assumes "isDeregister L req" and "contact L req = None \<or> contact L req = Some ''*''"
  shows "contacts_of (rg_store (fst (handleRegister L md5 H home env req rg))) (extractImpu L req) = []"
  using assms
  by (auto simp: handleRegister_def handleDeregister_def Let_def case_prod_beta contacts_remove_bindings
      in_makeImpuSet)

subsection \<open>Registration in two round trips\<close>

definition fresh_registrar :: "string \<Rightarrow> 'h \<Rightarrow> 'h registrar" where
  "fresh_registrar home h =
     \<lparr>rg_store = [], rg_providers = [Some (Aka_provider home \<lparr>aka_pending_auth = [], aka_in_flight = []\<rparr>)],
      rg_hss = h\<rparr>"

definition challenge_of :: "osip_lib \<Rightarrow> register_env \<Rightarrow> osip_message \<Rightarrow> MaaResult \<Rightarrow> aka_pending" where
  "challenge_of L env req maa =
     \<lparr>ap_vector = maa_auth_vector maa, ap_impi = aka_extractImpi L req, ap_impu = aka_extractImpu L req,
      ap_scheme = maa_sip_auth_scheme maa, ap_expires_at = re_auth_later env + kPendingAuthTtl\<rparr>"

definition challenged_registrar ::
  "osip_lib \<Rightarrow> string \<Rightarrow> register_env \<Rightarrow> osip_message \<Rightarrow> MaaResult \<Rightarrow> 'h \<Rightarrow> 'h registrar" where
  "challenged_registrar L home env req maa h =
     \<lparr>rg_store = [], rg_providers = [Some (Aka_provider home
        \<lparr>aka_pending_auth = [(aka_makePendingKey L (callId req) (aka_extractImpi L req) (aka_extractImpu L req),
                              challenge_of L env req maa)], aka_in_flight = []\<rparr>)],
      rg_hss = h\<rparr>"

lemma challenge_of_sel [simp]:
  "ap_vector (challenge_of L env req maa) = maa_auth_vector maa"
  "ap_impi (challenge_of L env req maa) = aka_extractImpi L req"
  "ap_impu (challenge_of L env req maa) = aka_extractImpu L req"
  "ap_scheme (challenge_of L env req maa) = maa_sip_auth_scheme maa"
  "ap_expires_at (challenge_of L env req maa) = re_auth_later env + kPendingAuthTtl"
  by (simp_all add: challenge_of_def)

lemma create_init_ok: "init_ok L \<Longrightarrow> create L = Inr empty_message"
  by (simp add: create_def init_ok_def)

lemma createResponse_Inr: "init_ok L \<Longrightarrow> \<exists>m. createResponse L tag req code reason = Inr m"
  by (simp add: createResponse_def create_init_ok Let_def)

lemma fresh_challenge:
  assumes "H_mar H (aka_mar home (aka_extractImpi L req) (aka_extractImpu L req)) h = (h1, Inr maa)"
  shows "provider_createChallenge L H env req (Aka_provider home \<lparr>aka_pending_auth = [], aka_in_flight = []\<rparr>) h =
    (Aka_provider home
       \<lparr>aka_pending_auth = [(aka_makePendingKey L (callId req) (aka_extractImpi L req) (aka_extractImpu L req),
                             challenge_of L env req maa)], aka_in_flight = []\<rparr>,
     h1, Inr (aka_build_challenge home (callId req) (challenge_of L env req maa)))"
  using assms
  by (simp add: provider_createChallenge_def aka_createChallenge_def aka_begin_challenge_def
      aka_purgeExpired_def um_erase_if_def aka_finish_challenge_def challenge_of_def Let_def)

lemma first_register:
  assumes "\<not> isDeregister L req" "\<not> hasAuthorization L req" "message_method req = ''REGISTER''" "init_ok L"
    and mar: "H_mar H (aka_mar home (aka_extractImpi L req) (aka_extractImpu L req)) h = (h1, Inr maa)"
  shows "\<exists>resp. handleRegister L md5 H home env req (fresh_registrar home h) =
    (challenged_registrar L home env req maa h1, [resp], None)"
proof -
  obtain resp where "createResponse L (re_tag env) req 401 ''Unauthorized'' = Inr resp"
    using createResponse_Inr [OF assms(4)] by blast
  moreover have "selectProviderForInitialRegister L req (rg_providers (fresh_registrar home h)) = Some 0"
    using assms(3)
    by (simp add: fresh_registrar_def provider_canHandleInitialRegister_def aka_canHandleInitialRegister_def)
  ultimately have "\<exists>resp. sendChallenge L H env req (fresh_registrar home h) =
      (challenged_registrar L home env req maa h1, [resp], None)"
    unfolding sendChallenge_def challenged_registrar_def fresh_registrar_def
    by (simp add: fresh_challenge [OF mar])
  moreover have "tryHandleReregister L H home env req (fresh_registrar home h) = (fresh_registrar home h, None)"
    by (subst tryHandleReregister_not) (simp_all add: refreshes_def fresh_registrar_def lookup_absent)
  ultimately show ?thesis using assms(1,2) by (auto simp: handleRegister_def)
qed

text \<open>What a terminal that holds the expected result answers.\<close>

definition answers_challenge ::
  "osip_lib \<Rightarrow> md5_fun \<Rightarrow> osip_message \<Rightarrow> MaaResult \<Rightarrow> DigestAuthFields \<Rightarrow> osip_message \<Rightarrow> bool" where
  "answers_challenge L md5 req1 maa p req2 \<longleftrightarrow>
     comma_free p \<and> da_username p \<noteq> [] \<and> da_uri p \<noteq> [] \<and> da_nonce p = aka_nonce (maa_auth_vector maa) \<and>
     (case digest_response md5 p (secret_of (av_xres (maa_auth_vector maa))) (message_method req2) of
        None \<Rightarrow> False
      | Some e \<Rightarrow> getHeader L ''Authorization'' req2 = Some (client_header (p\<lparr>da_response := e\<rparr>))) \<and>
     callId req2 = callId req1"

lemma answer_parses:
  assumes "comma_free p" "da_username p \<noteq> []" "\<forall>s. md5 s \<noteq> []" "digest_response md5 p secret meth = Some e"
  shows "parseAuthorization (client_header (p\<lparr>da_response := e\<rparr>)) = Inr (p\<lparr>da_response := e\<rparr>)" "e \<noteq> []"
proof -
  from assms(4) obtain x where e: "e = md5Hex md5 x"
    by (auto simp: digest_response_def Let_def split: if_splits)
  show "parseAuthorization (client_header (p\<lparr>da_response := e\<rparr>)) = Inr (p\<lparr>da_response := e\<rparr>)"
    by (rule client_header_parses) (use assms(1,2) e md5Hex_comma_free in \<open>auto simp: comma_free_def\<close>)
  show "e \<noteq> []" using md5Hex_nonempty [of md5 x] assms(3) e by simp
qed

definition registration_batch ::
  "osip_lib \<Rightarrow> string \<Rightarrow> osip_message \<Rightarrow> ContactBinding \<Rightarrow> string \<Rightarrow> string \<Rightarrow> SaaResult \<Rightarrow> ContactBatchUpsert" where
  "registration_batch L home req cb priv pub a =
     \<lparr>bu_impus = makeImpuSet (up_associated_impus (saa_user_profile a)) pub,
      bu_selector = makeContactSelector L req (contact L req), bu_contact = cb, bu_impi = priv,
      bu_scscf_uri = server_name home, bu_state = kRegistered, bu_require_existing_match = False,
      bu_reject_older_cseq = True\<rparr>"

definition registration_sar :: "string \<Rightarrow> string \<Rightarrow> string \<Rightarrow> SarParams" where
  "registration_sar home priv pub =
     \<lparr>sar_impi = priv, sar_impu = pub, sar_server_name = server_name home,
      sar_assignment_type = SAR_kRegistration\<rparr>"

lemma second_register:
  assumes dereg: "\<not> isDeregister L req2" and ans: "answers_challenge L md5 req1 maa p req2"
    and md5: "\<forall>s. md5 s \<noteq> []" and rand: "av_rand (maa_auth_vector maa) \<noteq> []"
    and scheme: "maa_sip_auth_scheme maa = ''Digest-AKAv1-MD5''"
    and user: "normalizeAuthorizationImpi L home (da_username p) = aka_extractImpi L req1"
    and time: "re_auth_now env2 < re_auth_later env1 + kPendingAuthTtl"
    and sar: "H_sar H (registration_sar home (aka_extractImpi L req1) (aka_extractImpu L req1)) h1 = (h2, Inr a)"
    and cb: "makeContactBinding L (re_contact_now env2) req2 (contact L req2) (determineRegisterExpires L req2) None =
      Inr cb"
  shows "rg_store (fst (handleRegister L md5 H home env2 req2 (challenged_registrar L home env1 req1 maa h1))) =
    fst (upsertContacts (re_store_clock env2)
      (registration_batch L home req2 cb (aka_extractImpi L req1) (aka_extractImpu L req1) a) [])"
proof -
  from ans obtain e where
      e: "digest_response md5 p (secret_of (av_xres (maa_auth_vector maa))) (message_method req2) = Some e"
    and h: "getHeader L ''Authorization'' req2 = Some (client_header (p\<lparr>da_response := e\<rparr>))"
    and p: "comma_free p" "da_username p \<noteq> []" "da_uri p \<noteq> []" "da_nonce p = aka_nonce (maa_auth_vector maa)"
    and cid: "callId req2 = callId req1"
    by (auto simp: answers_challenge_def split: option.splits)
  note parse = answer_parses [OF p(1,2) md5 e]
  have "aka_nonce (maa_auth_vector maa) \<noteq> []"
    using rand base64_rt [of "av_rand (maa_auth_vector maa) @ av_autn (maa_auth_vector maa)"] by (auto simp: aka_nonce_def)
  with parse p h have auth: "hasAuthorization L req2" by (simp add: hasAuthorization_def)
  have ok: "verifyResponse md5 (client_header (p\<lparr>da_response := e\<rparr>)) (maa_auth_vector maa) (message_method req2)
      ''Digest-AKAv1-MD5''"
    by (rule secret_holder [OF p(1,2,3,4) rand md5 e])
  let ?key = "aka_makePendingKey L (callId req1) (aka_extractImpi L req1) (aka_extractImpu L req1)"
  let ?st = "\<lparr>aka_pending_auth = [(?key, challenge_of L env1 req1 maa)], aka_in_flight = []\<rparr>"
  have purge: "aka_purgeExpired (re_auth_now env2) ?st = ?st"
    using time by (simp add: aka_purgeExpired_def um_erase_if_def)
  have find: "findPendingForAuthorization L home (callId req2) (da_username p) ?st =
      Some (?key, challenge_of L env1 req1 maa)"
    using user by (simp add: findPendingForAuthorization_def starts_with_def aka_makePendingKey_def cid Let_def)
  have sel: "selectProviderForAuthorization L (re_auth_now env2) req2 [Some (Aka_provider home ?st)] =
      ([Some (Aka_provider home ?st)], Some 0)"
    using find h parse
    by (simp add: provider_canHandleAuthorization_def aka_canHandleAuthorization_def purge Let_def)
  have ver: "provider_verifyAuthorization L md5 (re_auth_now env2) req2 (Aka_provider home ?st) =
      (Aka_provider home \<lparr>aka_pending_auth = [], aka_in_flight = []\<rparr>,
       Inr \<lparr>vr_session_key = callId req2, vr_impi = aka_extractImpi L req1, vr_impu = aka_extractImpu L req1,
            vr_scheme = ''Digest-AKAv1-MD5''\<rparr>)"
    using find h parse ok scheme
    by (simp add: provider_verifyAuthorization_def aka_verifyAuthorization_def purge aka_commit_def
        um_erase_def um_erase_if_def Let_def)
  show ?thesis
    using dereg auth sel ver sar cb
    by (simp add: handleRegister_def tryHandleReregister_def challenged_registrar_def lookup_absent
        verifyAndRegister_def registration_sar_def registration_batch_def case_prod_beta Let_def
        del: selectProviderForAuthorization.simps)
qed

lemma upsert_loop_fresh:
  assumes "distinct ks" "\<not> bu_require_existing_match b" "\<forall>k \<in> set ks. um_find m k = None" "k \<in> set ks"
  shows "contacts_of (fst (upsert_loop b ks n m)) k = [bu_contact b]"
  using assms
proof (induction ks arbitrary: n m)
  case (Cons a ks)
  define m' where "m' = fst (upsert_one b a m)"
  have one: "snd (upsert_one b a m)" "contacts_of m' a = [bu_contact b]"
    using Cons.prems(2,3) by (simp_all add: m'_def upsert_one_def upsertContactLocked_def contacts_of_def um_lookup Let_def)
  have rest: "\<forall>k' \<in> set ks. um_find m' k' = None"
    using Cons.prems(1,3) upsert_locked_other unfolding m'_def upsert_one_def by (metis distinct.simps(2) list.set_intros(2))
  have step: "upsert_loop b (a # ks) n m = upsert_loop b ks (Suc n) m'"
    using one by (simp add: m'_def case_prod_beta Let_def)
  show ?case
  proof (cases "k = a")
    case True
    then have "k \<notin> set ks" using Cons.prems(1) by simp
    with one(2) True show ?thesis by (simp add: step contacts_of_def upsert_loop_other del: upsert_loop.simps)
  next
    case False
    then have "contacts_of (fst (upsert_loop b ks (Suc n) m')) k = [bu_contact b]"
      by (intro Cons.IH) (use Cons.prems rest in auto)
    then show ?thesis by (simp only: step)
  qed
qed simp

lemma prune_all_Nil: "prune_all clk ks [] = []"
  unfolding prune_all_def by (induction ks) (simp_all add: pruneExpiredLocked_def)

lemma upsertContacts_fresh:
  assumes "distinct (bu_impus b)" "\<not> bu_require_existing_match b" "k \<in> set (bu_impus b)"
  shows "contacts_of (fst (upsertContacts clk b [])) k = [bu_contact b]"
  using upsert_loop_fresh [OF assms(1,2), of "[]"] assms by (simp add: upsertContacts_def prune_all_Nil)

text \<open>Two round trips of a terminal on an idle registrar with the AKA provider: a REGISTER without
  credentials is challenged, and the digest over the expected result answers the challenge before it
  expires.  The identity then has exactly the contact of the second request.\<close>

lemma two_round_trips_store:
  assumes "init_ok L" and "\<forall>s. md5 s \<noteq> []"
    and "\<not> isDeregister L req1" and "\<not> hasAuthorization L req1" and "message_method req1 = ''REGISTER''"
    and "H_mar H (aka_mar home (aka_extractImpi L req1) (aka_extractImpu L req1)) h = (h1, Inr maa)"
    and "av_rand (maa_auth_vector maa) \<noteq> []" and "maa_sip_auth_scheme maa = ''Digest-AKAv1-MD5''"
    and "\<not> isDeregister L req2" and "answers_challenge L md5 req1 maa p req2"
    and "normalizeAuthorizationImpi L home (da_username p) = aka_extractImpi L req1"
    and "re_auth_now env2 < re_auth_later env1 + kPendingAuthTtl"
    and "H_sar H (registration_sar home (aka_extractImpi L req1) (aka_extractImpu L req1)) h1 = (h2, Inr a)"
    and "makeContactBinding L (re_contact_now env2) req2 (contact L req2) (determineRegisterExpires L req2) None = Inr cb"
  shows "store_wf (rg_store (fst (handleRegister L md5 H home env2 req2
      (fst (handleRegister L md5 H home env1 req1 (fresh_registrar home h)))))) \<and>
    contacts_of (rg_store (fst (handleRegister L md5 H home env2 req2
      (fst (handleRegister L md5 H home env1 req1 (fresh_registrar home h)))))) (aka_extractImpu L req1) = [cb]"
proof -
  let ?b = "registration_batch L home req2 cb (aka_extractImpi L req1) (aka_extractImpu L req1) a"
  obtain resp where one: "handleRegister L md5 H home env1 req1 (fresh_registrar home h) =
      (challenged_registrar L home env1 req1 maa h1, [resp], None)"
    using first_register [OF assms(3,4,5,1,6)] by blast
  have two: "rg_store (fst (handleRegister L md5 H home env2 req2 (challenged_registrar L home env1 req1 maa h1))) =
      fst (upsertContacts (re_store_clock env2) ?b [])"
    by (rule second_register [OF assms(9,10,2,7,8,11,12,13,14)])
  have b: "distinct (bu_impus ?b)" "\<not> bu_require_existing_match ?b" "aka_extractImpu L req1 \<in> set (bu_impus ?b)"
    "bu_contact ?b = cb"
    by (simp_all add: registration_batch_def in_makeImpuSet)
  have "store_wf []" by (simp add: store_wf_def)
  then have "store_wf (fst (upsertContacts (re_store_clock env2) ?b []))" by (rule mem.inv_upserts)
  with upsertContacts_fresh [OF b(1,2,3)] show ?thesis by (simp add: one two b(4))
qed

subsection \<open>Examples\<close>

text \<open>Alice's requests: without and with credentials, and with expiry zero.\<close>

definition demo_name_addr :: osip_name_addr where
  "demo_name_addr = \<lparr>na_url = Some \<lparr>uri_scheme = Some ''sip'', uri_username = Some ''alice'',
     uri_host = Some ''ims.local'', uri_port = None, url_params = [], uri_opaque = []\<rparr>,
     na_params = [], na_opaque = ''<sip:alice@ims.local>''\<rparr>"

definition demo_register :: osip_message where
  "demo_register = empty_message\<lparr>m_method := Some ''REGISTER'', m_from := Some demo_name_addr,
     m_to := Some demo_name_addr, m_call_id := Some \<lparr>cid_number = Some ''c'', cid_host = None\<rparr>,
     m_cseq := Some \<lparr>cs_number = Some ''1'', cs_method = Some ''REGISTER''\<rparr>,
     m_contacts := [\<lparr>na_url = None, na_params = [], na_opaque = ''<sip:alice@10.0.0.1>''\<rparr>]\<rparr>"

definition demo_register_auth :: osip_message where
  "demo_register_auth = demo_register\<lparr>m_authorizations :=
     [\<lparr>auth_opaque = client_header (demo_fields\<lparr>da_response := demo_response\<rparr>)\<rparr>]\<rparr>"

definition demo_hss :: "unit hss" where
  "demo_hss =
     \<lparr>H_uar = (\<lambda>p g. (g, Inl (auth_failed []))),
      H_mar = (\<lambda>p g. (g, Inr \<lparr>maa_result_code = kDiameterSuccess, maa_sip_auth_scheme = mar_sip_auth_scheme p,
                              maa_auth_vector = demo_vector\<rparr>)),
      H_sar = (\<lambda>p g. (g, Inr \<lparr>saa_result_code = kDiameterSuccess, saa_user_profile =
                 \<lparr>up_impu = sar_impu p, up_associated_impus = [], up_ifcs = []\<rparr>\<rparr>)),
      H_lir = (\<lambda>p g. (g, Inl (auth_failed [])))\<rparr>"

definition demo_env :: "time_point \<Rightarrow> register_env" where
  "demo_env t = \<lparr>re_lookup_now = t, re_match_now = (\<lambda>c. t), re_contact_now = t, re_store_clock = (\<lambda>k. t),
     re_auth_now = t, re_auth_later = t, re_waited = Inl (auth_failed []), re_nonce = (0, 0),
     re_tag = ''tag'', re_date = ''date''\<rparr>"

lemma lowercase_names:
  "lowercase ''Expires'' = ''expires''" "lowercase ''Path'' = ''path''" "lowercase ''User-Agent'' = ''user-agent''"
  "lowercase ''Security-Client'' = ''security-client''"
  by code_simp+

lemma demo_lib_sel:
  "L_header_byname demo_lib = demo_header_byname" "L_auth_to_str demo_lib a = Some (auth_opaque a)"
  "L_contact_to_str demo_lib c = Some (na_opaque c)" "L_uri_to_str demo_lib = demo_uri_to_str"
  "L_uri_parse demo_lib = demo_uri_parse" "L_param_byname demo_lib ps k = List.find (\<lambda>p. gname p = k) ps"
  by (simp_all add: demo_lib_def)

lemma demo_register_sel:
  "m_headers demo_register = []" "m_headers demo_register_auth = []"
  "m_contacts demo_register_auth = m_contacts demo_register" "m_cseq demo_register_auth = m_cseq demo_register"
  "m_call_id demo_register_auth = m_call_id demo_register" "m_method demo_register_auth = Some ''REGISTER''"
  "m_method demo_register = Some ''REGISTER''" "m_authorizations demo_register = []"
  "m_authorizations demo_register_auth =
     [\<lparr>auth_opaque = client_header (demo_fields\<lparr>da_response := demo_response\<rparr>)\<rparr>]"
  "m_contacts demo_register = [\<lparr>na_url = None, na_params = [], na_opaque = ''<sip:alice@10.0.0.1>''\<rparr>]"
  "m_status_code demo_register = 0" "m_status_code demo_register_auth = 0"
  "m_cseq demo_register = Some \<lparr>cs_number = Some ''1'', cs_method = Some ''REGISTER''\<rparr>"
  "m_from demo_register = Some demo_name_addr" "m_to demo_register = Some demo_name_addr"
  by (simp_all add: demo_register_def demo_register_auth_def empty_message_def)

lemma demo_headers:
  "getHeader demo_lib ''Expires'' demo_register = None" "getHeader demo_lib ''Expires'' demo_register_auth = None"
  "getHeader demo_lib ''User-Agent'' demo_register_auth = None" "getHeaders demo_lib ''Path'' demo_register_auth = []"
  "getHeader demo_lib ''Authorization'' demo_register = None"
  "getHeader demo_lib ''Authorization'' demo_register_auth =
     Some (client_header (demo_fields\<lparr>da_response := demo_response\<rparr>))"
proof -
  have "client_header p \<noteq> []" for p by (simp add: client_header_def render_digest_def)
  then show "getHeader demo_lib ''Authorization'' demo_register_auth =
     Some (client_header (demo_fields\<lparr>da_response := demo_response\<rparr>))"
    by (simp add: getHeader_def getHeaders_def lowercase_Authorization demo_register_sel demo_lib_sel
        authorization_to_string_def nonempty_def)
qed (simp_all add: getHeader_def getHeaders_def lowercase_names lowercase_Authorization demo_register_sel
      demo_lib_sel demo_header_byname_def nonempty_def)

lemma demo_contact_none:
  "contact_param demo_lib k demo_register = None" "contact_param demo_lib k demo_register_auth = None"
  "contact demo_lib demo_register_auth = Some ''<sip:alice@10.0.0.1>''"
  "contact demo_lib demo_register = Some ''<sip:alice@10.0.0.1>''"
  by (simp_all add: contact_param_def contact_def contact_to_string_def demo_register_sel demo_lib_sel
      param_value_def param_gvalue_def)

lemma demo_not_dereg: "\<not> isDeregister demo_lib demo_register" "\<not> isDeregister demo_lib demo_register_auth"
  by (simp_all add: isDeregister_def expires_value_def demo_headers is_wildcard_contact_def contact_expires_def
      demo_contact_none)

lemma demo_normal:
  "normalize_impu_uri demo_lib ''alice@ims.local'' = ''alice@ims.local''"
  "normalize_impu_uri demo_lib ''sip:alice@ims.local'' = ''sip:alice@ims.local''"
  "normalize_impu_uri demo_lib ''alice'' = ''alice''"
  unfolding normalize_impu_uri_def demo_lib_sel by code_simp+

lemma demo_uri_text: "uri_to_string demo_lib (na_url demo_name_addr) = ''sip:alice@ims.local''"
  by (simp add: uri_to_string_def demo_lib_sel demo_name_addr_def demo_uri_to_str_def)

lemma demo_identities:
  "aka_extractImpi demo_lib demo_register = ''alice@ims.local''"
  "aka_extractImpu demo_lib demo_register = ''sip:alice@ims.local''"
  "normalizeAuthorizationImpi demo_lib ''ims.local'' ''alice'' = ''alice@ims.local''"
proof -
  obtain u where u: "na_url demo_name_addr = Some u" by (simp add: demo_name_addr_def)
  with demo_uri_text show "aka_extractImpi demo_lib demo_register = ''alice@ims.local''"
    "aka_extractImpu demo_lib demo_register = ''sip:alice@ims.local''"
    by (simp_all add: aka_extractImpi_def aka_extractImpu_def impi_from_authorization_or_from_def impi_from_from_def
        impu_from_to_def demo_headers to_uri_def from_uri_def name_addr_uri_def demo_register_sel u
        starts_with_def demo_normal)
  show "normalizeAuthorizationImpi demo_lib ''ims.local'' ''alice'' = ''alice@ims.local''"
    by (simp add: normalizeAuthorizationImpi_def demo_normal starts_with_def)
qed

lemma demo_cb: "\<exists>cb. makeContactBinding demo_lib 20 demo_register_auth (Some ''<sip:alice@10.0.0.1>'')
    (determineRegisterExpires demo_lib demo_register_auth) None = Inr cb \<and> expires cb = 20 + seconds 3600"
proof -
  have "stoul ''1'' = Inr 1"
    by (simp add: stoul_def scan_number_def is_space_def is_digit_def char_code_def digit_val_def Let_def)
  then have "message_cseq demo_register_auth = Inr 1" by (simp add: message_cseq_def demo_register_sel)
  then show ?thesis
    by (simp add: makeContactBinding_def determineRegisterExpires_def contact_expires_def expires_value_def
        demo_headers demo_contact_none)
qed

lemma demo_answers:
  "answers_challenge demo_lib demo_md5 demo_register
     \<lparr>maa_result_code = kDiameterSuccess, maa_sip_auth_scheme = ''Digest-AKAv1-MD5'', maa_auth_vector = demo_vector\<rparr>
     demo_fields demo_register_auth"
proof -
  have m: "message_method demo_register_auth = ''REGISTER''"
    by (simp add: message_method_def demo_register_sel)
  have "digest_response demo_md5 demo_fields (secret_of (av_xres demo_vector)) ''REGISTER'' = Some demo_response"
    by (simp add: demo_response_def digest_response_def demo_fields_def Let_def)
  then show ?thesis
    by (simp add: answers_challenge_def demo_fields_comma_free m demo_headers callId_def demo_register_sel)
      (simp add: demo_fields_def)
qed

definition demo_registered :: "unit registrar" where
  "demo_registered = fst (handleRegister demo_lib demo_md5 demo_hss ''ims.local'' (demo_env 20) demo_register_auth
     (fst (handleRegister demo_lib demo_md5 demo_hss ''ims.local'' (demo_env 10) demo_register
       (fresh_registrar ''ims.local'' ()))))"

lemma demo_second_times:
  "re_auth_now (demo_env 20) < re_auth_later (demo_env 10) + kPendingAuthTtl" "re_contact_now (demo_env 20) = 20"
  by (simp_all add: demo_env_def kPendingAuthTtl_def seconds_def)

lemma new_contacts_are_verified_or_refreshed_witness:
  "(\<exists>v. verified_as demo_lib demo_md5 (demo_env 20) demo_register_auth
      (challenged_registrar demo_lib ''ims.local'' (demo_env 10) demo_register
        \<lparr>maa_result_code = kDiameterSuccess, maa_sip_auth_scheme = ''Digest-AKAv1-MD5'',
         maa_auth_vector = demo_vector\<rparr> ()) v) \<or>
   refreshes demo_lib (demo_env 20) demo_register_auth
      (challenged_registrar demo_lib ''ims.local'' (demo_env 10) demo_register
        \<lparr>maa_result_code = kDiameterSuccess, maa_sip_auth_scheme = ''Digest-AKAv1-MD5'',
         maa_auth_vector = demo_vector\<rparr> ())"
proof -
  let ?maa = "\<lparr>maa_result_code = kDiameterSuccess, maa_sip_auth_scheme = ''Digest-AKAv1-MD5'',
    maa_auth_vector = demo_vector\<rparr>"
  let ?rg = "challenged_registrar demo_lib ''ims.local'' (demo_env 10) demo_register ?maa ()"
  obtain cb where cb: "makeContactBinding demo_lib 20 demo_register_auth (contact demo_lib demo_register_auth)
      (determineRegisterExpires demo_lib demo_register_auth) None = Inr cb"
    using demo_cb by (auto simp: demo_contact_none)
  obtain a where sar: "H_sar demo_hss (registration_sar ''ims.local'' (aka_extractImpi demo_lib demo_register)
      (aka_extractImpu demo_lib demo_register)) () = ((), Inr a)"
    by (simp add: demo_hss_def)
  let ?b = "registration_batch demo_lib ''ims.local'' demo_register_auth cb (aka_extractImpi demo_lib demo_register)
    (aka_extractImpu demo_lib demo_register) a"
  have user: "normalizeAuthorizationImpi demo_lib ''ims.local'' (da_username demo_fields) =
      aka_extractImpi demo_lib demo_register"
    by (simp add: demo_identities) (simp add: demo_fields_def demo_identities)
  have st: "rg_store (fst (handleRegister demo_lib demo_md5 demo_hss ''ims.local'' (demo_env 20) demo_register_auth ?rg)) =
      fst (upsertContacts (re_store_clock (demo_env 20)) ?b [])"
    by (rule second_register [OF demo_not_dereg(2) demo_answers _ _ _ user demo_second_times(1) sar])
      (simp_all add: demo_md5_def demo_vector_def demo_second_times(2) cb)
  have "contacts_of (fst (upsertContacts (re_store_clock (demo_env 20)) ?b [])) (aka_extractImpu demo_lib demo_register) = [cb]"
    by (subst upsertContacts_fresh) (simp_all add: registration_batch_def in_makeImpuSet)
  then show ?thesis
    using new_contacts_are_verified_or_refreshed [of cb demo_lib demo_md5 demo_hss "''ims.local''" "demo_env 20"
        demo_register_auth ?rg "aka_extractImpu demo_lib demo_register"]
    by (simp add: st) (simp add: challenged_registrar_def contacts_of_def)
qed

definition demo_deregister :: osip_message where
  "demo_deregister = demo_register\<lparr>m_contacts := [\<lparr>na_url = None, na_params = [], na_opaque = ''*''\<rparr>]\<rparr>"

lemma deregistration_is_not_authenticated_witness:
  "contacts_of (rg_store (fst (handleRegister demo_lib demo_md5 demo_hss ''ims.local'' (demo_env 30) demo_deregister
     demo_registered))) (extractImpu demo_lib demo_deregister) = []"
proof -
  have c: "contact demo_lib demo_deregister = Some ''*''"
    by (simp add: contact_def demo_deregister_def contact_to_string_def demo_lib_sel)
  show ?thesis
    by (rule deregistration_is_not_authenticated) (simp_all add: isDeregister_def is_wildcard_contact_def c)
qed

end
