(* ===== verification/Session_Router.thy ===== *)
theory Session_Router
  imports Proxy_Core Memory_Store
begin

section \<open>The session router (s-cscf/session_router.cpp)\<close>

text \<open>
  Routing of INVITE, BYE, ACK, PRACK and CANCEL at the S-CSCF, and the table of sessions that
  answers where an in-dialog request goes.  A handler returns the router, the actions it takes in
  order and the exception it leaves with, if any; the callbacks it registers for the responses are
  operations of their own (\<open>invite_response\<close>, \<open>bye_response\<close>, \<open>prack_response\<close>) that take the values
  the closures capture.
\<close>

record DialogKey =
  dk_call_id :: string
  dk_caller_tag :: string
  dk_callee_tag :: string

record SessionInfo =
  si_call_id :: string
  si_caller_tag :: string
  si_callee_tag :: string
  si_caller_impu :: string
  si_callee_impu :: string
  si_caller_endpoint :: Endpoint
  si_callee_endpoint :: Endpoint
  si_callee_invite_branch :: string
  si_created :: time_point
  si_last_updated :: time_point
  si_established :: bool
  si_bye_seen :: bool
  si_cancel_seen :: bool

type_synonym sessions = "(DialogKey, SessionInfo) umap"

record router =
  rt_store :: bindings
  rt_sessions :: sessions

text \<open>The environment of a call: clock readings, the tag of the response it may create, the fresh
  branch, and what the transport and the transaction layer answer.\<close>

record router_env =
  ro_now :: time_point
  ro_lookup_now :: time_point
  ro_active_now :: time_point
  ro_resolve_now :: time_point
  ro_tag :: string
  ro_branch :: string
  ro_sent :: "unit result"
  ro_transport :: transport

type_synonym router_outcome = "router \<times> action list \<times> std_exception option"

definition kInviteSessionTtl :: int where
  "kInviteSessionTtl = minutes 3"

definition dialog_key :: "string \<Rightarrow> string \<Rightarrow> string \<Rightarrow> DialogKey" where
  "dialog_key call_id caller_tag callee_tag =
     \<lparr>dk_call_id = call_id, dk_caller_tag = caller_tag, dk_callee_tag = callee_tag\<rparr>"

definition isUsableDestination :: "Endpoint \<Rightarrow> bool" where
  "isUsableDestination e \<longleftrightarrow> ep_address e \<noteq> [] \<and> ep_address e \<noteq> ''0.0.0.0''"

definition isInDialogRequest :: "osip_lib \<Rightarrow> osip_message \<Rightarrow> bool" where
  "isInDialogRequest L request \<longleftrightarrow> toTag L request \<noteq> []"

subsection \<open>The table of sessions\<close>

definition findSessionForRequest :: "osip_lib \<Rightarrow> osip_message \<Rightarrow> sessions \<Rightarrow> DialogKey option" where
  "findSessionForRequest L request ss =
     (let direct = dialog_key (callId request) (fromTag L request) (toTag L request);
          backward = dialog_key (callId request) (toTag L request) (fromTag L request)
      in if um_find ss direct \<noteq> None then Some direct
         else if um_find ss backward \<noteq> None then Some backward
         else None)"

definition findInitialSession :: "string \<Rightarrow> string \<Rightarrow> sessions \<Rightarrow> DialogKey option" where
  "findInitialSession call_id caller_tag ss =
     (let key = dialog_key call_id caller_tag [] in if um_find ss key = None then None else Some key)"

definition findCancelSession :: "osip_lib \<Rightarrow> osip_message \<Rightarrow> sessions \<Rightarrow> DialogKey option" where
  "findCancelSession L request ss =
     (case findInitialSession (callId request) (fromTag L request) ss of
        Some k \<Rightarrow> Some k | None \<Rightarrow> findSessionForRequest L request ss)"

definition resolveInDialogDestination :: "osip_lib \<Rightarrow> osip_message \<Rightarrow> SessionInfo \<Rightarrow> Endpoint option" where
  "resolveInDialogDestination L request s =
     (if si_cancel_seen s \<and> si_callee_tag s = [] \<and> fromTag L request = si_caller_tag s \<and> toTag L request = []
      then Some (si_callee_endpoint s)
      else if si_callee_tag s \<noteq> [] \<and> fromTag L request = si_caller_tag s \<and> toTag L request = si_callee_tag s
      then Some (si_callee_endpoint s)
      else if si_callee_tag s \<noteq> [] \<and> fromTag L request = si_callee_tag s \<and> toTag L request = si_caller_tag s
      then Some (si_caller_endpoint s)
      else None)"

definition eraseSession :: "DialogKey \<Rightarrow> sessions \<Rightarrow> sessions" where
  "eraseSession key ss = um_erase key ss"

definition eraseInviteSessions :: "string \<Rightarrow> string \<Rightarrow> sessions \<Rightarrow> sessions" where
  "eraseInviteSessions call_id caller_tag ss =
     um_erase_if (\<lambda>(k, s). dk_call_id k = call_id \<and> dk_caller_tag k = caller_tag \<and>
       (dk_callee_tag k = [] \<or> \<not> si_established s)) ss"

definition purgeExpiredSessions :: "time_point \<Rightarrow> sessions \<Rightarrow> sessions" where
  "purgeExpiredSessions now ss =
     um_erase_if (\<lambda>(k, s). \<not> si_established s \<and> kInviteSessionTtl \<le> now - si_last_updated s) ss"

definition eraseCanceledSessions :: "DialogKey \<Rightarrow> sessions \<Rightarrow> sessions" where
  "eraseCanceledSessions key ss =
     (let caller_tag = (if dk_caller_tag key = [] then dk_callee_tag key else dk_caller_tag key);
          ss1 = eraseSession (dialog_key (dk_call_id key) caller_tag []) ss
      in if dk_callee_tag key \<noteq> [] then eraseSession key ss1 else ss1)"

definition recordInviteResponseDialogLocked ::
  "string \<Rightarrow> string \<Rightarrow> string \<Rightarrow> bool \<Rightarrow> time_point \<Rightarrow> sessions \<Rightarrow> sessions" where
  "recordInviteResponseDialogLocked call_id caller_tag callee_tag established now ss =
     (let key = dialog_key call_id caller_tag callee_tag in
      case um_find ss key of
        Some d \<Rightarrow> um_put key (d\<lparr>si_established := si_established d \<or> established, si_last_updated := now\<rparr>) ss
      | None \<Rightarrow>
          (case findInitialSession call_id caller_tag ss of
             None \<Rightarrow> ss
           | Some k0 \<Rightarrow>
               um_put key ((the (um_find ss k0))\<lparr>si_callee_tag := callee_tag, si_last_updated := now,
                              si_established := established\<rparr>) ss))"

definition recordInviteResponseDialog ::
  "string \<Rightarrow> string \<Rightarrow> string \<Rightarrow> time_point \<Rightarrow> sessions \<Rightarrow> sessions" where
  "recordInviteResponseDialog call_id caller_tag callee_tag now ss =
     recordInviteResponseDialogLocked call_id caller_tag callee_tag False now (purgeExpiredSessions now ss)"

definition handleInviteResponseState ::
  "osip_lib \<Rightarrow> time_point \<Rightarrow> string \<Rightarrow> string \<Rightarrow> osip_message \<Rightarrow> sessions \<Rightarrow> sessions" where
  "handleInviteResponseState L now call_id caller_tag response ss0 =
     (let status = statusCode response;
          callee_tag = toTag L response;
          ss = purgeExpiredSessions now ss0
      in if status = 100 then ss
         else if 100 < status \<and> status < 200 \<and> callee_tag \<noteq> []
         then recordInviteResponseDialogLocked call_id caller_tag callee_tag False now ss
         else if 200 \<le> status \<and> status < 300
         then eraseSession (dialog_key call_id caller_tag [])
                (if callee_tag \<noteq> [] then recordInviteResponseDialogLocked call_id caller_tag callee_tag True now ss
                 else ss)
         else if 300 \<le> status \<and> status \<le> 699 then eraseInviteSessions call_id caller_tag ss
         else ss)"

subsection \<open>Destinations\<close>

definition lookupCallee ::
  "osip_lib \<Rightarrow> time_point \<Rightarrow> string \<Rightarrow> bindings \<Rightarrow> bindings \<times> RegistrationBinding result" where
  "lookupCallee L now request_uri regs = lookup now (normalize_impu_uri L request_uri) regs"

definition resolveBindingDestination :: "osip_lib \<Rightarrow> time_point \<Rightarrow> RegistrationBinding \<Rightarrow> Endpoint result" where
  "resolveBindingDestination L now binding =
     (case active_contacts now binding of
        [] \<Rightarrow> Inl (mk_error kRegistrationExpired ''No active contacts for callee'' [])
      | c # _ \<Rightarrow>
          (let d0 = default_endpoint;
               d1 = (if path c \<noteq> [] then
                       (case parse_endpoint_from_uri L (path c) of
                          Some p \<Rightarrow> if isUsableDestination p then p else d0 | None \<Rightarrow> d0)
                     else d0);
               d2 = (if \<not> isUsableDestination d1 then
                       (case parse_endpoint_from_uri L (contact_uri c) of Some p \<Rightarrow> p | None \<Rightarrow> d1)
                     else d1)
           in if \<not> isUsableDestination d2
              then Inl (mk_error kSipDialogNotFound ''Failed to derive destination from Path or Contact'' [])
              else Inr d2))"

text \<open>Where an in-dialog request goes: the session it belongs to, and the other party of it.\<close>

definition in_dialog_target :: "osip_lib \<Rightarrow> osip_message \<Rightarrow> sessions \<Rightarrow> (DialogKey \<times> Endpoint) option" where
  "in_dialog_target L request ss =
     (case findSessionForRequest L request ss of
        None \<Rightarrow> None
      | Some k \<Rightarrow>
          (case resolveInDialogDestination L request (the (um_find ss k)) of
             None \<Rightarrow> None | Some d \<Rightarrow> Some (k, d)))"

subsection \<open>INVITE\<close>

definition router_error :: "osip_lib \<Rightarrow> router_env \<Rightarrow> osip_message \<Rightarrow> int \<Rightarrow> string \<Rightarrow> action list" where
  "router_error L env request code reason = upstream_error L (ro_tag env) request code reason"

text \<open>The target of an initial INVITE: the changed request, the destination and the callee's identity,
  or the status and reason of the answer.\<close>

definition initial_target ::
  "osip_lib \<Rightarrow> Endpoint option \<Rightarrow> router_env \<Rightarrow> osip_message \<Rightarrow> osip_message \<Rightarrow> bindings \<Rightarrow>
     bindings \<times> ((int \<times> string) + (osip_message \<times> Endpoint \<times> string))" where
  "initial_target L peer env request fwd regs =
     (let uri = requestUri L request;
          (regs1, found) = lookupCallee L (ro_lookup_now env) uri regs
      in (regs1,
          case found of
            Inl _ \<Rightarrow> (case peer of
                        None \<Rightarrow> Inl (404, ''Not Found'')
                      | Some p \<Rightarrow> Inr (fwd, p, normalize_impu_uri L uri))
          | Inr binding \<Rightarrow>
              (case active_contacts (ro_active_now env) binding of
                 [] \<Rightarrow> Inl (480, ''Temporarily Unavailable'')
               | c # _ \<Rightarrow>
                   (let target_uri = extract_uri_from_name_addr (contact_uri c);
                        fwd1 = (if target_uri \<noteq> [] then setRequestUri L target_uri fwd else fwd)
                    in case resolveBindingDestination L (ro_resolve_now env) binding of
                         Inl _ \<Rightarrow> Inl (480, ''Temporarily Unavailable'')
                       | Inr d \<Rightarrow> Inr (fwd1, d, impu binding)))))"

definition fresh_session :: "SessionInfo" where
  "fresh_session =
     \<lparr>si_call_id = [], si_caller_tag = [], si_callee_tag = [], si_caller_impu = [], si_callee_impu = [],
      si_caller_endpoint = default_endpoint, si_callee_endpoint = default_endpoint,
      si_callee_invite_branch = [], si_created = 0, si_last_updated = 0, si_established = False,
      si_bye_seen = False, si_cancel_seen = False\<rparr>"

text \<open>\<^verbatim>\<open>sessions_[key]\<close> is the session there was, or a fresh one; \<^verbatim>\<open>cancel_seen\<close>
  keeps its value.\<close>

definition open_session ::
  "time_point \<Rightarrow> string \<Rightarrow> string \<Rightarrow> string \<Rightarrow> Endpoint \<Rightarrow> string \<Rightarrow> Endpoint \<Rightarrow> string \<Rightarrow> sessions \<Rightarrow> sessions" where
  "open_session now call_id from_tag caller_impu caller_ep callee_impu callee_ep branch ss0 =
     (let ss = purgeExpiredSessions now ss0;
          key = dialog_key call_id from_tag [];
          s = (case um_find ss key of Some s \<Rightarrow> s | None \<Rightarrow> fresh_session)
      in um_put key
           (s\<lparr>si_call_id := call_id, si_caller_tag := from_tag, si_callee_tag := [],
              si_caller_impu := caller_impu, si_caller_endpoint := caller_ep, si_callee_impu := callee_impu,
              si_callee_endpoint := callee_ep, si_callee_invite_branch := branch, si_created := now,
              si_last_updated := now, si_established := False, si_bye_seen := False\<rparr>) ss)"

definition handleInvite ::
  "osip_lib \<Rightarrow> proxy \<Rightarrow> Endpoint option \<Rightarrow> router_env \<Rightarrow> Endpoint \<Rightarrow> osip_message \<Rightarrow> router \<Rightarrow> router_outcome" where
  "handleInvite L px peer env source request rt =
     (let trying = router_error L env request 100 ''Trying'' in
      case clone L request of
        Inl _ \<Rightarrow> (rt, trying @ router_error L env request 500 ''Server Internal Error'', None)
      | Inr fwd \<Rightarrow>
          (let in_dialog = isInDialogRequest L request;
               (rt1, target) =
                 (if in_dialog then
                    (rt, case in_dialog_target L request (rt_sessions rt) of
                           None \<Rightarrow> Inl (481, ''Call/Transaction Does Not Exist'')
                         | Some (k, d) \<Rightarrow> Inr (fwd, d, []))
                  else
                    (let (regs1, t) = initial_target L peer env request fwd (rt_store rt)
                     in (rt\<lparr>rt_store := regs1\<rparr>, t)))
           in case target of
                Inl (code, reason) \<Rightarrow> (rt1, trying @ router_error L env request code reason, None)
              | Inr (fwd1, dest, callee) \<Rightarrow>
                  (case prepareRequestForForward L px (ro_branch env) (ep_transport dest)
                          (fst (processRouteHeaders L px fwd1)) of
                     Inl ex \<Rightarrow> (rt1, trying, Some ex)
                   | Inr (fwd2, Inl e) \<Rightarrow>
                       (rt1, trying @ router_error L env request 500 ''Server Internal Error'', None)
                   | Inr (fwd2, Inr _) \<Rightarrow>
                       ((if in_dialog then rt1
                         else rt1\<lparr>rt_sessions := open_session (ro_now env) (callId request) (fromTag L request)
                                (fromHeader L request) source callee dest (viaBranch L fwd2) (rt_sessions rt1)\<rparr>),
                        trying @ [Downstream fwd2 dest], None))))"

definition invite_response ::
  "osip_lib \<Rightarrow> router_env \<Rightarrow> string \<Rightarrow> string \<Rightarrow> bool \<Rightarrow> osip_message \<Rightarrow> router \<Rightarrow> router \<times> action list" where
  "invite_response L env call_id from_tag in_dialog response rt =
     ((if in_dialog then rt
       else rt\<lparr>rt_sessions := handleInviteResponseState L (ro_now env) call_id from_tag response (rt_sessions rt)\<rparr>),
      fst (forwardResponseUpstream L response (ro_sent env)))"

subsection \<open>BYE, PRACK, ACK and CANCEL\<close>

text \<open>The stateful forwarding of an in-dialog request, shared by BYE and PRACK.\<close>

definition forward_in_dialog ::
  "osip_lib \<Rightarrow> proxy \<Rightarrow> router_env \<Rightarrow> osip_message \<Rightarrow> osip_message \<Rightarrow> Endpoint \<Rightarrow> action list \<times> std_exception option" where
  "forward_in_dialog L px env request fwd dest =
     (case prepareRequestForForward L px (ro_branch env) (ep_transport dest) (fst (processRouteHeaders L px fwd)) of
        Inl ex \<Rightarrow> ([], Some ex)
      | Inr (fwd1, Inl e) \<Rightarrow> (router_error L env request 500 ''Server Internal Error'', None)
      | Inr (fwd1, Inr _) \<Rightarrow> ([Downstream fwd1 dest], None))"

definition handleBye :: "osip_lib \<Rightarrow> proxy \<Rightarrow> router_env \<Rightarrow> osip_message \<Rightarrow> router \<Rightarrow> router_outcome" where
  "handleBye L px env request rt =
     (case clone L request of
        Inl _ \<Rightarrow> (rt, router_error L env request 500 ''Server Internal Error'', None)
      | Inr fwd \<Rightarrow>
          (case in_dialog_target L request (rt_sessions rt) of
             None \<Rightarrow> (rt, router_error L env request 481 ''Call/Transaction Does Not Exist'', None)
           | Some (key, dest) \<Rightarrow>
               (let s = the (um_find (rt_sessions rt) key);
                    rt1 = rt\<lparr>rt_sessions := um_put key (s\<lparr>si_bye_seen := True\<rparr>) (rt_sessions rt)\<rparr>
                in (rt1, forward_in_dialog L px env request fwd dest))))"

definition bye_response ::
  "osip_lib \<Rightarrow> router_env \<Rightarrow> DialogKey \<Rightarrow> osip_message \<Rightarrow> router \<Rightarrow> router \<times> action list" where
  "bye_response L env key response rt =
     (let (acts, r) = forwardResponseUpstream L response (ro_sent env) in
      case r of
        Inl _ \<Rightarrow> (rt, acts)
      | Inr _ \<Rightarrow>
          ((if 200 \<le> statusCode response \<and> statusCode response < 300 \<and>
               (case um_find (rt_sessions rt) key of None \<Rightarrow> False | Some s \<Rightarrow> si_bye_seen s)
            then rt\<lparr>rt_sessions := eraseSession key (rt_sessions rt)\<rparr> else rt), acts))"

definition handlePrack :: "osip_lib \<Rightarrow> proxy \<Rightarrow> router_env \<Rightarrow> osip_message \<Rightarrow> router \<Rightarrow> router_outcome" where
  "handlePrack L px env request rt =
     (case clone L request of
        Inl _ \<Rightarrow> (rt, router_error L env request 500 ''Server Internal Error'', None)
      | Inr fwd \<Rightarrow>
          (case in_dialog_target L request (rt_sessions rt) of
             None \<Rightarrow> (rt, router_error L env request 481 ''Call/Transaction Does Not Exist'', None)
           | Some (key, dest) \<Rightarrow> (rt, forward_in_dialog L px env request fwd dest)))"

definition prack_response :: "osip_lib \<Rightarrow> router_env \<Rightarrow> osip_message \<Rightarrow> router \<Rightarrow> router \<times> action list" where
  "prack_response L env response rt = (rt, fst (forwardResponseUpstream L response (ro_sent env)))"

definition ack_target :: "osip_lib \<Rightarrow> osip_message \<Rightarrow> sessions \<Rightarrow> (sessions \<times> Endpoint) option" where
  "ack_target L request ss =
     (case findSessionForRequest L request ss of
        None \<Rightarrow>
          (case findInitialSession (callId request) (fromTag L request) ss of
             None \<Rightarrow> None
           | Some k \<Rightarrow>
               (let s = the (um_find ss k) in
                if \<not> si_cancel_seen s then None
                else Some (eraseCanceledSessions k ss, si_callee_endpoint s)))
      | Some k \<Rightarrow>
          (let s = the (um_find ss k) in
           case resolveInDialogDestination L request s of
             None \<Rightarrow> None
           | Some d \<Rightarrow> Some (if si_cancel_seen s then eraseCanceledSessions k ss else ss, d)))"

definition handleAck :: "osip_lib \<Rightarrow> proxy \<Rightarrow> router_env \<Rightarrow> osip_message \<Rightarrow> router \<Rightarrow> router_outcome" where
  "handleAck L px env request rt =
     (case clone L request of
        Inl _ \<Rightarrow> (rt, [], None)
      | Inr fwd \<Rightarrow>
          (case ack_target L request (rt_sessions rt) of
             None \<Rightarrow> (rt, [], None)
           | Some (ss, dest) \<Rightarrow>
               (let rt1 = rt\<lparr>rt_sessions := ss\<rparr> in
                case forwardRequest L px (ro_branch env) (fst (processRouteHeaders L px fwd)) dest (ro_transport env) of
                  Inl ex \<Rightarrow> (rt1, [], Some ex)
                | Inr (fwd1, acts, r) \<Rightarrow> (rt1, acts, None))))"

definition handleCancel :: "osip_lib \<Rightarrow> proxy \<Rightarrow> router_env \<Rightarrow> osip_message \<Rightarrow> router \<Rightarrow> router_outcome" where
  "handleCancel L px env request rt =
     (let ok = router_error L env request 200 ''OK'' in
      case findCancelSession L request (rt_sessions rt) of
        None \<Rightarrow> (rt, ok, None)
      | Some key \<Rightarrow>
          (let s = (the (um_find (rt_sessions rt) key))\<lparr>si_cancel_seen := True\<rparr>;
               rt1 = rt\<lparr>rt_sessions := um_put key s (rt_sessions rt)\<rparr>
           in case buildForwardedCancel L px (ro_branch env) request
                     \<lparr>cc_transport = ep_transport (si_callee_endpoint s),
                      cc_invite_branch = si_callee_invite_branch s, cc_local_address = local_address px,
                      cc_local_port = local_port px, cc_decrement_max_forwards = True,
                      cc_process_route_headers = True\<rparr> of
                Inl ex \<Rightarrow> (rt1, ok, Some ex)
              | Inr (Inl e) \<Rightarrow> (rt1, ok, None)
              | Inr (Inr fwd) \<Rightarrow> (rt1, ok @ [Downstream fwd (si_callee_endpoint s)], None)))"

subsection \<open>The invariant of the table\<close>

definition session_entry_ok :: "DialogKey \<Rightarrow> SessionInfo \<Rightarrow> bool" where
  "session_entry_ok k s \<longleftrightarrow>
     k = dialog_key (si_call_id s) (si_caller_tag s) (si_callee_tag s) \<and>
     (si_established s \<longrightarrow> si_callee_tag s \<noteq> [])"

definition sessions_ok :: "sessions \<Rightarrow> bool" where
  "sessions_ok ss \<longleftrightarrow> um_wf ss \<and> (\<forall>k s. um_find ss k = Some s \<longrightarrow> session_entry_ok k s)"

lemma dialog_key_eq [simp]:
  "dialog_key a b c = dialog_key a' b' c' \<longleftrightarrow> a = a' \<and> b = b' \<and> c = c'"
  "dk_call_id (dialog_key a b c) = a" "dk_caller_tag (dialog_key a b c) = b" "dk_callee_tag (dialog_key a b c) = c"
  by (simp_all add: dialog_key_def)

lemma sessions_ok_find: "sessions_ok ss \<Longrightarrow> um_find ss k = Some s \<Longrightarrow> session_entry_ok k s"
  by (simp add: sessions_ok_def)

lemma sessions_ok_put: "sessions_ok ss \<Longrightarrow> session_entry_ok k s \<Longrightarrow> sessions_ok (um_put k s ss)"
  by (simp add: sessions_ok_def um_wfs um_lookup)

lemma sessions_ok_erase_if: "sessions_ok ss \<Longrightarrow> sessions_ok (um_erase_if P ss)"
  using um_find_erase_if_Some unfolding sessions_ok_def by (metis um_wf_erase_if)

lemma sessions_ok_erase [simp]:
  "sessions_ok ss \<Longrightarrow> sessions_ok (eraseSession k ss)"
  "sessions_ok ss \<Longrightarrow> sessions_ok (eraseCanceledSessions k ss)"
  "sessions_ok ss \<Longrightarrow> sessions_ok (eraseInviteSessions c t ss)"
  "sessions_ok ss \<Longrightarrow> sessions_ok (purgeExpiredSessions now ss)"
  by (simp_all add: eraseSession_def eraseCanceledSessions_def eraseInviteSessions_def purgeExpiredSessions_def
      um_erase_def sessions_ok_erase_if Let_def)

lemma findInitialSession_Some:
  "findInitialSession c t ss = Some k \<Longrightarrow> k = dialog_key c t [] \<and> um_find ss k \<noteq> None"
  by (auto simp: findInitialSession_def Let_def split: if_splits)

lemma sessions_ok_record:
  assumes ok: "sessions_ok ss" and tag: "callee_tag \<noteq> []"
  shows "sessions_ok (recordInviteResponseDialogLocked c t callee_tag e now ss)"
proof (cases "um_find ss (dialog_key c t callee_tag)")
  case (Some d)
  with sessions_ok_find [OF ok Some] tag show ?thesis
    by (auto simp: recordInviteResponseDialogLocked_def session_entry_ok_def Let_def intro!: sessions_ok_put [OF ok])
next
  case None
  show ?thesis
  proof (cases "findInitialSession c t ss")
    case None
    with \<open>um_find ss _ = None\<close> ok show ?thesis by (simp add: recordInviteResponseDialogLocked_def Let_def)
  next
    case (Some k)
    then obtain s where "k = dialog_key c t []" "um_find ss k = Some s" using findInitialSession_Some by blast
    with \<open>um_find ss _ = None\<close> Some sessions_ok_find [OF ok, of k s] tag show ?thesis
      by (auto simp: recordInviteResponseDialogLocked_def session_entry_ok_def Let_def
          intro!: sessions_ok_put [OF ok])
  qed
qed

lemma sessions_ok_response:
  "sessions_ok ss \<Longrightarrow> sessions_ok (handleInviteResponseState L now c t r ss)"
  by (simp add: handleInviteResponseState_def sessions_ok_record Let_def)

lemma sessions_ok_open: "sessions_ok ss \<Longrightarrow> sessions_ok (open_session now c t i src p d b ss)"
  by (simp add: open_session_def Let_def session_entry_ok_def sessions_ok_put)

lemma in_dialog_target_Some:
  "in_dialog_target L req ss = Some (k, d) \<Longrightarrow>
   \<exists>s. um_find ss k = Some s \<and> resolveInDialogDestination L req s = Some d \<and>
     (k = dialog_key (callId req) (fromTag L req) (toTag L req) \<or>
      k = dialog_key (callId req) (toTag L req) (fromTag L req))"
  by (auto simp: in_dialog_target_def findSessionForRequest_def Let_def split: option.splits if_splits)

lemma findSession_Some: "findSessionForRequest L req ss = Some k \<Longrightarrow> um_find ss k \<noteq> None"
  by (auto simp: findSessionForRequest_def Let_def split: if_splits)

lemma findCancelSession_Some: "findCancelSession L req ss = Some k \<Longrightarrow> um_find ss k \<noteq> None"
  by (auto simp: findCancelSession_def dest: findInitialSession_Some findSession_Some split: option.splits)

text \<open>A change of a session that keeps its identity.\<close>

lemma sessions_ok_mark:
  assumes "sessions_ok ss" "um_find ss k = Some s"
  shows "sessions_ok (um_put k (s\<lparr>si_bye_seen := b\<rparr>) ss)" "sessions_ok (um_put k (s\<lparr>si_cancel_seen := b\<rparr>) ss)"
  using sessions_ok_find [OF assms] by (auto simp: session_entry_ok_def intro!: sessions_ok_put [OF assms(1)])

text \<open>What the router may do, in any order.\<close>

inductive router_reach :: "osip_lib \<Rightarrow> proxy \<Rightarrow> Endpoint option \<Rightarrow> router \<Rightarrow> bool" for L px peer where
  start: "router_reach L px peer \<lparr>rt_store = regs, rt_sessions = []\<rparr>"
| registrar: "router_reach L px peer rt \<Longrightarrow> router_reach L px peer (rt\<lparr>rt_store := regs\<rparr>)"
| invite: "router_reach L px peer rt \<Longrightarrow> router_reach L px peer (fst (handleInvite L px peer env src req rt))"
| invite_response: "router_reach L px peer rt \<Longrightarrow>
    router_reach L px peer (fst (invite_response L env c t b resp rt))"
| bye: "router_reach L px peer rt \<Longrightarrow> router_reach L px peer (fst (handleBye L px env req rt))"
| bye_response: "router_reach L px peer rt \<Longrightarrow> router_reach L px peer (fst (bye_response L env k resp rt))"
| prack: "router_reach L px peer rt \<Longrightarrow> router_reach L px peer (fst (handlePrack L px env req rt))"
| ack: "router_reach L px peer rt \<Longrightarrow> router_reach L px peer (fst (handleAck L px env req rt))"
| cancel: "router_reach L px peer rt \<Longrightarrow> router_reach L px peer (fst (handleCancel L px env req rt))"

lemma handleInvite_sessions:
  "rt_sessions (fst (handleInvite L px peer env src req rt)) = rt_sessions rt \<or>
   (\<exists>i p d b. rt_sessions (fst (handleInvite L px peer env src req rt)) =
      open_session (ro_now env) (callId req) (fromTag L req) i src p d b (rt_sessions rt))"
  by (auto simp: handleInvite_def Let_def case_prod_beta split: sum.split)

lemma handleBye_ok: "sessions_ok (rt_sessions rt) \<Longrightarrow> sessions_ok (rt_sessions (fst (handleBye L px env req rt)))"
  by (auto simp: handleBye_def Let_def intro: sessions_ok_mark dest!: in_dialog_target_Some split: sum.split option.split)

lemma handleAck_ok: "sessions_ok (rt_sessions rt) \<Longrightarrow> sessions_ok (rt_sessions (fst (handleAck L px env req rt)))"
  by (auto simp: handleAck_def ack_target_def Let_def split: sum.split option.splits)

lemma handleCancel_ok: "sessions_ok (rt_sessions rt) \<Longrightarrow> sessions_ok (rt_sessions (fst (handleCancel L px env req rt)))"
  by (auto simp: handleCancel_def Let_def intro: sessions_ok_mark dest!: findCancelSession_Some split: sum.split option.split)

lemma router_reach_ok: "router_reach L px peer rt \<Longrightarrow> sessions_ok (rt_sessions rt)"
proof (induction rule: router_reach.induct)
  case (invite rt env src req)
  then show ?case using handleInvite_sessions [of L px peer env src req rt] by (auto simp: sessions_ok_open)
next
  case (prack rt env req)
  then show ?case by (auto simp: handlePrack_def split: sum.split option.split)
qed (auto simp: sessions_ok_def [of "[]"] invite_response_def sessions_ok_response bye_response_def
      handleBye_ok handleAck_ok handleCancel_ok Let_def case_prod_beta split: sum.split)

subsection \<open>Properties\<close>

text \<open>C9: A request inside a dialog is routed to the other party of that dialog: at any point of any run
  of the router, the destination found for a request is the endpoint of the callee when it comes
  from the caller's tag, and the endpoint of the caller when it comes from the callee's tag, of a
  session with the request's own Call-ID.\<close>

theorem in_dialog_requests_reach_the_other_party:
  assumes "router_reach L px peer rt" and "toTag L req \<noteq> []"
    and "in_dialog_target L req (rt_sessions rt) = Some (k, d)"
  shows "\<exists>s. um_find (rt_sessions rt) k = Some s \<and> si_call_id s = callId req \<and>
    (fromTag L req = si_caller_tag s \<and> toTag L req = si_callee_tag s \<and> d = si_callee_endpoint s \<or>
     fromTag L req = si_callee_tag s \<and> toTag L req = si_caller_tag s \<and> d = si_caller_endpoint s)"
proof -
  from in_dialog_target_Some [OF assms(3)] obtain s where s: "um_find (rt_sessions rt) k = Some s"
    and r: "resolveInDialogDestination L req s = Some d"
    and k: "k = dialog_key (callId req) (fromTag L req) (toTag L req) \<or>
      k = dialog_key (callId req) (toTag L req) (fromTag L req)"
    by blast
  have "session_entry_ok k s" by (rule sessions_ok_find [OF router_reach_ok [OF assms(1)] s])
  with k have "si_call_id s = callId req" by (auto simp: session_entry_ok_def)
  with s r assms(2) show ?thesis by (auto simp: resolveInDialogDestination_def split: if_splits)
qed

text \<open>What an initial INVITE leaves behind when it is passed on.\<close>

lemma router_error_no_downstream: "Downstream m d \<notin> set (router_error L env req code reason)"
  by (simp add: router_error_def upstream_error_no_downstream)

lemma invite_passed_on:
  assumes "\<not> isInDialogRequest L req"
    and "handleInvite L px peer env src req rt = (rt', acts, ex)" and "Downstream fwd dest \<in> set acts"
  shows "\<exists>i p m0. rt_sessions rt' = open_session (ro_now env) (callId req) (fromTag L req) i src p dest
      (viaBranch L fwd) (rt_sessions rt) \<and>
    prepareRequestForForward L px (ro_branch env) (ep_transport dest) m0 = Inr (fwd, Inr ())"
  using assms router_error_no_downstream
  by (auto simp: handleInvite_def Let_def case_prod_beta split: sum.splits prod.splits if_splits) blast

definition no_session_for :: "string \<Rightarrow> sessions \<Rightarrow> bool" where
  "no_session_for c ss \<longleftrightarrow> (\<forall>k. dk_call_id k = c \<longrightarrow> um_find ss k = None)"

definition opened :: "time_point \<Rightarrow> string \<Rightarrow> string \<Rightarrow> string \<Rightarrow> Endpoint \<Rightarrow> string \<Rightarrow> Endpoint \<Rightarrow> string \<Rightarrow> SessionInfo" where
  "opened now c t i src p d b = fresh_session
     \<lparr>si_call_id := c, si_caller_tag := t, si_callee_tag := [], si_caller_impu := i,
      si_caller_endpoint := src, si_callee_impu := p, si_callee_endpoint := d, si_callee_invite_branch := b,
      si_created := now, si_last_updated := now, si_established := False, si_bye_seen := False\<rparr>"

lemma find_open_session:
  assumes "no_session_for c ss" "um_wf ss"
  shows "um_find (open_session now c t i src p d b ss) k =
    (if k = dialog_key c t [] then Some (opened now c t i src p d b)
     else um_find (purgeExpiredSessions now ss) k)"
proof -
  have "um_find (purgeExpiredSessions now ss) (dialog_key c t []) = None"
    using assms um_find_erase_if_Some unfolding purgeExpiredSessions_def no_session_for_def
    by (metis dialog_key_eq(2) not_None_eq)
  then show ?thesis by (simp add: open_session_def opened_def um_lookup Let_def)
qed

lemma um_find_erase_if_keep: "um_wf m \<Longrightarrow> um_find m k = Some v \<Longrightarrow> \<not> P (k, v) \<Longrightarrow> um_find (um_erase_if P m) k = Some v"
  using um_wf_in [of "um_erase_if P m" k v] um_wf_in [of m k v] um_wf_erase_if [of m P]
  by (simp add: um_erase_if_def)

text \<open>The table after the INVITE was answered with a 2xx.\<close>

lemma answered_session:
  assumes ss: "no_session_for c ss" "um_wf ss" and fresh: "later - now < kInviteSessionTtl"
    and resp: "200 \<le> statusCode resp" "statusCode resp < 300" "toTag L resp = ct" "ct \<noteq> []"
  shows "um_find (handleInviteResponseState L later c t resp (open_session now c t i src p d b ss)) (dialog_key c x y) =
    (if x = t \<and> y = ct then Some ((opened now c t i src p d b)
       \<lparr>si_callee_tag := ct, si_last_updated := later, si_established := True\<rparr>) else None)"
proof -
  let ?s0 = "open_session now c t i src p d b ss"
  have wf: "um_wf ?s0" using ss(2) by (simp add: open_session_def purgeExpiredSessions_def um_wfs Let_def)
  have s0: "um_find ?s0 (dialog_key c x y) = (if x = t \<and> y = [] then Some (opened now c t i src p d b) else None)" for x y
  proof -
    have "um_find (purgeExpiredSessions now ss) (dialog_key c x y) = None"
      using ss um_find_erase_if_Some unfolding purgeExpiredSessions_def no_session_for_def
      by (metis dialog_key_eq(2) not_None_eq)
    then show ?thesis by (simp add: find_open_session [OF ss])
  qed
  let ?s1 = "purgeExpiredSessions later ?s0"
  have s1: "um_find ?s1 (dialog_key c x y) = (if x = t \<and> y = [] then Some (opened now c t i src p d b) else None)" for x y
  proof (cases "x = t \<and> y = []")
    case True
    then show ?thesis unfolding purgeExpiredSessions_def
      using s0 [of t "[]"] fresh by (simp add: um_find_erase_if_keep [OF wf] opened_def)
  next
    case False
    then show ?thesis unfolding purgeExpiredSessions_def
      using s0 [of x y] um_find_erase_if_Some [OF wf] by (metis not_None_eq)
  qed
  have "handleInviteResponseState L later c t resp ?s0 = eraseSession (dialog_key c t [])
      (um_put (dialog_key c t ct) ((opened now c t i src p d b)
        \<lparr>si_callee_tag := ct, si_last_updated := later, si_established := True\<rparr>) ?s1)"
    using resp s1 [of t ct] s1 [of t "[]"]
    by (simp add: handleInviteResponseState_def recordInviteResponseDialogLocked_def findInitialSession_def Let_def)
  with resp(4) s1 show ?thesis by (auto simp: eraseSession_def um_lookup)
qed

text \<open>The session an answered INVITE leaves takes a BYE of the callee to the caller.\<close>

lemma answered_call_bye:
  assumes "clone_ok L" and "router_reach L px peer rt" and "no_session_for (callId invite) (rt_sessions rt)"
    and "\<not> isInDialogRequest L invite"
    and "handleInvite L px peer env1 source invite rt = (rt1, acts, ex)" and "Downstream fwd dest \<in> set acts"
    and "200 \<le> statusCode ok" and "statusCode ok < 300" and "toTag L ok \<noteq> []" and "toTag L ok \<noteq> fromTag L invite"
    and "ro_now env2 - ro_now env1 < kInviteSessionTtl"
    and "callId bye = callId invite" and "fromTag L bye = toTag L ok" and "toTag L bye = fromTag L invite"
    and "prepareRequestForForward L px (ro_branch env3) (ep_transport source) (fst (processRouteHeaders L px bye)) =
      Inr (fwd_bye, Inr ())"
  shows "snd (handleBye L px env3 bye
      (fst (invite_response L env2 (callId invite) (fromTag L invite) False ok rt1))) = ([Downstream fwd_bye source], None)"
proof -
  have wf: "um_wf (rt_sessions rt)" using router_reach_ok [OF assms(2)] by (simp add: sessions_ok_def)
  obtain i p where o: "rt_sessions rt1 = open_session (ro_now env1) (callId invite) (fromTag L invite) i source p dest
      (viaBranch L fwd) (rt_sessions rt)"
    using invite_passed_on [OF assms(4-6)] by blast
  let ?rt2 = "fst (invite_response L env2 (callId invite) (fromTag L invite) False ok rt1)"
  note a = answered_session [OF assms(3) wf assms(11,7,8) refl assms(9)]
  have f: "um_find (rt_sessions ?rt2) (dialog_key (callId invite) x y) =
      (if x = fromTag L invite \<and> y = toTag L ok then Some ((opened (ro_now env1) (callId invite) (fromTag L invite) i source p dest
         (viaBranch L fwd))\<lparr>si_callee_tag := toTag L ok, si_last_updated := ro_now env2, si_established := True\<rparr>)
       else None)" for x y
    by (simp add: invite_response_def o a)
  have "in_dialog_target L bye (rt_sessions ?rt2) =
      Some (dialog_key (callId invite) (fromTag L invite) (toTag L ok), source)"
    using assms(9,10,12,13,14)
    by (simp add: in_dialog_target_def findSessionForRequest_def f Let_def)
      (simp add: resolveInDialogDestination_def opened_def)
  then show ?thesis
    using assms(1,15) by (simp add: handleBye_def clone_def clone_ok_def forward_in_dialog_def Let_def)
qed

text \<open>C22: The callee can end the call: when an INVITE of a new call has been passed on and answered with a
  2xx within the session lifetime, a BYE from the callee's tag to the caller's is passed on to the
  endpoint the INVITE came from.\<close>

theorem bye_of_the_callee_reaches_the_caller:
  assumes "clone_ok L" and "router_reach L px peer rt" and "no_session_for (callId invite) (rt_sessions rt)"
    and "\<not> isInDialogRequest L invite"
    and "handleInvite L px peer env1 source invite rt = (rt1, acts, ex)" and "Downstream fwd dest \<in> set acts"
    and "200 \<le> statusCode ok" and "statusCode ok < 300" and "toTag L ok \<noteq> []" and "toTag L ok \<noteq> fromTag L invite"
    and "ro_now env2 - ro_now env1 < kInviteSessionTtl"
    and "callId bye = callId invite" and "fromTag L bye = toTag L ok" and "toTag L bye = fromTag L invite"
    and "prepareRequestForForward L px (ro_branch env3) (ep_transport source) (fst (processRouteHeaders L px bye)) =
      Inr (fwd_bye, Inr ())"
  shows "snd (handleBye L px env3 bye
      (fst (invite_response L env2 (callId invite) (fromTag L invite) False ok rt1))) = ([Downstream fwd_bye source], None)"
  by (rule answered_call_bye [OF assms])

text \<open>C23: A CANCEL reaches the element the INVITE went to and matches it there: sent while the INVITE is
  pending, it is answered, and passed on to the INVITE's destination with the INVITE's topmost Via,
  branch included, as its only Via.\<close>

theorem cancel_follows_the_invite:
  assumes "clone_ok L" and "set_header_ok L" and "router_reach L px peer rt"
    and "no_session_for (callId invite) (rt_sessions rt)" and "\<not> isInDialogRequest L invite"
    and "handleInvite L px peer env1 source invite rt = (rt1, acts, ex)" and "Downstream fwd dest \<in> set acts"
    and "L_via_parse L (proxy_via (if ep_transport dest = [] then ''udp'' else ep_transport dest)
      (local_address px) (local_port px) (ro_branch env1)) = Some v"
    and "via_branch L v = ro_branch env1" and "ro_branch env1 \<noteq> []"
    and "callId cancel = callId invite" and "fromTag L cancel = fromTag L invite"
    and "maxForwards L (removeAllVias (viaCount (fst (processRouteHeaders L px cancel)))
      (fst (processRouteHeaders L px cancel))) = Inr mf"
  shows "\<exists>c. snd (handleCancel L px env2 cancel rt1) =
      (router_error L env2 cancel 200 ''OK'' @ [Downstream c dest], None) \<and> m_vias c = [hd (m_vias fwd)]"
proof -
  have wf: "um_wf (rt_sessions rt)" using router_reach_ok [OF assms(3)] by (simp add: sessions_ok_def)
  obtain i p m0 where o: "rt_sessions rt1 = open_session (ro_now env1) (callId invite) (fromTag L invite) i source p dest
      (viaBranch L fwd) (rt_sessions rt)"
    and prep: "prepareRequestForForward L px (ro_branch env1) (ep_transport dest) m0 = Inr (fwd, Inr ())"
    using invite_passed_on [OF assms(5-7)] by blast
  let ?tok = "if ep_transport dest = [] then ''udp'' else ep_transport dest"
  note v = assms(8,9)
  from prep obtain m1 where "fwd = addVia L (proxy_via ?tok (local_address px) (local_port px) (ro_branch env1)) m1"
    by (auto simp: prepareRequestForForward_def Let_def split: sum.splits if_splits)
  then have hd: "m_vias fwd = v # m_vias m1" and br: "viaBranch L fwd = ro_branch env1"
    using v by (simp_all add: addVia_def viaBranch_def)
  let ?key = "dialog_key (callId invite) (fromTag L invite) []"
  have key: "findCancelSession L cancel (rt_sessions rt1) = Some ?key"
    using assms(11,12)
    by (simp add: findCancelSession_def findInitialSession_def o find_open_session [OF assms(4) wf] Let_def)
  have s: "um_find (rt_sessions rt1) ?key = Some (opened (ro_now env1) (callId invite) (fromTag L invite) i source p dest
      (viaBranch L fwd))"
    by (simp add: o find_open_session [OF assms(4) wf])
  let ?f2 = "removeAllVias (viaCount (fst (processRouteHeaders L px cancel))) (fst (processRouteHeaders L px cancel))"
  have novia: "m_vias (removeAllVias n m) = drop n (m_vias m)" for n m
    by (induction n m rule: removeAllVias.induct) (auto simp: viaCount_def removeTopVia_def drop_Suc)
  then have f2: "m_vias ?f2 = []" by (simp add: viaCount_def)
  obtain f3 where f3: "(if mf < 0 then Inr (setMaxForwards L 70 ?f2) else decrementMaxForwards L ?f2) = Inr f3"
    using assms(13) by (cases "mf < 0") (simp_all add: decrementMaxForwards_def)
  then have nv: "m_vias f3 = []"
    using maxForwards_vias [OF assms(2)] f2 by (auto split: if_splits)
  have "buildForwardedCancel L px (ro_branch env2) cancel
     \<lparr>cc_transport = ep_transport dest, cc_invite_branch = ro_branch env1, cc_local_address = local_address px,
      cc_local_port = local_port px, cc_decrement_max_forwards = True, cc_process_route_headers = True\<rparr> =
     Inr (Inr (addVia L (proxy_via ?tok (local_address px) (local_port px) (ro_branch env1)) f3))"
    using assms(1,10,13) f3
    by (simp add: buildForwardedCancel_def clone_def clone_ok_def Let_def)
  moreover have "m_vias (addVia L (proxy_via ?tok (local_address px) (local_port px) (ro_branch env1)) f3) = [v]"
    using v(1) nv by (simp add: addVia_def)
  ultimately show ?thesis
    by (simp add: handleCancel_def key s br hd Let_def opened_def)
qed

subsection \<open>Examples\<close>

definition demo_tagged :: "string \<Rightarrow> osip_name_addr" where
  "demo_tagged t = \<lparr>na_url = None, na_params = [\<lparr>gname = ''tag'', gvalue = Some t\<rparr>], na_opaque = []\<rparr>"

definition demo_ok :: osip_message where
  "demo_ok = demo_request\<lparr>m_status_code := 200, m_to := Some (demo_tagged ''t9'')\<rparr>"

definition demo_bye :: osip_message where
  "demo_bye = demo_request\<lparr>m_from := Some (demo_tagged ''t9''), m_to := Some (demo_tagged ''f1'')\<rparr>"

definition demo_router_env :: router_env where
  "demo_router_env = \<lparr>ro_now = 0, ro_lookup_now = 0, ro_active_now = 0, ro_resolve_now = 0, ro_tag = ''x'',
     ro_branch = ''b'', ro_sent = Inr (), ro_transport = (\<lambda>m d. Inr ())\<rparr>"

definition demo_source :: Endpoint where
  "demo_source = \<lparr>ep_address = ''10.0.0.7'', ep_port = 5060, ep_transport = ''udp''\<rparr>"

definition demo_router :: router where
  "demo_router = \<lparr>rt_store = [], rt_sessions = []\<rparr>"

lemma demo_tags:
  "toTag demo_lib demo_request = []" "fromTag demo_lib demo_request = ''f1''" "callId demo_request = ''c1''"
  "toTag demo_lib demo_ok = ''t9''" "statusCode demo_ok = 200" "callId demo_bye = ''c1''"
  "fromTag demo_lib demo_bye = ''t9''" "toTag demo_lib demo_bye = ''f1''"
  by (simp_all add: toTag_def fromTag_def tag_of_def callId_def demo_request_def demo_ok_def demo_bye_def
      demo_tagged_def param_gvalue_def demo_lib_def statusCode_def MSG_IS_RESPONSE_def)

lemma demo_no_routes:
  "processRouteHeaders demo_lib px demo_request = (demo_request, False)"
  "processRouteHeaders demo_lib px demo_bye = (demo_bye, False)"
proof -
  have "lowercase ''Route'' = ''route''" by code_simp
  then show "processRouteHeaders demo_lib px demo_request = (demo_request, False)"
    "processRouteHeaders demo_lib px demo_bye = (demo_bye, False)"
    by (simp_all add: processRouteHeaders_def routes_def getHeaders_def demo_bye_def demo_request_def empty_message_def)
qed

definition demo_forwarded :: "osip_message \<Rightarrow> osip_message" where
  "demo_forwarded m = addVia demo_lib (proxy_via ''udp'' (local_address demo_proxy) (local_port demo_proxy) ''b'')
     (projr (decrementMaxForwards demo_lib m))"

lemma demo_prepare:
  assumes "m_headers m = m_headers demo_request"
  shows "prepareRequestForForward demo_lib demo_proxy ''b'' ''udp'' m = Inr (demo_forwarded m, Inr ())"
proof -
  have k: "maxForwards demo_lib m = Inr 70" using maxForwards_cong [OF assms] demo_max_forwards(1) by simp
  then show ?thesis by (simp add: prepareRequestForForward_def demo_forwarded_def decrementMaxForwards_def Let_def)
qed

lemma demo_invited:
  "\<exists>rt. handleInvite demo_lib demo_proxy (Some default_endpoint) demo_router_env demo_source demo_request demo_router =
     (rt, router_error demo_lib demo_router_env demo_request 100 ''Trying'' @
        [Downstream (demo_forwarded demo_request) default_endpoint], None)"
proof -
  have "clone demo_lib m = Inr m" for m using demo_lib_ok(2) by (simp add: clone_def clone_ok_def)
  moreover have "\<not> isInDialogRequest demo_lib demo_request" by (simp add: isInDialogRequest_def demo_tags)
  ultimately show ?thesis
    using demo_prepare [of demo_request]
    by (simp add: handleInvite_def initial_target_def lookupCallee_def demo_router_def lookup_absent
        demo_no_routes demo_router_env_def default_endpoint_def Let_def)
qed

lemma demo_router_reach: "router_reach demo_lib demo_proxy (Some default_endpoint) demo_router"
  unfolding demo_router_def by (rule router_reach.start)

lemma bye_of_the_callee_reaches_the_caller_witness:
  "snd (handleBye demo_lib demo_proxy demo_router_env demo_bye
     (fst (invite_response demo_lib demo_router_env ''c1'' ''f1'' False demo_ok
       (fst (handleInvite demo_lib demo_proxy (Some default_endpoint) demo_router_env demo_source demo_request
          demo_router))))) = ([Downstream (demo_forwarded demo_bye) demo_source], None)"
proof -
  obtain rt where h: "handleInvite demo_lib demo_proxy (Some default_endpoint) demo_router_env demo_source
      demo_request demo_router = (rt, router_error demo_lib demo_router_env demo_request 100 ''Trying'' @
        [Downstream (demo_forwarded demo_request) default_endpoint], None)"
    using demo_invited by blast
  have b: "m_headers demo_bye = m_headers demo_request" by (simp add: demo_bye_def)
  have p: "prepareRequestForForward demo_lib demo_proxy (ro_branch demo_router_env) (ep_transport demo_source)
      (fst (processRouteHeaders demo_lib demo_proxy demo_bye)) = Inr (demo_forwarded demo_bye, Inr ())"
    using demo_prepare [OF b] by (simp add: demo_no_routes demo_router_env_def demo_source_def)
  have n: "no_session_for (callId demo_request) (rt_sessions demo_router)" "\<not> isInDialogRequest demo_lib demo_request"
    by (simp_all add: no_session_for_def demo_router_def isInDialogRequest_def demo_tags)
  show ?thesis
    using bye_of_the_callee_reaches_the_caller [OF demo_lib_ok(2) demo_router_reach n h _ _ _ _ _ _ _ _ _ p,
        of "demo_forwarded demo_request" default_endpoint demo_ok demo_router_env]
    by (simp add: h demo_tags kInviteSessionTtl_def)
qed

lemma in_dialog_requests_reach_the_other_party_witness:
  "\<exists>k (s :: SessionInfo). um_find (rt_sessions (fst (invite_response demo_lib demo_router_env ''c1'' ''f1'' False demo_ok
       (fst (handleInvite demo_lib demo_proxy (Some default_endpoint) demo_router_env demo_source demo_request
          demo_router))))) k = Some s \<and> si_call_id s = ''c1''"
proof -
  let ?rt = "fst (invite_response demo_lib demo_router_env ''c1'' ''f1'' False demo_ok
       (fst (handleInvite demo_lib demo_proxy (Some default_endpoint) demo_router_env demo_source demo_request
          demo_router)))"
  obtain rt where h: "handleInvite demo_lib demo_proxy (Some default_endpoint) demo_router_env demo_source
      demo_request demo_router = (rt, router_error demo_lib demo_router_env demo_request 100 ''Trying'' @
        [Downstream (demo_forwarded demo_request) default_endpoint], None)"
    using demo_invited by blast
  have r: "router_reach demo_lib demo_proxy (Some default_endpoint) ?rt"
    by (intro router_reach.intros demo_router_reach)
  have now: "ro_now demo_router_env = 0" by (simp add: demo_router_env_def)
  have "\<not> isInDialogRequest demo_lib demo_request" by (simp add: isInDialogRequest_def demo_tags)
  from invite_passed_on [OF this h, of "demo_forwarded demo_request" default_endpoint] obtain i p where
    o: "rt_sessions rt = open_session 0 ''c1'' ''f1'' i demo_source p default_endpoint
      (viaBranch demo_lib (demo_forwarded demo_request)) []"
    by (auto simp: demo_router_env_def demo_tags demo_router_def)
  have "um_find (rt_sessions ?rt) (dialog_key ''c1'' x y) =
      (if x = ''f1'' \<and> y = ''t9'' then Some ((opened 0 ''c1'' ''f1'' i demo_source p default_endpoint
        (viaBranch demo_lib (demo_forwarded demo_request)))
        \<lparr>si_callee_tag := ''t9'', si_last_updated := 0, si_established := True\<rparr>) else None)" for x y
    using answered_session [of "''c1''" "[]" 0 0 demo_ok demo_lib "''t9''" "''f1''" i demo_source p default_endpoint
        "viaBranch demo_lib (demo_forwarded demo_request)" x y]
    by (simp add: h o invite_response_def now no_session_for_def kInviteSessionTtl_def demo_tags)
  then have "in_dialog_target demo_lib demo_bye (rt_sessions ?rt) = Some (dialog_key ''c1'' ''f1'' ''t9'', demo_source)"
    by (simp add: in_dialog_target_def findSessionForRequest_def demo_tags Let_def)
      (simp add: resolveInDialogDestination_def opened_def demo_tags)
  from in_dialog_requests_reach_the_other_party [OF r _ this] show ?thesis unfolding demo_tags by blast
qed

lemma demo_via_parsed:
  "L_via_parse demo_lib s = Some \<lparr>via_protocol = None, via_host = None, via_port = None,
      via_params = [\<lparr>gname = ''branch'', gvalue = Some (demo_via_branch s)\<rparr>], via_opaque = s\<rparr>"
  "demo_via_branch (proxy_via ''udp'' (local_address demo_proxy) (local_port demo_proxy) ''b'') = ''b''"
proof -
  show "L_via_parse demo_lib s = Some \<lparr>via_protocol = None, via_host = None, via_port = None,
      via_params = [\<lparr>gname = ''branch'', gvalue = Some (demo_via_branch s)\<rparr>], via_opaque = s\<rparr>"
    by (simp add: demo_lib_def)
  have "proxy_via ''udp'' (local_address demo_proxy) (local_port demo_proxy) ''b'' =
      ''SIP/2.0/UDP 10.0.0.2:5062;branch=b;rport''"
    by (simp add: proxy_via_def demo_proxy_def uppercase_def toupper_def char_code_def show_port_def
        show_nat.simps digit_char_def Let_def) code_simp
  then show "demo_via_branch (proxy_via ''udp'' (local_address demo_proxy) (local_port demo_proxy) ''b'') = ''b''"
    by (simp add: demo_via_branch_def str_find_def find_char_def Let_def)
qed

lemma cancel_follows_the_invite_witness:
  "\<exists>c. snd (handleCancel demo_lib demo_proxy demo_router_env demo_request
      (fst (handleInvite demo_lib demo_proxy (Some default_endpoint) demo_router_env demo_source demo_request
         demo_router))) =
     (router_error demo_lib demo_router_env demo_request 200 ''OK'' @ [Downstream c default_endpoint], None) \<and>
   m_vias c = [hd (m_vias (demo_forwarded demo_request))]"
proof -
  obtain rt where h: "handleInvite demo_lib demo_proxy (Some default_endpoint) demo_router_env demo_source
      demo_request demo_router = (rt, router_error demo_lib demo_router_env demo_request 100 ''Trying'' @
        [Downstream (demo_forwarded demo_request) default_endpoint], None)"
    using demo_invited by blast
  have n: "no_session_for (callId demo_request) (rt_sessions demo_router)" "\<not> isInDialogRequest demo_lib demo_request"
    by (simp_all add: no_session_for_def demo_router_def isInDialogRequest_def demo_tags)
  let ?f = "removeAllVias (viaCount (fst (processRouteHeaders demo_lib demo_proxy demo_request)))
      (fst (processRouteHeaders demo_lib demo_proxy demo_request))"
  have "m_headers (removeAllVias n m) = m_headers m" for n m
    by (induction n m rule: removeAllVias.induct) (auto simp: removeTopVia_def)
  then have k: "maxForwards demo_lib ?f = Inr 70"
    using maxForwards_cong [of ?f demo_request] demo_max_forwards(1) by (simp add: demo_no_routes)
  have e: "ro_branch demo_router_env = ''b''" "ep_transport default_endpoint = ''udp''"
    by (simp_all add: demo_router_env_def default_endpoint_def)
  have pg: "param_gvalue demo_lib [\<lparr>gname = ''branch'', gvalue = Some b\<rparr>] ''branch'' = Some b" for b
    by (simp add: param_gvalue_def demo_lib_def)
  show ?thesis
    using cancel_follows_the_invite [OF demo_lib_ok(2) demo_set_header_ok demo_router_reach n h _ _ _ _ refl refl k,
        of "demo_forwarded demo_request" default_endpoint _ demo_router_env]
    by (simp add: h e demo_via_parsed via_branch_def pg)
qed

end
