(* ===== verification/Sip_Stack.thy ===== *)
theory Sip_Stack
  imports Proxy_Core Transport
begin

section \<open>The SIP stack (sip/stack.cpp)\<close>

text \<open>
  The stack wires the transport to the transaction layer and the layer to the table of method
  handlers.  A handler is a value of the service's choice (the name of one of its operations);
  what the stack does with a request is a \<open>dispatch\<close>: the handler and the copy of the request it
  is called with, the response 405, or nothing when the library fails.
\<close>

datatype 'h dispatch =
    Call_handler 'h nat osip_message
  | Refuse nat osip_message

record 'h sip_stack =
  sk_transport :: dual
  sk_layer :: layer
  sk_handlers :: "(string, 'h) umap"
  sk_default :: "'h option"

definition SipStack :: "'h sip_stack" where
  "SipStack = \<lparr>sk_transport = DualTransport, sk_layer = TransactionLayer, sk_handlers = [], sk_default = None\<rparr>"

definition onRequest :: "string \<Rightarrow> 'h \<Rightarrow> 'h sip_stack \<Rightarrow> 'h sip_stack" where
  "onRequest meth h sk = sk\<lparr>sk_handlers := um_put meth h (sk_handlers sk)\<rparr>"

definition onDefaultRequest :: "'h \<Rightarrow> 'h sip_stack \<Rightarrow> 'h sip_stack" where
  "onDefaultRequest h sk = sk\<lparr>sk_default := Some h\<rparr>"

text \<open>\<open>env\<close> is what the sockets answer.\<close>

definition stack_start :: "dual_env \<Rightarrow> 'h sip_stack \<Rightarrow> 'h sip_stack \<times> unit result" where
  "stack_start env sk =
     (let ly = setRequestHandler (sk_layer sk); (d, r) = dual_start_in env (sk_transport sk) in
      (sk\<lparr>sk_transport := d, sk_layer := ly\<rparr>, r))"

definition stack_stop :: "'h sip_stack \<Rightarrow> 'h sip_stack" where
  "stack_stop sk =
     (let ly = layer_shutdown (sk_layer sk) in sk\<lparr>sk_layer := ly, sk_transport := dual_stop (sk_transport sk)\<rparr>)"

definition stack_sendRequest ::
  "osip_lib \<Rightarrow> transport \<Rightarrow> time_point \<Rightarrow> osip_message \<Rightarrow> Endpoint \<Rightarrow> nat option \<Rightarrow> 'h sip_stack \<Rightarrow>
     'h sip_stack \<times> event list \<times> unit result" where
  "stack_sendRequest L tr now request dest on_response sk =
     (let (ly, ev, r) = sendRequest L tr now request dest on_response (sk_layer sk) in
      (sk\<lparr>sk_layer := ly\<rparr>, ev, case r of Inl e \<Rightarrow> Inl e | Inr _ \<Rightarrow> Inr ()))"

definition handler_for :: "string \<Rightarrow> 'h sip_stack \<Rightarrow> 'h option" where
  "handler_for meth sk = (case um_find (sk_handlers sk) meth of Some h \<Rightarrow> Some h | None \<Rightarrow> sk_default sk)"

definition handleRequest :: "osip_lib \<Rightarrow> string \<Rightarrow> nat \<Rightarrow> osip_message \<Rightarrow> 'h sip_stack \<Rightarrow> 'h dispatch list" where
  "handleRequest L tag txn request sk =
     (case handler_for (message_method request) sk of
        Some h \<Rightarrow> (case clone L request of Inl e \<Rightarrow> [] | Inr req_clone \<Rightarrow> [Call_handler h txn req_clone])
      | None \<Rightarrow>
          (case createResponse L tag request 405 ''Method Not Allowed'' of
             Inl e \<Rightarrow> [] | Inr resp \<Rightarrow> [Refuse txn resp]))"

text \<open>A message from the transport: through the layer, and from there to the handlers.\<close>

definition dispatch_events :: "osip_lib \<Rightarrow> string \<Rightarrow> event list \<Rightarrow> 'h sip_stack \<Rightarrow> 'h dispatch list" where
  "dispatch_events L tag ev sk =
     concat (map (\<lambda>e. case e of
        Invoke_handler i \<Rightarrow> handleRequest L tag i (s_request (server_heap (sk_layer sk) ! i)) sk
      | _ \<Rightarrow> []) ev)"

definition stack_receive ::
  "osip_lib \<Rightarrow> transport \<Rightarrow> string \<Rightarrow> osip_message \<Rightarrow> Endpoint \<Rightarrow> 'h sip_stack \<Rightarrow>
     'h sip_stack \<times> event list \<times> 'h dispatch list" where
  "stack_receive L tr tag msg source sk =
     (let (ly, ev) = processMessage L tr msg source (sk_layer sk); sk' = sk\<lparr>sk_layer := ly\<rparr>
      in (sk', ev, dispatch_events L tag ev sk'))"

subsection \<open>Lemmas\<close>

lemma handler_for_onRequest [simp]:
  "handler_for meth (onRequest meth' h sk) = (if meth = meth' then Some h else handler_for meth sk)"
  by (auto simp: handler_for_def onRequest_def um_find_put split: option.split)

lemma handler_for_SipStack [simp]: "handler_for meth SipStack = None"
  by (simp add: handler_for_def SipStack_def)

lemma handler_for_layer [simp]: "handler_for meth (sk\<lparr>sk_layer := ly\<rparr>) = handler_for meth sk"
  by (simp add: handler_for_def split: option.split)

text \<open>A request that opens a server transaction is dispatched once, under its own method.\<close>

lemma new_request_dispatched:
  assumes "clone_ok L" and "\<not> shutting_down (sk_layer sk)" and "request_handler (sk_layer sk)"
    and "m_status_code msg = 0" and "message_method msg \<noteq> ''ACK''"
    and "um_find (server_txns (sk_layer sk)) (getTransactionKey L msg) = None"
    and "handler_for (message_method msg) sk = Some h"
  shows "snd (snd (stack_receive L tr tag msg source sk)) = [Call_handler h (length (server_heap (sk_layer sk))) msg]"
  using assms
  by (simp add: stack_receive_def processMessage_def processRequest_def insertServer_def dispatch_events_def
      handleRequest_def clone_def clone_ok_def ServerTransaction_def Let_def)

end
