(* ===== verification/Reg_Event.thy ===== *)
theory Reg_Event
  imports Sip_Message Config
begin

section \<open>The reg-event notifier (sip/reg_event_notifier.cpp, sip/exosip_context.cpp)\<close>

text \<open>
  The NOTIFY a subscriber of the registration state gets first, and the eXosip context it is sent
  through.  eXosip is not part of the repository: what its calls return are arguments.  Of the
  native context only its presence is kept.  \<^theory_text>\<open>None\<close> for a message says that the
  behaviour of the program is undefined (\<open>removeHeader\<close>), for a wait that it has not returned yet.
\<close>

subsection \<open>The eXosip context\<close>

record exosip =
  xo_config :: ExosipConfig
  xo_context :: bool
  xo_started :: bool

definition ExosipContext :: "ExosipConfig \<Rightarrow> exosip" where
  "ExosipContext cfg = \<lparr>xo_config = cfg, xo_context = False, xo_started = False\<rparr>"

definition IPPROTO_UDP :: int where "IPPROTO_UDP = 17"
definition IPPROTO_TCP :: int where "IPPROTO_TCP = 6"

definition transportProtocol :: "ExosipConfig \<Rightarrow> int result" where
  "transportProtocol cfg =
     (let transport = lowercase (ex_transport cfg) in
      if transport = ''udp'' then Inr IPPROTO_UDP
      else if transport = ''tcp'' \<or> transport = ''tls'' then Inr IPPROTO_TCP
      else Inl (mk_error kConfigInvalidValue ''Unsupported eXosip transport'' (ex_transport cfg)))"

definition secureMode :: "ExosipConfig \<Rightarrow> int" where
  "secureMode cfg = (if lowercase (ex_transport cfg) = ''tls'' then 1 else 0)"

definition is_inet6 :: "ExosipConfig \<Rightarrow> bool" where
  "is_inet6 cfg \<longleftrightarrow> find_char (ex_listen_addr cfg) (CHR '':'') \<noteq> None"

definition exosip_shutdown :: "exosip \<Rightarrow> exosip" where
  "exosip_shutdown x = (if \<not> xo_context x then x else x\<lparr>xo_context := False, xo_started := False\<rparr>)"

text \<open>\<open>allocated\<close>, \<open>initialised\<close> and \<open>bound\<close> (of the protocol, IPv6 flag and secure mode) are the
  results of the library.\<close>

record exosip_start_env =
  xe_allocated :: bool
  xe_initialised :: bool
  xe_bound :: "int \<Rightarrow> bool \<Rightarrow> int \<Rightarrow> bool"

definition ensureStarted :: "exosip_start_env \<Rightarrow> exosip \<Rightarrow> exosip \<times> unit result" where
  "ensureStarted env x =
     (if xo_started x then (x, Inr ())
      else if \<not> xe_allocated env then (x, Inl (mk_error kInternalError ''Failed to allocate eXosip context'' []))
      else if \<not> xe_initialised env then (x, Inl (mk_error kInternalError ''Failed to initialize eXosip context'' []))
      else
        (let cfg = xo_config x; x1 = x\<lparr>xo_context := True\<rparr> in
         case transportProtocol cfg of
           Inl e \<Rightarrow> (exosip_shutdown x1, Inl e)
         | Inr protocol \<Rightarrow>
             if \<not> xe_bound env protocol (is_inet6 cfg) (secureMode cfg) then
               (exosip_shutdown x1,
                Inl (mk_error kSipTransportError ''Failed to bind eXosip listen socket''
                       (ex_listen_addr cfg @ '':'' @ show_nat (unat (ex_listen_port cfg)) @ '' via '' @ ex_transport cfg)))
             else (x1\<lparr>xo_started := True\<rparr>, Inr ())))"

text \<open>\<open>built\<close> is the message the library makes of its arguments, \<open>transport_set\<close> whether it accepts the
  transport's name.\<close>

definition buildRequest ::
  "exosip_start_env \<Rightarrow> (string \<Rightarrow> string \<Rightarrow> string \<Rightarrow> osip_message option) \<Rightarrow> (string \<Rightarrow> bool) \<Rightarrow>
     string \<Rightarrow> string \<Rightarrow> string \<Rightarrow> exosip \<Rightarrow> exosip \<times> osip_message result" where
  "buildRequest env built transport_set meth request_uri from_header x =
     (case ensureStarted env x of
        (x1, Inl e) \<Rightarrow> (x1, Inl e)
      | (x1, Inr _) \<Rightarrow>
          (x1,
           case built meth request_uri from_header of
             None \<Rightarrow> Inl (mk_error kSipTransactionFailed ''Failed to build request with eXosip'' meth)
           | Some m \<Rightarrow>
               (let transport = uppercase (lowercase (ex_transport (xo_config x1))) in
                if \<not> transport_set transport
                then Inl (mk_error kSipTransportError ''Failed to set eXosip transport'' transport)
                else Inr m)))"

definition exosip_sendRequest ::
  "exosip_start_env \<Rightarrow> (osip_message \<Rightarrow> int) \<Rightarrow> osip_message \<Rightarrow> exosip \<Rightarrow> exosip \<times> int result" where
  "exosip_sendRequest env send request x =
     (case ensureStarted env x of
        (x1, Inl e) \<Rightarrow> (x1, Inl e)
      | (x1, Inr _) \<Rightarrow>
          (x1, if send request < 0 then Inl (mk_error kSipTransactionFailed ''Failed to send request with eXosip'' [])
               else Inr (send request)))"

text \<open>An event of the library: its transaction, whether its type is one of the ten final ones, and the
  status of its response, if it has one.  The loop is given the clock readings of its test, each with
  the event its turn waits for.\<close>

record exosip_event =
  xv_tid :: int
  xv_final :: bool
  xv_status :: "int option"

fun wait_loop :: "time_point \<Rightarrow> int \<Rightarrow> (time_point \<times> exosip_event option) list \<Rightarrow> int result option" where
  "wait_loop deadline tid [] = None"
| "wait_loop deadline tid ((now, ev) # turns) =
     (if deadline \<le> now
      then Some (Inl (mk_error kSipTimeout ''Timed out waiting for eXosip response'' (show_int tid)))
      else (case ev of
              None \<Rightarrow> wait_loop deadline tid turns
            | Some e \<Rightarrow>
                if xv_tid e \<noteq> tid \<or> \<not> xv_final e then wait_loop deadline tid turns
                else Some (Inr (case xv_status e of Some s \<Rightarrow> s | None \<Rightarrow> 0))))"

definition waitForFinalResponse ::
  "exosip_start_env \<Rightarrow> time_point \<Rightarrow> (time_point \<times> exosip_event option) list \<Rightarrow> int \<Rightarrow> nat \<Rightarrow> exosip \<Rightarrow>
     exosip \<times> int result option" where
  "waitForFinalResponse env now turns tid timeout_ms x =
     (case ensureStarted env x of
        (x1, Inl e) \<Rightarrow> (x1, Some (Inl e))
      | (x1, Inr _) \<Rightarrow> (x1, wait_loop (now + int timeout_ms * 1000000) tid turns))"

subsection \<open>The NOTIFY\<close>

record InitialRegNotifyContext =
  rn_request_uri :: string
  rn_from_header :: string
  rn_to_header :: string
  rn_call_id :: string
  rn_cseq :: "32 word"
  rn_event :: string
  rn_subscription_state :: string
  rn_route_set :: "string list"
  rn_contact :: string
  rn_body :: string
  rn_content_type :: string

definition applyInitialRegNotifyContext ::
  "osip_lib \<Rightarrow> InitialRegNotifyContext \<Rightarrow> osip_message \<Rightarrow> osip_message option" where
  "applyInitialRegNotifyContext L c notify =
     (let n1 = setCSeq L (rn_cseq c) ''NOTIFY'' (setCallId L (rn_call_id c) (setToHeader L (rn_to_header c)
                 (setFromHeader L (rn_from_header c) (setRequestUri L (rn_request_uri c) notify))))
      in case removeHeader L ''Event'' n1 of
           Freed_linked _ _ \<Rightarrow> None
         | Removed n2 \<Rightarrow>
             (case removeHeader L ''Subscription-State'' n2 of
                Freed_linked _ _ \<Rightarrow> None
              | Removed n3 \<Rightarrow>
                  (let n4 = addHeader L ''Subscription-State'' (rn_subscription_state c)
                              (addHeader L ''Event'' (rn_event c) (addHeader L ''Max-Forwards'' ''70'' n3));
                       n5 = fold (addRoute L) (rn_route_set c) n4;
                       n6 = (if rn_contact c \<noteq> [] then setContact L (rn_contact c) n5 else n5)
                   in Some (if rn_body c \<noteq> [] then setBody L (rn_body c) (rn_content_type c) n6 else n6))))"

definition notifier_start :: "exosip_start_env \<Rightarrow> exosip \<Rightarrow> exosip \<times> unit result" where
  "notifier_start env x = (if \<not> ex_enabled (xo_config x) then (x, Inr ()) else ensureStarted env x)"

record notify_env =
  ne_start :: exosip_start_env
  ne_built :: "string \<Rightarrow> string \<Rightarrow> string \<Rightarrow> osip_message option"
  ne_transport_set :: "string \<Rightarrow> bool"
  ne_send :: "osip_message \<Rightarrow> int"
  ne_now :: time_point
  ne_turns :: "(time_point \<times> exosip_event option) list"

datatype notify_outcome = Returned "unit result" | Waiting | Undefined

text \<open>The messages given to eXosip, and the outcome.\<close>

definition sendInitialNotify ::
  "osip_lib \<Rightarrow> notify_env \<Rightarrow> InitialRegNotifyContext \<Rightarrow> exosip \<Rightarrow> exosip \<times> osip_message list \<times> notify_outcome" where
  "sendInitialNotify L env c x =
     (if \<not> ex_enabled (xo_config x) then (x, [], Returned (Inr ()))
      else
        (case buildRequest (ne_start env) (ne_built env) (ne_transport_set env) ''NOTIFY'' (rn_request_uri c)
                (rn_from_header c) x of
           (x1, Inl e) \<Rightarrow> (x1, [], Returned (Inl e))
         | (x1, Inr notify0) \<Rightarrow>
             (case applyInitialRegNotifyContext L c notify0 of
                None \<Rightarrow> (x1, [], Undefined)
              | Some notify \<Rightarrow>
                  (case exosip_sendRequest (ne_start env) (ne_send env) notify x1 of
                     (x2, Inl e) \<Rightarrow> (x2, [notify], Returned (Inl e))
                   | (x2, Inr tid) \<Rightarrow>
                       (let (x3, status) = waitForFinalResponse (ne_start env) (ne_now env) (ne_turns env) tid 5000 x2 in
                        (x3, [notify],
                         case status of
                           None \<Rightarrow> Waiting
                         | Some (Inl e) \<Rightarrow> Returned (Inl e)
                         | Some (Inr s) \<Rightarrow>
                             Returned (if s < 200 \<or> 300 \<le> s
                                       then Inl (mk_error kSipTransactionFailed ''Initial NOTIFY rejected'' (show_int s))
                                       else Inr ())))))))"

subsection \<open>Lemmas\<close>

definition exosip_ok :: "exosip \<Rightarrow> bool" where
  "exosip_ok x \<longleftrightarrow> (xo_started x \<longleftrightarrow> xo_context x)"

lemma exosip_ok_new: "exosip_ok (ExosipContext cfg)"
  by (simp add: exosip_ok_def ExosipContext_def)

lemma exosip_ok_shutdown: "exosip_ok x \<Longrightarrow> exosip_ok (exosip_shutdown x)"
  by (simp add: exosip_ok_def exosip_shutdown_def)

text \<open>A call that needs the context either finds it started or fails.\<close>

lemma ensureStarted_ok:
  assumes "exosip_ok x" and "ensureStarted env x = (x', r)"
  shows "exosip_ok x' \<and> (r = Inr () \<longleftrightarrow> xo_started x')"
  using assms
  by (auto simp: ensureStarted_def exosip_ok_def exosip_shutdown_def Let_def split: if_splits sum.splits)

text \<open>The wait is over once a clock reading reaches the deadline.\<close>

lemma wait_loop_waits:
  "wait_loop deadline tid turns = None \<Longrightarrow> t \<in> set turns \<Longrightarrow> fst t < deadline"
  by (induction turns) (auto split: if_splits option.splits)

lemma wait_loop_ends:
  "t \<in> set turns \<Longrightarrow> deadline \<le> fst t \<Longrightarrow> wait_loop deadline tid turns \<noteq> None"
  using wait_loop_waits by (metis linorder_not_less)

end
