(* ===== verification/Scscf.thy ===== *)
theory Scscf
  imports Registrar Session_Router Sip_Stack Reg_Event
begin

section \<open>The S-CSCF (s-cscf/scscf_service.cpp)\<close>

text \<open>
  The service that owns the registrar and the session router and shares one registration store
  between them.  Its state has that store once; an operation of the registrar or of the router works
  on the part of the state it sees (\<open>with_registrar\<close>, \<open>with_router\<close>).  A handler returns the state, the
  actions in order (SIP messages, and the context of a NOTIFY handed to the notifier) and the
  exception it leaves with, if any.  The responses of forwarded requests are operations of
  \<^verbatim>\<open>Session_Router\<close>.
\<close>

datatype scscf_action =
    Sip action
  | Notify InitialRegNotifyContext

record 'h scscf =
  sv_store :: bindings
  sv_providers :: "provider option list"
  sv_hss :: 'h
  sv_sessions :: sessions
  sv_stopping :: bool

type_synonym 'h scscf_outcome = "'h scscf \<times> scscf_action list \<times> std_exception option"

subsection \<open>Construction\<close>

definition add_ims :: "ScscfConfig \<Rightarrow> provider option list" where
  "add_ims cfg = [Some (Aka_provider (sc_domain cfg) \<lparr>aka_pending_auth = [], aka_in_flight = []\<rparr>)]"

definition add_digest :: "ScscfConfig \<Rightarrow> credential_store option \<Rightarrow> provider option list" where
  "add_digest cfg digest_store =
     (case digest_store of None \<Rightarrow> [] | Some CS \<Rightarrow> [Some (Digest_provider CS (sc_domain cfg) [])])"

definition buildAuthProviders :: "ScscfConfig \<Rightarrow> credential_store option \<Rightarrow> provider option list" where
  "buildAuthProviders cfg digest_store =
     (if sc_auth_mode cfg = ''digest_only'' then add_digest cfg digest_store
      else if sc_auth_mode cfg = ''hybrid_fallback'' then add_ims cfg @ add_digest cfg digest_store
      else add_ims cfg)"

definition ScscfService :: "ScscfConfig \<Rightarrow> credential_store option \<Rightarrow> bindings \<Rightarrow> 'h \<Rightarrow> 'h scscf" where
  "ScscfService cfg digest_store regs h =
     \<lparr>sv_store = regs, sv_providers = buildAuthProviders cfg digest_store, sv_hss = h, sv_sessions = [],
      sv_stopping = False\<rparr>"

definition peer_icscf :: "ScscfConfig \<Rightarrow> Endpoint option" where
  "peer_icscf cfg =
     map_option (\<lambda>p. \<lparr>ep_address = se_address p, ep_port = se_port p,
                      ep_transport = (if se_transport p = [] then ''udp'' else se_transport p)\<rparr>) (sc_peer_icscf cfg)"

text \<open>The router's proxy takes its address from the stack, which is bound to the listen address.\<close>

definition scscf_proxy :: "ScscfConfig \<Rightarrow> proxy" where
  "scscf_proxy cfg = \<lparr>local_address = sc_listen_addr cfg, local_port = sc_listen_port cfg\<rparr>"

subsection \<open>The parts of the state\<close>

definition registrar_of :: "'h scscf \<Rightarrow> 'h registrar" where
  "registrar_of s = \<lparr>rg_store = sv_store s, rg_providers = sv_providers s, rg_hss = sv_hss s\<rparr>"

definition router_of :: "'h scscf \<Rightarrow> router" where
  "router_of s = \<lparr>rt_store = sv_store s, rt_sessions = sv_sessions s\<rparr>"

definition with_registrar :: "'h scscf \<Rightarrow> 'h reg_outcome \<Rightarrow> 'h scscf_outcome" where
  "with_registrar s r =
     (case r of (rg, resps, ex) \<Rightarrow>
        (s\<lparr>sv_store := rg_store rg, sv_providers := rg_providers rg, sv_hss := rg_hss rg\<rparr>,
         map (\<lambda>m. Sip (Upstream m)) resps, ex))"

definition with_router :: "'h scscf \<Rightarrow> router_outcome \<Rightarrow> 'h scscf_outcome" where
  "with_router s r =
     (case r of (rt, acts, ex) \<Rightarrow>
        (s\<lparr>sv_store := rt_store rt, sv_sessions := rt_sessions rt\<rparr>, map Sip acts, ex))"

subsection \<open>SUBSCRIBE\<close>

definition quote :: string where "quote = [CHR 0x22]"
definition crlf :: string where "crlf = [CHR 0x0D, CHR 0x0A]"

definition reginfo_body :: "string \<Rightarrow> string" where
  "reginfo_body reg_aor =
     ''<?xml version='' @ quote @ ''1.0'' @ quote @ ''?>'' @ crlf @
     ''<reginfo xmlns='' @ quote @ ''urn:ietf:params:xml:ns:reginfo'' @ quote @ '' version='' @ quote @ ''0'' @ quote @
     '' state='' @ quote @ ''full'' @ quote @ ''>'' @ crlf @
     ''  <registration aor='' @ quote @ reg_aor @ quote @ '' id='' @ quote @ ''1'' @ quote @ '' state='' @ quote @
     ''active'' @ quote @ ''>'' @ crlf @
     ''    <contact id='' @ quote @ ''1'' @ quote @ '' state='' @ quote @ ''active'' @ quote @ '' event='' @ quote @
     ''registered'' @ quote @ '' />'' @ crlf @
     ''  </registration>'' @ crlf @
     ''</reginfo>'' @ crlf"

text \<open>The context of the first NOTIFY, unless the request has no Contact; the CSeq may throw.\<close>

definition initial_notify ::
  "osip_lib \<Rightarrow> ScscfConfig \<Rightarrow> osip_message \<Rightarrow> string \<Rightarrow> std_exception + InitialRegNotifyContext option" where
  "initial_notify L cfg subscribe to_tag =
     (case contact L subscribe of
        None \<Rightarrow> Inr None
      | Some c \<Rightarrow>
          (let from0 = toHeader L subscribe;
               from1 = (if str_find from0 '';tag='' 0 = None \<and> to_tag \<noteq> [] then from0 @ '';tag='' @ to_tag else from0);
               event = (case getHeader L ''Event'' subscribe of Some e \<Rightarrow> e | None \<Rightarrow> ''reg'');
               exp = (case getHeader L ''Expires'' subscribe of Some e \<Rightarrow> e | None \<Rightarrow> ''3600'')
           in case message_cseq subscribe of
                Inl ex \<Rightarrow> Inl ex
              | Inr cseq \<Rightarrow>
                  Inr (Some
                    \<lparr>rn_request_uri = extract_uri_from_name_addr c, rn_from_header = from1,
                     rn_to_header = fromHeader L subscribe, rn_call_id = callId subscribe, rn_cseq = cseq + 1,
                     rn_event = event, rn_subscription_state = ''active;expires='' @ exp,
                     rn_route_set = rev (getHeaders L ''Record-Route'' subscribe),
                     rn_contact = ''<sip:'' @ sc_domain cfg @ '':'' @ show_port (ex_listen_port (sc_exosip cfg)) @ ''>'',
                     rn_body = reginfo_body (extract_uri_from_name_addr (toHeader L subscribe)),
                     rn_content_type = ''application/reginfo+xml''\<rparr>)))"

definition subscribe_ok :: "osip_lib \<Rightarrow> ScscfConfig \<Rightarrow> osip_message \<Rightarrow> osip_message \<Rightarrow> osip_message" where
  "subscribe_ok L cfg request resp0 =
     (let exp = (case getHeader L ''Expires'' request of Some e \<Rightarrow> e | None \<Rightarrow> ''3600'');
          resp1 = setContact L (''<sip:'' @ sc_listen_addr cfg @ '':'' @ show_port (sc_listen_port cfg) @ ''>'')
                    (addHeader L ''Expires'' exp resp0)
      in fold (addRecordRoute L) (getHeaders L ''Record-Route'' request) resp1)"

definition scscf_onSubscribe ::
  "osip_lib \<Rightarrow> ScscfConfig \<Rightarrow> time_point \<Rightarrow> string \<Rightarrow> osip_message \<Rightarrow> 'h scscf \<Rightarrow> 'h scscf_outcome" where
  "scscf_onSubscribe L cfg now tag request s =
     (if getHeader L ''Event'' request \<noteq> Some ''reg''
      then (s, map Sip (upstream_error L tag request 489 ''Bad Event''), None)
      else
        (let (regs, found) = lookup now (normalize_impu_uri L (requestUri L request)) (sv_store s);
             s1 = s\<lparr>sv_store := regs\<rparr>
         in case found of
              Inl e \<Rightarrow> (s1, map Sip (upstream_error L tag request 404 ''Not Found''), None)
            | Inr b \<Rightarrow>
                (case createResponse L tag request 200 ''OK'' of
                   Inl e \<Rightarrow> (s1, [], None)
                 | Inr resp0 \<Rightarrow>
                     (let resp = subscribe_ok L cfg request resp0; ok = Sip (Upstream resp) in
                      case initial_notify L cfg request (toTag L resp) of
                        Inl ex \<Rightarrow> (s1, [ok], Some ex)
                      | Inr None \<Rightarrow> (s1, [ok], None)
                      | Inr (Some c) \<Rightarrow> (s1, [ok, Notify c], None)))))"

subsection \<open>Dispatch, clean-up and the life of the service\<close>

datatype scscf_handler =
    S_register | S_invite | S_bye | S_ack | S_cancel | S_prack | S_subscribe

definition scscf_handlers :: "scscf_handler sip_stack \<Rightarrow> scscf_handler sip_stack" where
  "scscf_handlers sk =
     onRequest ''SUBSCRIBE'' S_subscribe (onRequest ''PRACK'' S_prack (onRequest ''CANCEL'' S_cancel
       (onRequest ''ACK'' S_ack (onRequest ''BYE'' S_bye (onRequest ''INVITE'' S_invite
         (onRequest ''REGISTER'' S_register sk))))))"

text \<open>\<open>renv\<close> and \<open>env\<close> are the environments of the registrar and of the router, \<open>source\<close> is where the
  request came from.\<close>

definition scscf_handle ::
  "osip_lib \<Rightarrow> md5_fun \<Rightarrow> 'h hss \<Rightarrow> ScscfConfig \<Rightarrow> register_env \<Rightarrow> router_env \<Rightarrow> Endpoint \<Rightarrow> scscf_handler \<Rightarrow>
     osip_message \<Rightarrow> 'h scscf \<Rightarrow> 'h scscf_outcome" where
  "scscf_handle L md5 H cfg renv env source handler request s =
     (case handler of
        S_register \<Rightarrow> with_registrar s (handleRegister L md5 H (sc_domain cfg) renv request (registrar_of s))
      | S_invite \<Rightarrow> with_router s (handleInvite L (scscf_proxy cfg) (peer_icscf cfg) env source request (router_of s))
      | S_bye \<Rightarrow> with_router s (handleBye L (scscf_proxy cfg) env request (router_of s))
      | S_ack \<Rightarrow> with_router s (handleAck L (scscf_proxy cfg) env request (router_of s))
      | S_cancel \<Rightarrow> with_router s (handleCancel L (scscf_proxy cfg) env request (router_of s))
      | S_prack \<Rightarrow> with_router s (handlePrack L (scscf_proxy cfg) env request (router_of s))
      | S_subscribe \<Rightarrow> scscf_onSubscribe L cfg (ro_lookup_now env) (ro_tag env) request s)"

definition runRegistrationCleanup :: "time_point \<Rightarrow> 'h scscf \<Rightarrow> 'h scscf" where
  "runRegistrationCleanup now s = s\<lparr>sv_store := fst (purgeExpired now (sv_store s))\<rparr>"

text \<open>The timer: whether \<^verbatim>\<open>scheduleRegistrationCleanup\<close> arms it, and what its expiry does; the
  second component says whether it is armed again.\<close>

datatype timer_event = Expired_timer | Aborted_timer | Failed_timer

definition scheduleRegistrationCleanup :: "ScscfConfig \<Rightarrow> 'h scscf \<Rightarrow> bool" where
  "scheduleRegistrationCleanup cfg s \<longleftrightarrow> \<not> sv_stopping s \<and> sc_registration_cleanup_interval_ms cfg \<noteq> 0"

text \<open>\<open>sockets\<close> is what the sockets of the SIP transports answer; the last component says
  whether the timer is armed.\<close>

definition scscf_start ::
  "exosip_start_env \<Rightarrow> dual_env \<Rightarrow> ScscfConfig \<Rightarrow> 'h scscf \<Rightarrow> exosip \<Rightarrow> scscf_handler sip_stack \<Rightarrow>
     exosip \<times> scscf_handler sip_stack \<times> unit result \<times> bool" where
  "scscf_start env sockets cfg s x sk =
     (case notifier_start env x of
        (x1, Inl e) \<Rightarrow> (x1, sk, Inl e, False)
      | (x1, Inr _) \<Rightarrow>
          (case stack_start sockets (scscf_handlers sk) of
             (sk1, Inl e) \<Rightarrow> (x1, sk1, Inl e, False)
           | (sk1, Inr _) \<Rightarrow> (x1, sk1, Inr (), scheduleRegistrationCleanup cfg s)))"

definition cleanup_timer :: "ScscfConfig \<Rightarrow> time_point \<Rightarrow> timer_event \<Rightarrow> 'h scscf \<Rightarrow> 'h scscf \<times> bool" where
  "cleanup_timer cfg now ev s =
     (if ev = Aborted_timer then (s, False)
      else if sv_stopping s then (s, False)
      else if ev = Failed_timer then (s, scheduleRegistrationCleanup cfg s)
      else (let s1 = runRegistrationCleanup now s in (s1, scheduleRegistrationCleanup cfg s1)))"

definition scscf_stop ::
  "'h scscf \<Rightarrow> exosip \<Rightarrow> scscf_handler sip_stack \<Rightarrow> 'h scscf \<times> exosip \<times> scscf_handler sip_stack" where
  "scscf_stop s x sk =
     (if sv_stopping s then (s, x, sk)
      else (s\<lparr>sv_stopping := True\<rparr>, exosip_shutdown x, stack_stop sk))"

subsection \<open>From registration to a call\<close>

text \<open>Where the router sends a call to a contact: to the Path if it names a usable endpoint, else to the
  contact itself.\<close>

definition usable :: "Endpoint option \<Rightarrow> Endpoint option" where
  "usable e = (case e of Some d \<Rightarrow> if isUsableDestination d then Some d else None | None \<Rightarrow> None)"

definition contact_route :: "osip_lib \<Rightarrow> ContactBinding \<Rightarrow> Endpoint option" where
  "contact_route L c =
     (case usable (if path c = [] then None else parse_endpoint_from_uri L (path c)) of
        Some d \<Rightarrow> Some d
      | None \<Rightarrow> usable (parse_endpoint_from_uri L (contact_uri c)))"

lemma default_unusable: "\<not> isUsableDestination default_endpoint"
  by (simp add: isUsableDestination_def default_endpoint_def)

lemma resolve_contact_route:
  assumes "active_contacts now rb = c # cs" and "contact_route L c = Some d"
  shows "resolveBindingDestination L now rb = Inr d"
  using assms default_unusable
  by (auto simp: resolveBindingDestination_def contact_route_def usable_def Let_def split: if_splits option.splits)

lemma invite_finds_contact:
  assumes "store_wf m" and "contacts_of m k = [cb]" and "now < expires cb"
  shows "\<exists>m' rb. lookup now k m = (m', Inr rb) \<and> contacts rb = [cb]"
proof -
  have "filter (\<lambda>c. now < expires c) (contacts_of m k) = [cb]" using assms(2,3) by simp
  with mem.lookup_live [OF assms(1), of now k] obtain rb where "snd (lookup now k m) = Inr rb" "contacts rb = [cb]"
    by auto
  then show ?thesis by (metis prod.collapse)
qed

lemma setRequestUri_headers [simp]: "m_headers (setRequestUri L uri m) = m_headers m"
  by (simp add: setRequestUri_def)

text \<open>An INVITE for an identity with one live contact is passed on to the route of this contact.\<close>

lemma invite_reaches_contact:
  assumes "clone_ok L" and "store_wf (rt_store rt)" and "contacts_of (rt_store rt) k = [cb]"
    and "\<not> isInDialogRequest L invite" and "normalize_impu_uri L (requestUri L invite) = k"
    and "ro_lookup_now env < expires cb" and "ro_active_now env < expires cb" and "ro_resolve_now env < expires cb"
    and "contact_route L cb = Some d" and "maxForwards L invite = Inr hops" and "0 < hops"
  shows "\<exists>fwd. Downstream fwd d \<in> set (fst (snd (handleInvite L px peer env src invite rt)))"
proof -
  obtain m' rb where l: "lookup (ro_lookup_now env) k (rt_store rt) = (m', Inr rb)" and rb: "contacts rb = [cb]"
    using invite_finds_contact [OF assms(2,3,6)] by blast
  have act: "active_contacts (ro_active_now env) rb = [cb]" "active_contacts (ro_resolve_now env) rb = [cb]"
    using rb assms(7,8) by (simp_all add: active_contacts_def)
  let ?u = "extract_uri_from_name_addr (contact_uri cb)"
  let ?f = "if ?u \<noteq> [] then setRequestUri L ?u invite else invite"
  have t: "initial_target L peer env invite invite (rt_store rt) = (m', Inr (?f, d, impu rb))"
    using l act resolve_contact_route [OF act(2) assms(9)] assms(5)
    by (simp add: initial_target_def lookupCallee_def Let_def)
  have "maxForwards L (fst (processRouteHeaders L px ?f)) = Inr hops"
    using assms(10) maxForwards_cong [of "fst (processRouteHeaders L px ?f)" invite] headers_unchanged(2) by simp
  from prepare_with_hops [OF this assms(11)] obtain fwd
    where "prepareRequestForForward L px (ro_branch env) (ep_transport d) (fst (processRouteHeaders L px ?f)) = Inr (fwd, Inr ())"
    by blast
  with t assms(1,4) show ?thesis
    by (auto simp: handleInvite_def clone_def clone_ok_def Let_def)
qed

lemma contacts_of_lookup_store:
  "registrar_of (fst (with_registrar s r)) = \<lparr>rg_store = rg_store (fst r), rg_providers = rg_providers (fst r), rg_hss = rg_hss (fst r)\<rparr>"
  "sv_store (fst (with_registrar s r)) = rg_store (fst r)"
  by (simp_all add: with_registrar_def registrar_of_def split: prod.split)

lemma registrar_of_registered [simp]: "registrar_of (fst (with_registrar s r)) = fst r"
  by (simp add: contacts_of_lookup_store(1))

lemma registrar_of_fresh:
  "sc_auth_mode cfg = ''ims_only'' \<Longrightarrow> registrar_of (ScscfService cfg ds [] h) = fresh_registrar (sc_domain cfg) h"
  by (simp add: registrar_of_def ScscfService_def buildAuthProviders_def add_ims_def fresh_registrar_def)

subsection \<open>Properties\<close>

text \<open>C2: A subscriber who registers can be called: on a fresh S-CSCF in IMS AKA mode, a terminal that sends
  a REGISTER, answers the challenge with the digest over the expected result and so stores a contact, is
  reached by the next INVITE for its identity: until the contact expires the S-CSCF passes the INVITE on
  to the endpoint of the Path (or of the contact) it registered.\<close>

theorem registered_subscriber_can_be_called:
  assumes "init_ok L" and "clone_ok L" and "\<forall>s. md5 s \<noteq> []" and "sc_auth_mode cfg = ''ims_only''"
    and "\<not> isDeregister L req1" and "\<not> hasAuthorization L req1" and "message_method req1 = ''REGISTER''"
    and "H_mar H (aka_mar (sc_domain cfg) (aka_extractImpi L req1) (aka_extractImpu L req1)) h = (h1, Inr maa)"
    and "av_rand (maa_auth_vector maa) \<noteq> []" and "maa_sip_auth_scheme maa = ''Digest-AKAv1-MD5''"
    and "\<not> isDeregister L req2" and "answers_challenge L md5 req1 maa p req2"
    and "normalizeAuthorizationImpi L (sc_domain cfg) (da_username p) = aka_extractImpi L req1"
    and "re_auth_now env2 < re_auth_later env1 + kPendingAuthTtl"
    and "H_sar H (registration_sar (sc_domain cfg) (aka_extractImpi L req1) (aka_extractImpu L req1)) h1 = (h2, Inr a)"
    and "makeContactBinding L (re_contact_now env2) req2 (contact L req2) (determineRegisterExpires L req2) None = Inr cb"
    and "contact_route L cb = Some d"
    and "s1 = fst (scscf_handle L md5 H cfg env1 xenv1 src1 S_register req1 (ScscfService cfg ds [] h))"
    and "s2 = fst (scscf_handle L md5 H cfg env2 xenv2 src2 S_register req2 s1)"
    and "normalize_impu_uri L (requestUri L invite) = aka_extractImpu L req1" and "\<not> isInDialogRequest L invite"
    and "ro_lookup_now env < expires cb" and "ro_active_now env < expires cb" and "ro_resolve_now env < expires cb"
    and "maxForwards L invite = Inr hops" and "0 < hops"
  shows "\<exists>fwd. Sip (Downstream fwd d) \<in> set (fst (snd (scscf_handle L md5 H cfg renv env src S_invite invite s2)))"
proof -
  let ?home = "sc_domain cfg"
  have st: "sv_store s2 = rg_store (fst (handleRegister L md5 H ?home env2 req2
      (fst (handleRegister L md5 H ?home env1 req1 (fresh_registrar ?home h)))))"
    using assms(18,19) registrar_of_fresh [OF assms(4), of ds h]
    by (simp add: scscf_handle_def contacts_of_lookup_store(2))
  note two = two_round_trips_store [OF assms(1,3,5-16)]
  have "store_wf (rt_store (router_of s2)) \<and> contacts_of (rt_store (router_of s2)) (aka_extractImpu L req1) = [cb]"
    using two by (simp add: router_of_def st)
  with invite_reaches_contact [OF assms(2) _ _ assms(21,20,22-24,17,25,26), of "router_of s2"]
  obtain fwd where "Downstream fwd d \<in> set (fst (snd (handleInvite L (scscf_proxy cfg) (peer_icscf cfg) env src invite (router_of s2))))"
    by blast
  then show ?thesis by (auto simp: scscf_handle_def with_router_def case_prod_beta)
qed

subsection \<open>Examples\<close>

definition demo_scscf :: ScscfConfig where
  "demo_scscf = (cfg_scscf default_config)\<lparr>sc_domain := ''ims.local'', sc_auth_mode := ''ims_only''\<rparr>"

definition demo_call :: osip_message where
  "demo_call = demo_request\<lparr>m_req_uri := na_url demo_name_addr\<rparr>"

definition demo_renv :: router_env where
  "demo_renv = \<lparr>ro_now = 50, ro_lookup_now = 50, ro_active_now = 50, ro_resolve_now = 50, ro_tag = ''t'',
     ro_branch = ''b'', ro_sent = Inr (), ro_transport = (\<lambda>m d. Inr ())\<rparr>"

lemma demo_cb_route:
  assumes "makeContactBinding demo_lib 20 demo_register_auth (Some ''<sip:alice@10.0.0.1>'')
    (determineRegisterExpires demo_lib demo_register_auth) None = Inr cb"
  shows "contact_route demo_lib cb = Some \<lparr>ep_address = ''10.0.0.1'', ep_port = 5060, ep_transport = ''udp''\<rparr>"
proof -
  have c: "path cb = []" "contact_uri cb = ''<sip:alice@10.0.0.1>''"
    using assms by (auto simp: makeContactBinding_def demo_headers previous_or_empty_def Let_def split: sum.splits)
  have "parse_endpoint_from_uri demo_lib ''<sip:alice@10.0.0.1>'' =
      Some \<lparr>ep_address = ''10.0.0.1'', ep_port = 5060, ep_transport = ''udp''\<rparr>"
    unfolding parse_endpoint_from_uri_def demo_lib_sel param_gvalue_def by code_simp
  with c show ?thesis by (simp add: contact_route_def usable_def isUsableDestination_def)
qed

lemma demo_call_facts:
  "normalize_impu_uri demo_lib (requestUri demo_lib demo_call) = ''sip:alice@ims.local''"
  "\<not> isInDialogRequest demo_lib demo_call" "maxForwards demo_lib demo_call = Inr 70"
proof -
  show "normalize_impu_uri demo_lib (requestUri demo_lib demo_call) = ''sip:alice@ims.local''"
    using demo_uri_text by (simp add: requestUri_def demo_call_def demo_normal)
  show "\<not> isInDialogRequest demo_lib demo_call"
    by (simp add: isInDialogRequest_def demo_call_def demo_request_def toTag_def tag_of_def param_gvalue_def demo_lib_sel)
  show "maxForwards demo_lib demo_call = Inr 70"
    using maxForwards_cong [of demo_call demo_request] demo_max_forwards(1) by (simp add: demo_call_def)
qed

lemma registered_subscriber_can_be_called_witness:
  "\<exists>fwd. Sip (Downstream fwd \<lparr>ep_address = ''10.0.0.1'', ep_port = 5060, ep_transport = ''udp''\<rparr>) \<in>
     set (fst (snd (scscf_handle demo_lib demo_md5 demo_hss demo_scscf (demo_env 50) demo_renv default_endpoint
       S_invite demo_call
         (fst (scscf_handle demo_lib demo_md5 demo_hss demo_scscf (demo_env 20) demo_renv default_endpoint
           S_register demo_register_auth
             (fst (scscf_handle demo_lib demo_md5 demo_hss demo_scscf (demo_env 10) demo_renv default_endpoint
               S_register demo_register (ScscfService demo_scscf None [] ()))))))))"
proof -
  obtain cb where cb: "makeContactBinding demo_lib 20 demo_register_auth (Some ''<sip:alice@10.0.0.1>'')
      (determineRegisterExpires demo_lib demo_register_auth) None = Inr cb" "expires cb = 20 + seconds 3600"
    using demo_cb by auto
  let ?maa = "\<lparr>maa_result_code = kDiameterSuccess, maa_sip_auth_scheme = ''Digest-AKAv1-MD5'',
    maa_auth_vector = demo_vector\<rparr>"
  have dom: "sc_domain demo_scscf = ''ims.local''" "sc_auth_mode demo_scscf = ''ims_only''"
    by (simp_all add: demo_scscf_def)
  have mar: "H_mar demo_hss (aka_mar (sc_domain demo_scscf) (aka_extractImpi demo_lib demo_register)
      (aka_extractImpu demo_lib demo_register)) () = ((), Inr ?maa)"
    by (simp add: demo_hss_def aka_mar_def)
  obtain a where sar: "H_sar demo_hss (registration_sar (sc_domain demo_scscf) (aka_extractImpi demo_lib demo_register)
      (aka_extractImpu demo_lib demo_register)) () = ((), Inr a)"
    by (simp add: demo_hss_def)
  have m: "\<not> hasAuthorization demo_lib demo_register" "message_method demo_register = ''REGISTER''"
    by (simp_all add: hasAuthorization_def demo_headers message_method_def demo_register_sel)
  have user: "normalizeAuthorizationImpi demo_lib (sc_domain demo_scscf) (da_username demo_fields) =
      aka_extractImpi demo_lib demo_register"
    by (simp add: dom demo_identities) (simp add: demo_fields_def demo_identities)
  have v: "av_rand (maa_auth_vector ?maa) \<noteq> []" "maa_sip_auth_scheme ?maa = ''Digest-AKAv1-MD5''" "\<forall>s. demo_md5 s \<noteq> []"
    by (simp_all add: demo_vector_def demo_md5_def)
  have cb': "makeContactBinding demo_lib (re_contact_now (demo_env 20)) demo_register_auth (contact demo_lib demo_register_auth)
      (determineRegisterExpires demo_lib demo_register_auth) None = Inr cb"
    using cb(1) by (simp add: demo_contact_none demo_second_times(2))
  have t: "ro_lookup_now demo_renv < expires cb" "ro_active_now demo_renv < expires cb" "ro_resolve_now demo_renv < expires cb"
    by (simp_all add: cb(2) demo_renv_def seconds_def)
  show ?thesis
    by (rule registered_subscriber_can_be_called [OF demo_lib_ok(3,2) v(3) dom(2) demo_not_dereg(1) m mar v(1,2)
          demo_not_dereg(2) demo_answers user demo_second_times(1) sar cb' demo_cb_route [OF cb(1)] refl refl _
          demo_call_facts(2) t demo_call_facts(3)])
      (simp_all add: demo_call_facts(1) demo_identities)
qed

end
