(* ===== verification/Call_Path.thy ===== *)
theory Call_Path
  imports Pcscf Scscf
begin

section \<open>Calls across the servers\<close>

text \<open>
  The composition of the P-CSCF and the S-CSCF as the single program (allinone/main.cpp) wires them:
  the terminals talk to the P-CSCF, its core entry is the S-CSCF, and the S-CSCF sends a call back to
  the P-CSCF, whose Path the callee registered.  The output of one server is the input of the next.
\<close>

subsection \<open>What a hop keeps\<close>

text \<open>Each setter of the library changes the part of the message it is named after.\<close>

definition frame :: "osip_message \<Rightarrow> osip_via list \<times> osip_uri option \<times> osip_name_addr option \<times> osip_name_addr option \<times>
    osip_call_id option \<times> osip_cseq option \<times> osip_name_addr list \<times> int" where
  "frame m = (m_vias m, m_req_uri m, m_from m, m_to m, m_call_id m, m_cseq m, m_routes m, m_status_code m)"

definition setters_ok :: "osip_lib \<Rightarrow> bool" where
  "setters_ok L \<longleftrightarrow>
     (\<forall>n v m. frame (L_set_header L n v m) = frame m) \<and>
     (\<forall>s m. frame (L_set_record_route L s m) = frame m \<and> m_headers (L_set_record_route L s m) = m_headers m) \<and>
     (\<forall>s m. frame (L_set_body L s m) = frame m \<and> m_headers (L_set_body L s m) = m_headers m) \<and>
     (\<forall>s m. frame (L_set_content_type L s m) = frame m \<and> m_headers (L_set_content_type L s m) = m_headers m) \<and>
     (\<forall>s m. frame (L_set_content_length L s m) = frame m \<and> m_headers (L_set_content_length L s m) = m_headers m)"

lemma demo_setters_ok: "setters_ok demo_lib"
  by (simp add: setters_ok_def frame_def demo_lib_def)

lemma frameD:
  assumes "frame m = frame m'"
  shows "m_vias m = m_vias m'" "m_req_uri m = m_req_uri m'" "m_from m = m_from m'" "m_to m = m_to m'"
    "m_call_id m = m_call_id m'" "m_cseq m = m_cseq m'" "m_routes m = m_routes m'" "m_status_code m = m_status_code m'"
  using assms by (simp_all add: frame_def)

lemma setters_okD:
  assumes "setters_ok L"
  shows "set_header_ok L" "record_route_ok L" "frame (addHeader L n v m) = frame m"
    "frame (addRecordRoute L s m) = frame m" "frame (setBody L b ct m) = frame m" "m_headers (setBody L b ct m) = m_headers m"
proof -
  note a = assms [unfolded setters_ok_def]
  show "set_header_ok L" using a by (simp add: set_header_ok_def frame_def)
  show "record_route_ok L" "frame (addHeader L n v m) = frame m" "frame (addRecordRoute L s m) = frame m"
    using a by (simp_all add: record_route_ok_def addHeader_def addRecordRoute_def)
  have f: "frame (x\<lparr>m_bodies := bs\<rparr>) = frame x" "frame (x\<lparr>m_content_length := cl\<rparr>) = frame x" for x bs cl
    by (simp_all add: frame_def)
  show "frame (setBody L b ct m) = frame m" "m_headers (setBody L b ct m) = m_headers m"
    using a by (simp_all add: setBody_def f)
qed

text \<open>The parts of a message that name its dialog.\<close>

definition dialog :: "osip_message \<Rightarrow> osip_name_addr option \<times> osip_name_addr option \<times> osip_call_id option \<times> osip_cseq option" where
  "dialog m = (m_from m, m_to m, m_call_id m, m_cseq m)"

lemma frame_dialog: "frame m = frame m' \<Longrightarrow> dialog m = dialog m'"
  by (simp add: frame_def dialog_def)

lemma frame_max_forwards:
  assumes "setters_ok L"
  shows "frame (setMaxForwards L k m) = frame m" "decrementMaxForwards L m = Inr m' \<Longrightarrow> frame m' = frame m"
proof -
  show f: "frame (setMaxForwards L k m) = frame m" for k
    using setters_okD(3) [OF assms] by (auto simp: setMaxForwards_def frame_def split: option.split)
  show "decrementMaxForwards L m = Inr m' \<Longrightarrow> frame m' = frame m"
    using f by (auto simp: decrementMaxForwards_def split: sum.splits if_splits)
qed

lemma route_headers_keep:
  "m_vias (fst (processRouteHeaders L px m)) = m_vias m" "m_req_uri (fst (processRouteHeaders L px m)) = m_req_uri m"
  "dialog (fst (processRouteHeaders L px m)) = dialog m"
  by (auto simp: processRouteHeaders_def removeTopRoute_def dialog_def split: list.split)

text \<open>What a hop makes of a request: its Via on top, one hop less, the rest of the path and the dialog
  unchanged.\<close>

definition hop :: "osip_lib \<Rightarrow> osip_via \<Rightarrow> osip_message \<Rightarrow> osip_message \<Rightarrow> bool" where
  "hop L v m m' \<longleftrightarrow> m_vias m' = v # m_vias m \<and> dialog m' = dialog m \<and>
     (\<forall>k. maxForwards L m = Inr k \<longrightarrow> maxForwards L m' = Inr (k - 1))"

definition hop_via :: "proxy \<Rightarrow> Endpoint \<Rightarrow> string \<Rightarrow> string" where
  "hop_via px dest branch = proxy_via (udp_if_empty (ep_transport dest)) (local_address px) (local_port px) branch"

lemma prepare_hop:
  assumes "header_lookup_ok L" and "setters_ok L" and "maxForwards L m = Inr k" and "0 < k" and "k \<le> 2 ^ 31"
    and "L_via_parse L (hop_via px dest branch) = Some v"
  obtains m' where "prepareRequestForForward L px branch (ep_transport dest) m = Inr (m', Inr ())"
    and "hop L v m m'" and "m_req_uri m' = m_req_uri m"
proof -
  obtain m' where p: "prepareRequestForForward L px branch (ep_transport dest) m = Inr (m', Inr ())"
    using prepare_with_hops [OF assms(3,4)] by blast
  then obtain m2 where d: "decrementMaxForwards L m = Inr m2" and m': "m' = addVia L (hop_via px dest branch) m2"
    using assms(3,4)
    by (auto simp: prepareRequestForForward_def hop_via_def udp_if_empty_def Let_def split: sum.splits if_splits)
  note f = frame_max_forwards(2) [OF assms(2) d]
  have "maxForwards L m' = Inr (k - 1)" using prepare_spends_hop(2) [OF assms(1,3) _ assms(5) p] assms(4) by simp
  with assms(3,6) have "hop L v m m'" "m_req_uri m' = m_req_uri m"
    using frameD [OF f] by (simp_all add: hop_def m' addVia_def dialog_def)
  with p show thesis by (rule that)
qed

text \<open>A change that keeps path, dialog and headers does not matter to a hop.\<close>

lemma hop_cong:
  assumes "hop L v m1 m'" and "m_vias m1 = m_vias m" and "dialog m1 = dialog m" and "m_headers m1 = m_headers m"
  shows "hop L v m m'"
  using assms maxForwards_cong [OF assms(4), of L] by (simp add: hop_def)

subsection \<open>The hops of a call\<close>

text \<open>From a terminal through the P-CSCF to the core.\<close>

lemma leaves_for_the_core:
  assumes "header_lookup_ok L" and "setters_ok L"
    and "topology_ok pp (ps_topology st)" and "\<not> isLoopDetected (pcscf_proxy pp) request"
    and "maxForwards L request = Inr k" and "0 < k" and "k \<le> 2 ^ 31"
    and "L_via_parse L (hop_via (pcscf_proxy pp) (core_entry pp) (pe_branch env)) = Some v"
  obtains m where "Pcscf.Sip (Downstream m (core_entry pp)) \<in> set (fst (snd (forwardStatefulToCore L pp env rr request st)))"
    and "hop L v request m" and "m_req_uri m = m_req_uri request"
proof -
  let ?px = "pcscf_proxy pp"
  let ?r1 = "fst (processRouteHeaders L ?px request)"
  let ?r2 = "if rr then proxy_addRecordRoute L ?px ?r1 else ?r1"
  have fr: "frame ?r2 = frame ?r1"
    using setters_okD(4) [OF assms(2)] by (simp add: proxy_addRecordRoute_def)
  have h2: "m_headers ?r2 = m_headers request"
    using headers_unchanged(2) headers_unchanged(3) [OF setters_okD(2) [OF assms(2)]] by simp
  have v2: "m_vias ?r2 = m_vias request" "m_req_uri ?r2 = m_req_uri request" "dialog ?r2 = dialog request"
    using frameD [OF fr] frame_dialog [OF fr] route_headers_keep by simp_all
  have mf: "maxForwards L ?r2 = Inr k" using maxForwards_cong [OF h2] assms(5) by simp
  obtain m where p: "prepareRequestForForward L ?px (pe_branch env) (ep_transport (core_entry pp)) ?r2 = Inr (m, Inr ())"
      and h: "hop L v ?r2 m" "m_req_uri m = m_req_uri ?r2"
    by (rule prepare_hop [OF assms(1,2) mf assms(6,7,8)])
  obtain acts' r where f: "forwardStateful L ?px (pe_tag env) (pe_branch env) (pe_original env) (pe_send env)
      (core_options rr None) request (core_entry pp) = Inr (acts', r)" "Downstream m (core_entry pp) \<in> set acts'"
    using forward_prepared [of "core_options rr None" ?px request L "pe_branch env" "core_entry pp" m
        "pe_tag env" "pe_original env" "pe_send env" thesis] p assms(4)
    by (cases rr) (simp_all add: core_options_def)
  have "Pcscf.Sip (Downstream m (core_entry pp)) \<in> set (fst (snd (forwardStatefulToCore L pp env rr request st)))"
    using f resolve_gives_core_entry(1) [OF assms(3)]
    by (auto simp: forwardStatefulToCore_def pcscf_forward_def case_prod_beta)
  with hop_cong [OF h(1) v2(1,3) h2] h(2) v2(2) show thesis by (intro that [of m]) simp_all
qed

lemma invite_leaves_for_the_core:
  assumes "header_lookup_ok L" and "setters_ok L" and "\<not> isCoreFacingRequest pp (pe_source env)"
    and "topology_ok pp (ps_topology st)" and "\<not> isLoopDetected (pcscf_proxy pp) invite"
    and "maxForwards L invite = Inr k" and "0 < k" and "k \<le> 2 ^ 31"
    and "L_via_parse L (hop_via (pcscf_proxy pp) (core_entry pp) (pe_branch env)) = Some v"
  obtains m where "Pcscf.Sip (Downstream m (core_entry pp)) \<in> set (fst (snd (onInvite L pp env invite st)))"
    and "hop L v invite m" and "m_req_uri m = m_req_uri invite"
proof -
  obtain st1 r1 acts where a: "anchor_offer L pp env invite st = (st1, r1, acts)" by (metis prod_cases3)
  have r1: "frame r1 = frame invite" "m_headers r1 = m_headers invite"
    using a setters_okD(5,6) [OF assms(2)]
    by (auto simp: anchor_offer_def Let_def split: prod.splits option.splits sum.splits if_splits)
  have top: "topology_ok pp (ps_topology st1)"
    using topology_unchanged(2) [of L pp env invite st] a assms(4) by simp
  have "\<not> isLoopDetected (pcscf_proxy pp) r1" using assms(5) frameD(1) [OF r1(1)] by (simp add: isLoopDetected_def)
  moreover have "maxForwards L r1 = Inr k" using maxForwards_cong [OF r1(2)] assms(6) by simp
  ultimately obtain m where m: "Pcscf.Sip (Downstream m (core_entry pp)) \<in> set (fst (snd (forwardStatefulToCore L pp env True r1 st1)))"
      "hop L v r1 m" "m_req_uri m = m_req_uri r1"
    by (rule leaves_for_the_core [OF assms(1,2) top _ _ assms(7,8,9)])
  have "Pcscf.Sip (Downstream m (core_entry pp)) \<in> set (fst (snd (onInvite L pp env invite st)))"
    using m(1) assms(3) by (simp add: onInvite_def a after_actions_def case_prod_beta)
  with hop_cong [OF m(2) _ _ r1(2)] m(3) frameD [OF r1(1)] frame_dialog [OF r1(1)] show thesis
    by (intro that [of m]) simp_all
qed

text \<open>From the core through the P-CSCF to a terminal.\<close>

lemma leaves_for_the_terminal:
  assumes "header_lookup_ok L" and "setters_ok L" and "resolveUeDestination L request = Some ue"
    and "maxForwards L request = Inr k" and "0 < k" and "k \<le> 2 ^ 31"
    and "L_via_parse L (hop_via (pcscf_proxy pp) ue (pe_branch env)) = Some v"
  obtains m where "Pcscf.Sip (Downstream m ue) \<in> set (fst (snd (forwardStatefulToUe L pp env True request st)))"
    and "hop L v request m" and "m_req_uri m = m_req_uri request"
proof -
  let ?px = "pcscf_proxy pp"
  let ?rr = "topology_record_route pp (createTopologyToken (pe_digits env))"
  let ?r = "addRecordRoute L ?rr (request\<lparr>m_routes := [], m_record_routes := []\<rparr>)"
  have r: "addTopologyRecordRoute L pp (createTopologyToken (pe_digits env)) (remaining (removeHeader L ''Route'' request)) = ?r"
  proof -
    have "lowercase ''Route'' = ''route''" "lowercase ''Record-Route'' = ''record-route''" by code_simp+
    then show ?thesis by (simp add: addTopologyRecordRoute_def removeHeader_def)
  qed
  note fr = setters_okD(4) [OF assms(2), of ?rr "request\<lparr>m_routes := [], m_record_routes := []\<rparr>"]
  have v2: "m_vias ?r = m_vias request" "m_req_uri ?r = m_req_uri request" "dialog ?r = dialog request"
    using frameD [OF fr] frame_dialog [OF fr] by (simp_all add: dialog_def)
  have h2: "m_headers ?r = m_headers request"
    using setters_okD(2) [OF assms(2)] by (simp add: record_route_ok_def addRecordRoute_def)
  have mf: "maxForwards L ?r = Inr k" using maxForwards_cong [OF h2] assms(4) by simp
  obtain m where p: "prepareRequestForForward L ?px (pe_branch env) (ep_transport ue) ?r = Inr (m, Inr ())"
      and h: "hop L v ?r m" "m_req_uri m = m_req_uri ?r"
    by (rule prepare_hop [OF assms(1,2) mf assms(5,6,7)])
  obtain acts' r' where f: "forwardStateful L ?px (pe_tag env) (pe_branch env) (pe_original env) (pe_send env)
      ue_options ?r ue = Inr (acts', r')" "Downstream m ue \<in> set acts'"
    using forward_prepared [of ue_options ?px ?r L "pe_branch env" ue m "pe_tag env" "pe_original env" "pe_send env" thesis] p
    by (simp add: ue_options_def)
  have "Pcscf.Sip (Downstream m ue) \<in> set (fst (snd (forwardStatefulToUe L pp env True request st)))"
    using f assms(3) by (auto simp: forwardStatefulToUe_def pcscf_forward_def r Let_def)
  with hop_cong [OF h(1) v2(1,3) h2] h(2) v2(2) show thesis by (intro that [of m]) simp_all
qed

lemma invite_leaves_for_the_terminal:
  assumes "isCoreFacingRequest pp (pe_source env)"
  shows "onInvite L pp env invite st = forwardStatefulToUe L pp env True invite st"
  using assms by (simp add: onInvite_def)

text \<open>Through the S-CSCF to the route of a registered contact.\<close>

lemma invite_leaves_for_the_contact:
  assumes "header_lookup_ok L" and "setters_ok L" and "clone_ok L"
    and "store_wf (rt_store rt)" and "contacts_of (rt_store rt) aor = [cb]"
    and "toTag L invite = []" and "normalize_impu_uri L (requestUri L invite) = aor"
    and "ro_lookup_now env < expires cb" and "ro_active_now env < expires cb" and "ro_resolve_now env < expires cb"
    and "contact_route L cb = Some d" and "extract_uri_from_name_addr (contact_uri cb) = u" and "u \<noteq> []"
    and "maxForwards L invite = Inr k" and "0 < k" and "k \<le> 2 ^ 31"
    and "L_via_parse L (hop_via px d (ro_branch env)) = Some v"
  obtains m where "Downstream m d \<in> set (fst (snd (handleInvite L px peer env src invite rt)))"
    and "hop L v invite m" and "m_req_uri m = m_req_uri (setRequestUri L u invite)"
proof -
  obtain m' rb where l: "lookup (ro_lookup_now env) aor (rt_store rt) = (m', Inr rb)" and rb: "contacts rb = [cb]"
    using invite_finds_contact [OF assms(4,5,8)] by blast
  have act: "active_contacts (ro_active_now env) rb = [cb]" "active_contacts (ro_resolve_now env) rb = [cb]"
    using rb assms(9,10) by (simp_all add: active_contacts_def)
  let ?f = "setRequestUri L u invite" and ?r = "fst (processRouteHeaders L px (setRequestUri L u invite))"
  have t: "initial_target L peer env invite invite (rt_store rt) = (m', Inr (?f, d, impu rb))"
    using l act resolve_contact_route [OF act(2) assms(11)] assms(7,12,13)
    by (simp add: initial_target_def lookupCallee_def Let_def)
  have h: "m_headers ?r = m_headers invite" using headers_unchanged(2) by simp
  have e: "m_vias ?r = m_vias invite" "dialog ?r = dialog invite" "m_req_uri ?r = m_req_uri ?f"
    using route_headers_keep(1,2,3) [of L px ?f] by (simp_all add: setRequestUri_def dialog_def)
  have mf: "maxForwards L ?r = Inr k" using maxForwards_cong [OF h] assms(14) by simp
  obtain m where p: "prepareRequestForForward L px (ro_branch env) (ep_transport d) ?r = Inr (m, Inr ())"
      and hp: "hop L v ?r m" "m_req_uri m = m_req_uri ?r"
    by (rule prepare_hop [OF assms(1,2) mf assms(15,16,17)])
  have "Downstream m d \<in> set (fst (snd (handleInvite L px peer env src invite rt)))"
    using t p assms(3,6) by (auto simp: handleInvite_def clone_def clone_ok_def isInDialogRequest_def Let_def)
  with hop_cong [OF hp(1) e(1,2) h] hp(2) e(3) show thesis by (intro that [of m]) simp_all
qed

subsection \<open>The way back\<close>

lemma pcscf_response_up:
  assumes "clone_ok L" and "setters_ok L" and "m_vias response = v # w # vs"
  shows "\<exists>up. Pcscf.Sip (Upstream up) \<in> set (snd (pcscf_response L pp env False response st)) \<and>
    m_vias up = w # vs \<and> m_status_code up = m_status_code response \<and> dialog up = dialog response"
  using assms
  by (auto simp: pcscf_response_def forwardStateful_on_response_def forwardResponseUpstream_def clone_def clone_ok_def
      core_options_def viaCount_def removeTopVia_def dialog_def)

lemma scscf_response_up:
  assumes "clone_ok L" and "m_vias response = v # w # vs"
  shows "\<exists>up. Upstream up \<in> set (snd (invite_response L env call_id from_tag in_dialog response rt)) \<and>
    m_vias up = w # vs \<and> m_status_code up = m_status_code response \<and> dialog up = dialog response"
  using assms
  by (auto simp: invite_response_def forwardResponseUpstream_def clone_def clone_ok_def viaCount_def removeTopVia_def dialog_def)

lemma sanitize_loop_vias:
  "length (m_vias m) = Suc n \<Longrightarrow> k \<ge> n \<Longrightarrow>
   m_vias (sanitize_loop k m) = [last (m_vias m)] \<and> m_status_code (sanitize_loop k m) = m_status_code m \<and>
   dialog (sanitize_loop k m) = dialog m"
proof (induction k arbitrary: m n)
  case 0
  then show ?case by (cases "m_vias m") auto
next
  case (Suc k)
  show ?case
  proof (cases n)
    case 0
    with Suc.prems show ?thesis by (cases "m_vias m") (auto simp: viaCount_def)
  next
    case (Suc n')
    have "length (m_vias (removeTopVia m)) = Suc n'" using Suc.prems Suc by (simp add: removeTopVia_def)
    moreover have "last (tl (m_vias m)) = last (m_vias m)" using Suc.prems Suc by (cases "m_vias m") auto
    ultimately show ?thesis using Suc.IH [of "removeTopVia m" n'] Suc.prems Suc
      by (simp add: viaCount_def removeTopVia_def dialog_def)
  qed
qed

lemma on_invite_response_cases:
  assumes "P response" and "P (sanitizeForUeEgress response)"
    and "\<And>b. P (setBody L b ''application/sdp'' (sanitizeForUeEgress response))"
  shows "P (snd (onInviteResponse L pp env response st))"
  unfolding onInviteResponse_def Let_def
  by (simp add: assms if_distrib [of P] case_prod_beta split: option.split sum.split prod.split)

text \<open>What the media callback makes of a response: its path, at most cut down to the last Via.\<close>

lemma on_invite_response_keeps:
  assumes "setters_ok L" and "m_vias response \<noteq> []"
  shows "m_vias (snd (onInviteResponse L pp env response st)) \<in> {m_vias response, [last (m_vias response)]} \<and>
    m_status_code (snd (onInviteResponse L pp env response st)) = m_status_code response \<and>
    dialog (snd (onInviteResponse L pp env response st)) = dialog response"
proof -
  let ?s = "sanitizeForUeEgress response"
  have s: "m_vias ?s = [last (m_vias response)]" "m_status_code ?s = m_status_code response" "dialog ?s = dialog response"
    using sanitize_loop_vias [of response "length (m_vias response) - 1" "viaCount response"] assms(2)
    by (simp_all add: sanitizeForUeEgress_def viaCount_def)
  show ?thesis
    by (rule on_invite_response_cases)
      (use s frameD [OF setters_okD(5) [OF assms(1)]] frame_dialog [OF setters_okD(5) [OF assms(1)]] in simp_all)
qed

lemma pcscf_answer_up:
  assumes "clone_ok L" and "setters_ok L" and "m_vias response = [v, w]"
  shows "\<exists>up. Pcscf.Sip (Upstream up) \<in> set (snd (pcscf_response L pp env True response st)) \<and>
    m_vias up = [w] \<and> m_status_code up = m_status_code response \<and> dialog up = dialog response"
proof -
  let ?c = "snd (onInviteResponse L pp env response st)"
  have "m_vias ?c \<in> {[v, w], [w]}" "m_status_code ?c = m_status_code response" "dialog ?c = dialog response"
    using on_invite_response_keeps [OF assms(2), of response pp env st] assms(3) by auto
  then show ?thesis
    using assms(1)
    by (intro exI [of _ "if 1 < viaCount ?c then removeTopVia ?c else ?c"])
      (auto simp: pcscf_response_def forwardStateful_on_response_def forwardResponseUpstream_def clone_def clone_ok_def
        core_options_def viaCount_def removeTopVia_def dialog_def split: prod.split)
qed

text \<open>The answer to a request that came through the three servers, passed back by each of them.\<close>

lemma answer_comes_back:
  assumes "clone_ok L" and "setters_ok L" and "m_vias r = [v3, v2, v1, v]"
  shows "\<exists>r1 r2 r3. Pcscf.Sip (Upstream r1) \<in> set (snd (pcscf_response L pp env4 False r st4)) \<and>
    Upstream r2 \<in> set (snd (invite_response L env5 call_id from_tag in_dialog r1 rt)) \<and>
    Pcscf.Sip (Upstream r3) \<in> set (snd (pcscf_response L pp env6 True r2 st6)) \<and>
    m_vias r3 = [v] \<and> m_status_code r3 = m_status_code r \<and> dialog r3 = dialog r"
proof -
  obtain r1 where r1: "Pcscf.Sip (Upstream r1) \<in> set (snd (pcscf_response L pp env4 False r st4))"
      "m_vias r1 = [v2, v1, v]" "m_status_code r1 = m_status_code r" "dialog r1 = dialog r"
    using pcscf_response_up [OF assms] by blast
  obtain r2 where r2: "Upstream r2 \<in> set (snd (invite_response L env5 call_id from_tag in_dialog r1 rt))"
      "m_vias r2 = [v1, v]" "m_status_code r2 = m_status_code r" "dialog r2 = dialog r"
    using scscf_response_up [OF assms(1) r1(2)] r1(3,4) by fastforce
  obtain r3 where "Pcscf.Sip (Upstream r3) \<in> set (snd (pcscf_response L pp env6 True r2 st6))"
      "m_vias r3 = [v]" "m_status_code r3 = m_status_code r" "dialog r3 = dialog r"
    using pcscf_answer_up [OF assms(1,2) r2(2)] r2(3,4) by fastforce
  with r1(1) r2(1) show ?thesis by blast
qed

subsection \<open>Registration through the P-CSCF\<close>

lemma lookup_sound:
  assumes "header_lookup_ok L" and "L_header_byname L hs n 0 = Some (i, h)"
  shows "i < length hs" "h = hs ! i" "named n h"
proof -
  let ?f = "filter (\<lambda>i. named n (hs ! i)) [0..<length hs]"
  have f: "(case ?f of [] \<Rightarrow> None | i # _ \<Rightarrow> Some (i, hs ! i)) = Some (i, h)"
    using assms(2) header_lookup [OF assms(1), of hs n 0] by simp
  then have "i = hd ?f" "?f \<noteq> []" and h: "h = hs ! i" by (auto split: list.splits)
  then have "i \<in> set ?f" by (metis hd_in_set)
  with h show "i < length hs" "h = hs ! i" "named n h" by auto
qed

lemma max_forwards_of_extended:
  assumes "header_lookup_ok L" and "m_headers m' = m_headers m @ hs" and "maxForwards L m = Inr k" and "0 < k"
  shows "maxForwards L m' = Inr k"
proof -
  have "L_header_byname L (m_headers m) ''max-forwards'' 0 \<noteq> None"
    using assms(3,4) by (cases "L_header_byname L (m_headers m) ''max-forwards'' 0") (simp_all add: maxForwards_def)
  then have "\<exists>x \<in> set (m_headers m). named ''max-forwards'' x"
    using header_lookup_none [OF assms(1), of 0 "m_headers m" "''max-forwards''"] by force
  then obtain pre h post where "m_headers m = pre @ h # post" "\<forall>x \<in> set pre. \<not> named ''max-forwards'' x" "named ''max-forwards'' h"
    by (rule named_first_split)
  then show ?thesis
    using header_lookup_first [OF assms(1), of pre "''max-forwards''" h 0] assms(2,3) by (simp add: maxForwards_def)
qed

text \<open>Spending a hop leaves a Path at the end of the headers where it is.\<close>

lemma decrement_keeps_path:
  assumes "header_lookup_ok L" and "m_headers m = hs @ [P]" and "hname P = ''Path''"
    and "\<forall>h \<in> set hs. \<not> named ''Path'' h" and "maxForwards L m = Inr k" and "0 < k" and "decrementMaxForwards L m = Inr m'"
  obtains hs' where "m_headers m' = hs' @ [P]" and "\<forall>h \<in> set hs'. \<not> named ''Path'' h"
proof -
  have "L_header_byname L (m_headers m) ''max-forwards'' 0 \<noteq> None"
    using assms(5,6) by (cases "L_header_byname L (m_headers m) ''max-forwards'' 0") (simp_all add: maxForwards_def)
  then obtain i h where l: "L_header_byname L (m_headers m) ''max-forwards'' 0 = Some (i, h)" by auto
  note s = lookup_sound [OF assms(1) l]
  let ?h = "h\<lparr>hvalue := Some (show_int (k - 1))\<rparr>"
  have "\<not> named ''max-forwards'' P" by (simp add: named_def assms(3) header_names)
  with s assms(2) have i: "i < length hs" by (cases "i = length hs") auto
  have "m_headers m' = hs[i := ?h] @ [P]"
    using assms(2,5,6,7) l i by (simp add: decrementMaxForwards_def setMaxForwards_def list_update_append)
      (auto simp: setMaxForwards_def list_update_append)
  moreover have "\<not> named ''Path'' ?h"
    using s(2,3) assms(4) i by (auto simp: assms(2) nth_append named_def)
  then have "\<forall>h \<in> set (hs[i := ?h]). \<not> named ''Path'' h"
    using assms(4) set_update_subset_insert [of hs i ?h] by blast
  ultimately show thesis by (rule that)
qed

lemma path_is_last:
  assumes "header_lookup_ok L" and "m_headers m = hs @ [P]" and "hname P = ''Path''" and "hvalue P = Some p"
    and "\<forall>h \<in> set hs. \<not> named ''Path'' h"
  shows "\<exists>ps. getHeaders L ''Path'' m = p # ps"
proof -
  have "lowercase ''Path'' \<notin> set special_names" by (simp add: header_names special_names_def)
  then have "getHeaders L ''Path'' m = replicate (Suc (length hs)) p"
    using header_values_loop_repeats [OF assms(1,5), of "[]" P p 0 "Suc (length (m_headers m))"] assms(2-4)
    by (simp add: getHeaders_generic named_def)
  then show ?thesis by simp
qed

text \<open>A REGISTER that passes the P-CSCF leaves it with the P-CSCF as its Path, and so the contact the
  registrar makes of it has the P-CSCF as its Path.\<close>

theorem registration_takes_the_pcscf_as_path:
  assumes "header_lookup_ok L" and "setters_ok L" and "set_header_appends L"
    and "st = fst (pcscf_run L pp evs PcscfService)" and "\<not> isLoopDetected (pcscf_proxy pp) request"
    and "usable_address (local_address (pcscf_proxy pp))"
    and "\<forall>h \<in> set (m_headers request). \<not> named ''Path'' h"
    and "maxForwards L request = Inr k" and "0 < k"
  shows "\<exists>m. Pcscf.Sip (Downstream m (core_entry pp)) \<in> set (fst (snd (onRegister L pp env request st))) \<and>
    (\<forall>cb. makeContactBinding L now m c exp previous = Inr cb \<longrightarrow> path cb = lr_uri (pcscf_proxy pp))"
proof -
  let ?px = "pcscf_proxy pp" and ?req = "addPathHeader L (pcscf_proxy pp) request"
  let ?r = "fst (processRouteHeaders L ?px ?req)"
  have top: "topology_ok pp (ps_topology st)"
    using pcscf_run_ok [OF PcscfService_ok] assms(4) by (simp add: pcscf_state_ok_def)
  have "lr_uri ?px \<noteq> []" by (simp add: lr_uri_def)
  then have r0: "?req = L_set_header L ''Path'' (lr_uri ?px) request"
    using assms(6) by (simp add: addPathHeader_def buildPathHeader_def addHeader_def)
  have h0: "m_headers ?r = m_headers request @ [\<lparr>hname = ''Path'', hvalue = Some (lr_uri ?px)\<rparr>]"
    unfolding headers_unchanged(2) r0 using assms(3) by (simp add: set_header_appends_def)
  have nl: "\<not> isLoopDetected ?px ?req"
    using assms(5) frameD(1) [OF setters_okD(3) [OF assms(2), of "''Path''" "lr_uri ?px" request]]
    by (simp add: r0 addHeader_def isLoopDetected_def)
  have mf: "maxForwards L ?r = Inr k" by (rule max_forwards_of_extended [OF assms(1) h0 assms(8,9)])
  obtain m where p: "prepareRequestForForward L ?px (pe_branch env) (ep_transport (core_entry pp)) ?r = Inr (m, Inr ())"
    using prepare_with_hops [OF mf assms(9)] by blast
  then obtain m2 where d: "decrementMaxForwards L ?r = Inr m2" and m: "m_headers m = m_headers m2"
    using mf assms(9) by (auto simp: prepareRequestForForward_def Let_def headers_unchanged(1) split: sum.splits)
  obtain hs' where hs': "m_headers m = hs' @ [\<lparr>hname = ''Path'', hvalue = Some (lr_uri ?px)\<rparr>]" "\<forall>h \<in> set hs'. \<not> named ''Path'' h"
    by (rule decrement_keeps_path [OF assms(1) h0 _ assms(7) mf assms(9) d]) (simp_all add: m)
  then obtain ps where ps: "getHeaders L ''Path'' m = lr_uri ?px # ps"
    using path_is_last [OF assms(1) hs'(1) _ _ hs'(2)] by auto
  obtain acts r where f: "forwardStateful L ?px (pe_tag env) (pe_branch env) (pe_original env) (pe_send env)
      (core_options False None) ?req (core_entry pp) = Inr (acts, r)" "Downstream m (core_entry pp) \<in> set acts"
    using forward_prepared [of "core_options False None" ?px ?req L "pe_branch env" "core_entry pp" m
        "pe_tag env" "pe_original env" "pe_send env" thesis] nl p by (simp add: core_options_def)
  then have "Pcscf.Sip (Downstream m (core_entry pp)) \<in> set (fst (snd (onRegister L pp env request st)))"
    using resolve_gives_core_entry(1) [OF top]
    by (auto simp: onRegister_def forwardStatefulToCore_def pcscf_forward_def case_prod_beta)
  moreover have "makeContactBinding L now m c exp previous = Inr cb \<Longrightarrow> path cb = lr_uri ?px" for cb
    using ps by (cases "message_cseq m") (auto simp: makeContactBinding_def)
  ultimately show ?thesis by (intro exI [of _ m]) simp
qed

subsection \<open>Properties\<close>

text \<open>C1: A call between two terminals of the system goes through and is answered: the INVITE of one
  terminal passes the P-CSCF, the S-CSCF and the P-CSCF again and reaches the contact the other
  registered, in its dialog, with the three Vias of the servers above its own and three hops less; and the
  answer of the other terminal, passed back by each of them, arrives with its status, in the same
  dialog, and with exactly the Via of the caller.\<close>

theorem call_reaches_the_other_terminal:
  assumes "header_lookup_ok L" and "setters_ok L" and "clone_ok L" and "init_ok L"
    and "\<not> isCoreFacingRequest pp (pe_source env1)" and "isCoreFacingRequest pp (pe_source env3)"
    and "st1 = fst (pcscf_run L pp evs PcscfService)" and "\<not> isLoopDetected (pcscf_proxy pp) invite"
    and "m_vias invite = [v]" and "toTag L invite = []" and "maxForwards L invite = Inr k" and "3 \<le> k" and "k \<le> 2 ^ 31"
    and "store_wf (sv_store s)" and "contacts_of (sv_store s) (normalize_impu_uri L (requestUri L invite)) = [cb]"
    and "ro_lookup_now env2 < expires cb" and "ro_active_now env2 < expires cb" and "ro_resolve_now env2 < expires cb"
    and "contact_route L cb = Some d"
    and "extract_uri_from_name_addr (contact_uri cb) = u" and "u \<noteq> []"
    and "parse_endpoint_from_uri L (requestUri L (setRequestUri L u invite)) = Some e"
    and "ep_address e \<notin> {[], ''ims.local''}" and "ue = default_transport e"
    and "L_via_parse L (hop_via (pcscf_proxy pp) (core_entry pp) (pe_branch env1)) = Some v1"
    and "L_via_parse L (hop_via (scscf_proxy cfg) d (ro_branch env2)) = Some v2"
    and "L_via_parse L (hop_via (pcscf_proxy pp) ue (pe_branch env3)) = Some v3"
  shows "\<exists>m1 m2 m3 r r1 r2 r3.
    Pcscf.Sip (Downstream m1 (core_entry pp)) \<in> set (fst (snd (onInvite L pp env1 invite st1))) \<and>
    Scscf.Sip (Downstream m2 d) \<in> set (fst (snd (scscf_handle L md5 H cfg renv env2 src S_invite m1 s))) \<and>
    Pcscf.Sip (Downstream m3 ue) \<in> set (fst (snd (onInvite L pp env3 m2 st3))) \<and>
    m_vias m3 = [v3, v2, v1, v] \<and> dialog m3 = dialog invite \<and> maxForwards L m3 = Inr (k - 3) \<and>
    m_req_uri m3 = m_req_uri (setRequestUri L u invite) \<and>
    createResponse L tag m3 code reason = Inr r \<and>
    Pcscf.Sip (Upstream r1) \<in> set (snd (pcscf_response L pp env4 False r st4)) \<and>
    Upstream r2 \<in> set (snd (invite_response L env5 call_id from_tag in_dialog r1 rt)) \<and>
    Pcscf.Sip (Upstream r3) \<in> set (snd (pcscf_response L pp env6 True r2 st6)) \<and>
    m_vias r3 = [v] \<and> m_status_code r3 = code \<and> dialog r3 = dialog r"
proof -
  have top: "topology_ok pp (ps_topology st1)"
    using pcscf_run_ok [OF PcscfService_ok] assms(7) by (simp add: pcscf_state_ok_def)
  obtain m1 where m1: "Pcscf.Sip (Downstream m1 (core_entry pp)) \<in> set (fst (snd (onInvite L pp env1 invite st1)))"
      "hop L v1 invite m1" "m_req_uri m1 = m_req_uri invite"
    by (rule invite_leaves_for_the_core [OF assms(1,2,5) top assms(8,11) _ assms(13,25)]) (use assms(12) in simp)
  have mf1: "maxForwards L m1 = Inr (k - 1)" and tag1: "toTag L m1 = []" and uri1: "requestUri L m1 = requestUri L invite"
    using m1 assms(10,11) by (simp_all add: hop_def dialog_def toTag_def requestUri_def)
  have su: "m_req_uri (setRequestUri L u m) = m_req_uri (setRequestUri L u invite)" for m by (simp add: setRequestUri_def)
  obtain m2 where m2: "Downstream m2 d \<in> set (fst (snd (handleInvite L (scscf_proxy cfg) (peer_icscf cfg) env2 src m1 (router_of s))))"
      "hop L v2 m1 m2" "m_req_uri m2 = m_req_uri (setRequestUri L u m1)"
  proof (rule invite_leaves_for_the_contact [OF assms(1,2,3) _ _ tag1 _ assms(16-21) mf1 _ _ assms(26)])
    show "store_wf (rt_store (router_of s))"
      "contacts_of (rt_store (router_of s)) (normalize_impu_uri L (requestUri L invite)) = [cb]"
      using assms(14,15) by (simp_all add: router_of_def)
  qed (use assms(12,13) uri1 in simp_all)
  have s2: "Scscf.Sip (Downstream m2 d) \<in> set (fst (snd (scscf_handle L md5 H cfg renv env2 src S_invite m1 s)))"
    using m2(1) by (auto simp: scscf_handle_def with_router_def case_prod_beta)
  have mf2: "maxForwards L m2 = Inr (k - 2)" using m2(2) mf1 by (simp add: hop_def)
  have "requestUri L m2 = requestUri L (setRequestUri L u invite)" using m2(3) su [of m1] by (simp add: requestUri_def)
  then have ue: "resolveUeDestination L m2 = Some ue" using assms(22-24) by (simp add: resolveUeDestination_def Let_def)
  obtain m3 where m3: "Pcscf.Sip (Downstream m3 ue) \<in> set (fst (snd (onInvite L pp env3 m2 st3)))"
      "hop L v3 m2 m3" "m_req_uri m3 = m_req_uri m2"
    unfolding invite_leaves_for_the_terminal [OF assms(6)]
    by (rule leaves_for_the_terminal [OF assms(1,2) ue mf2 _ _ assms(27)]) (use assms(12,13) in simp_all)
  have end3: "m_vias m3 = [v3, v2, v1, v]" "dialog m3 = dialog invite" "maxForwards L m3 = Inr (k - 3)"
      "m_req_uri m3 = m_req_uri (setRequestUri L u invite)"
    using m1(2) m2(2,3) m3(2,3) mf2 assms(9) su by (simp_all add: hop_def)
  obtain r where r: "createResponse L tag m3 code reason = Inr r"
    using assms(4) by (auto simp: createResponse_def create_def init_ok_def Let_def)
  have rf: "m_vias r = [v3, v2, v1, v]" "m_status_code r = code"
    using createResponse_fields [OF assms(3,4) r] end3(1) by simp_all
  show ?thesis
    using answer_comes_back [OF assms(3,2) rf(1), of pp env4 st4 env5 call_id from_tag in_dialog rt env6 st6]
      m1(1) s2 m3(1) end3 r rf(2) by blast
qed

text \<open>The S-CSCF with the sessions and the store of a router.\<close>

definition with_sessions :: "router \<Rightarrow> 'h scscf \<Rightarrow> 'h scscf" where
  "with_sessions rt s = s\<lparr>sv_store := rt_store rt, sv_sessions := rt_sessions rt\<rparr>"

lemma router_of_with_sessions: "router_of (with_sessions rt s) = rt"
  by (simp add: router_of_def with_sessions_def)

text \<open>C37: A call can be hung up by the callee: when the INVITE came to the S-CSCF from the P-CSCF and was answered
  with a 2xx, a BYE of the callee's terminal passes the P-CSCF, the S-CSCF and the P-CSCF again and reaches the
  terminal it names, in its dialog, with the three Vias of the servers above its own and three hops less.\<close>

theorem hang_up_reaches_the_caller:
  assumes "header_lookup_ok L" and "setters_ok L" and "clone_ok L"
    and "router_reach L (scscf_proxy cfg) (peer_icscf cfg) rt" and "no_session_for (callId invite) (rt_sessions rt)"
    and "\<not> isInDialogRequest L invite"
    and "handleInvite L (scscf_proxy cfg) (peer_icscf cfg) ienv d invite rt = (rt1, iacts, iex)"
    and "Downstream fwd dest \<in> set iacts"
    and "200 \<le> statusCode ok" and "statusCode ok < 300" and "toTag L ok \<noteq> []" and "toTag L ok \<noteq> fromTag L invite"
    and "ro_now oenv - ro_now ienv < kInviteSessionTtl"
    and "s = with_sessions (fst (invite_response L oenv (callId invite) (fromTag L invite) False ok rt1)) s0"
    and "callId bye = callId invite" and "fromTag L bye = toTag L ok" and "toTag L bye = fromTag L invite"
    and "\<not> isCoreFacingRequest pp (pe_source env1)" and "isCoreFacingRequest pp (pe_source env3)"
    and "st1 = fst (pcscf_run L pp evs PcscfService)" and "\<not> isLoopDetected (pcscf_proxy pp) bye"
    and "maxForwards L bye = Inr k" and "3 \<le> k" and "k \<le> 2 ^ 31"
    and "parse_endpoint_from_uri L (requestUri L bye) = Some e" and "ep_address e \<notin> {[], ''ims.local''}" and "ue = default_transport e"
    and "L_via_parse L (hop_via (pcscf_proxy pp) (core_entry pp) (pe_branch env1)) = Some v1"
    and "L_via_parse L (hop_via (scscf_proxy cfg) d (ro_branch env2)) = Some v2"
    and "L_via_parse L (hop_via (pcscf_proxy pp) ue (pe_branch env3)) = Some v3"
  shows "\<exists>b1 b2 b3.
    Pcscf.Sip (Downstream b1 (core_entry pp)) \<in> set (fst (snd (onBye L pp env1 bye st1))) \<and>
    Scscf.Sip (Downstream b2 d) \<in> set (fst (snd (scscf_handle L md5 H cfg renv env2 src S_bye b1 s))) \<and>
    Pcscf.Sip (Downstream b3 ue) \<in> set (fst (snd (onBye L pp env3 b2 st3))) \<and>
    m_vias b3 = v3 # v2 # v1 # m_vias bye \<and> dialog b3 = dialog bye \<and> maxForwards L b3 = Inr (k - 3) \<and>
    m_req_uri b3 = m_req_uri bye"
proof -
  have top: "topology_ok pp (ps_topology (fst (terminateMediaForRequest L pp bye st1)))"
    using pcscf_run_ok [OF PcscfService_ok] assms(20) by (simp add: pcscf_state_ok_def)
  obtain b1 where b1: "Pcscf.Sip (Downstream b1 (core_entry pp)) \<in>
        set (fst (snd (forwardStatefulToCore L pp env1 False bye (fst (terminateMediaForRequest L pp bye st1)))))"
      "hop L v1 bye b1" "m_req_uri b1 = m_req_uri bye"
    by (rule leaves_for_the_core [OF assms(1,2) top assms(21,22) _ assms(24,28)]) (use assms(23) in simp)
  have same: "callId b1 = callId invite" "fromTag L b1 = toTag L ok" "toTag L b1 = fromTag L invite" "maxForwards L b1 = Inr (k - 1)"
    using b1(2) assms(15-17,22) by (simp_all add: hop_def dialog_def callId_def fromTag_def toTag_def)
  let ?r = "fst (processRouteHeaders L (scscf_proxy cfg) b1)"
  have mf1: "maxForwards L ?r = Inr (k - 1)" using maxForwards_cong [OF headers_unchanged(2)] same(4) by simp
  obtain b2 where p2: "prepareRequestForForward L (scscf_proxy cfg) (ro_branch env2) (ep_transport d) ?r = Inr (b2, Inr ())"
      and h2: "hop L v2 ?r b2" "m_req_uri b2 = m_req_uri ?r"
    by (rule prepare_hop [OF assms(1,2) mf1 _ _ assms(29)]) (use assms(23,24) in simp_all)
  have "snd (handleBye L (scscf_proxy cfg) env2 b1 (router_of s)) = ([Downstream b2 d], None)"
    unfolding assms(14) router_of_with_sessions
    by (rule answered_call_bye [OF assms(3-13) same(1-3) p2])
  then have s2: "Scscf.Sip (Downstream b2 d) \<in> set (fst (snd (scscf_handle L md5 H cfg renv env2 src S_bye b1 s)))"
    by (simp add: scscf_handle_def with_router_def case_prod_beta)
  have h2': "hop L v2 b1 b2" "m_req_uri b2 = m_req_uri bye"
    using hop_cong [OF h2(1) route_headers_keep(1,3) headers_unchanged(2)] h2(2) b1(3) route_headers_keep(2) by simp_all
  have mf2: "maxForwards L b2 = Inr (k - 2)" using h2'(1) same(4) by (simp add: hop_def)
  have ue: "resolveUeDestination L b2 = Some ue"
    using assms(25-27) h2'(2) by (simp add: resolveUeDestination_def requestUri_def Let_def)
  obtain b3 where b3: "Pcscf.Sip (Downstream b3 ue) \<in>
        set (fst (snd (forwardStatefulToUe L pp env3 True b2 (fst (terminateMediaForRequest L pp b2 st3)))))"
      "hop L v3 b2 b3" "m_req_uri b3 = m_req_uri b2"
    by (rule leaves_for_the_terminal [OF assms(1,2) ue mf2 _ _ assms(30)]) (use assms(23,24) in simp_all)
  have "m_vias b3 = v3 # v2 # v1 # m_vias bye" "dialog b3 = dialog bye" "maxForwards L b3 = Inr (k - 3)"
      "m_req_uri b3 = m_req_uri bye"
    using b1(2) h2' b3(2,3) mf2 by (simp_all add: hop_def)
  moreover have "Pcscf.Sip (Downstream b1 (core_entry pp)) \<in> set (fst (snd (onBye L pp env1 bye st1)))"
    "Pcscf.Sip (Downstream b3 ue) \<in> set (fst (snd (onBye L pp env3 b2 st3)))"
    using b1(1) b3(1) assms(18,19) by (simp_all add: onBye_def route_request_def after_actions_def case_prod_beta)
  ultimately show ?thesis using s2 by blast
qed

subsection \<open>An example\<close>

text \<open>Alice is registered behind the P-CSCF at 10.0.0.2 and called by a terminal at 192.0.2.7.\<close>

definition demo_binding :: ContactBinding where
  "demo_binding = \<lparr>contact_uri = ''<sip:alice@10.0.0.1>'', instance_id = [], reg_id = [], path = ''<sip:10.0.0.2>'',
     expires = 100, q_value = 0, user_agent = [], cb_call_id = [], cb_cseq = 0\<rparr>"

definition demo_registered :: "unit scscf" where
  "demo_registered = ScscfService demo_scscf None
     [(''sip:alice@ims.local'', \<lparr>impu = ''sip:alice@ims.local'', impi = ''alice@ims.local'', scscf_uri = [],
        contacts = [demo_binding], reg_state = kRegistered\<rparr>)] ()"

definition demo_core_env :: pcscf_env where
  "demo_core_env = (demo_penv ''b3'')\<lparr>pe_source := core_entry demo_params\<rparr>"

lemma demo_from_the_core: "isCoreFacingRequest demo_params (pe_source demo_core_env)"
  by (simp add: isCoreFacingRequest_def endpoint_matches_def demo_params_def demo_core_env_def core_entry_def
      default_config_def default_core_def udp_if_empty_def Let_def)

lemma demo_registered_store:
  "store_wf (sv_store demo_registered)" "contacts_of (sv_store demo_registered) ''sip:alice@ims.local'' = [demo_binding]"
  by (simp_all add: demo_registered_def ScscfService_def store_wf_def um_wf_def contacts_of_def)

lemma demo_binding_route:
  "contact_route demo_lib demo_binding = Some \<lparr>ep_address = ''10.0.0.2'', ep_port = 5060, ep_transport = ''udp''\<rparr>"
  "extract_uri_from_name_addr (contact_uri demo_binding) = ''sip:alice@10.0.0.1''"
  "parse_endpoint_from_uri demo_lib (requestUri demo_lib (setRequestUri demo_lib ''sip:alice@10.0.0.1'' m)) =
     Some \<lparr>ep_address = ''10.0.0.1'', ep_port = 5060, ep_transport = ''udp''\<rparr>"
proof -
  have e: "parse_endpoint_from_uri demo_lib ''<sip:10.0.0.2>'' = Some \<lparr>ep_address = ''10.0.0.2'', ep_port = 5060, ep_transport = ''udp''\<rparr>"
      "parse_endpoint_from_uri demo_lib ''sip:alice@10.0.0.1'' = Some \<lparr>ep_address = ''10.0.0.1'', ep_port = 5060, ep_transport = ''udp''\<rparr>"
    unfolding parse_endpoint_from_uri_def demo_lib_sel param_gvalue_def by code_simp+
  have u: "demo_uri_parse ''sip:alice@10.0.0.1'' = Some \<lparr>uri_scheme = Some ''sip'', uri_username = Some ''alice'',
      uri_host = Some ''10.0.0.1'', uri_port = None, url_params = [], uri_opaque = []\<rparr>"
    by code_simp
  show "contact_route demo_lib demo_binding = Some \<lparr>ep_address = ''10.0.0.2'', ep_port = 5060, ep_transport = ''udp''\<rparr>"
    using e(1) by (simp add: contact_route_def demo_binding_def usable_def isUsableDestination_def)
  show "extract_uri_from_name_addr (contact_uri demo_binding) = ''sip:alice@10.0.0.1''"
    unfolding demo_binding_def by code_simp
  have "requestUri demo_lib (setRequestUri demo_lib ''sip:alice@10.0.0.1'' m) = ''sip:alice@10.0.0.1''"
    using u by (simp add: requestUri_def setRequestUri_def demo_lib_sel uri_to_string_def demo_uri_to_str_def)
  then show "parse_endpoint_from_uri demo_lib (requestUri demo_lib (setRequestUri demo_lib ''sip:alice@10.0.0.1'' m)) =
     Some \<lparr>ep_address = ''10.0.0.1'', ep_port = 5060, ep_transport = ''udp''\<rparr>"
    using e(2) by simp
qed

lemma demo_via_text:
  "L_via_parse demo_lib s = Some \<lparr>via_protocol = None, via_host = None, via_port = None,
     via_params = [\<lparr>gname = ''branch'', gvalue = Some (demo_via_branch s)\<rparr>], via_opaque = s\<rparr>"
  by (simp add: demo_lib_def)

lemma call_reaches_the_other_terminal_witness:
  "\<exists>m1 m2 m3 r1 r2 r3.
    Pcscf.Sip (Downstream m1 (core_entry demo_params)) \<in>
      set (fst (snd (onInvite demo_lib demo_params (demo_penv ''b1'') demo_call PcscfService))) \<and>
    Scscf.Sip (Downstream m2 \<lparr>ep_address = ''10.0.0.2'', ep_port = 5060, ep_transport = ''udp''\<rparr>) \<in>
      set (fst (snd (scscf_handle demo_lib demo_md5 demo_hss demo_scscf (demo_env 50) demo_renv default_endpoint S_invite m1 demo_registered))) \<and>
    Pcscf.Sip (Downstream m3 \<lparr>ep_address = ''10.0.0.1'', ep_port = 5060, ep_transport = ''udp''\<rparr>) \<in>
      set (fst (snd (onInvite demo_lib demo_params demo_core_env m2 PcscfService))) \<and>
    maxForwards demo_lib m3 = Inr 67 \<and>
    Pcscf.Sip (Upstream r3) \<in> set (snd (pcscf_response demo_lib demo_params (demo_penv ''b1'') True r2 PcscfService)) \<and>
    m_vias r3 = m_vias demo_call \<and> m_status_code r3 = 200"
proof -
  let ?e = "\<lparr>ep_address = ''10.0.0.1'', ep_port = 5060, ep_transport = ''udp''\<rparr>"
  have nl: "\<not> isLoopDetected (pcscf_proxy demo_params) demo_call"
    by (simp add: isLoopDetected_def demo_call_def demo_request_def via_address_def pcscf_proxy_def demo_params_def
        default_config_def pcscf_advertised_address_def)
  have v: "m_vias demo_call = [\<lparr>via_protocol = None, via_host = None, via_port = None,
      via_params = [\<lparr>gname = ''branch'', gvalue = Some ''z9hG4bKa''\<rparr>], via_opaque = ''v1''\<rparr>]"
    by (simp add: demo_call_def demo_request_def)
  have tt: "toTag demo_lib demo_call = []" using demo_call_facts(2) by (simp add: isInDialogRequest_def)
  have cs: "contacts_of (sv_store demo_registered) (normalize_impu_uri demo_lib (requestUri demo_lib demo_call)) = [demo_binding]"
    using demo_registered_store(2) demo_call_facts(1) by simp
  have t: "ro_lookup_now demo_renv < expires demo_binding" "ro_active_now demo_renv < expires demo_binding"
      "ro_resolve_now demo_renv < expires demo_binding"
    by (simp_all add: demo_renv_def demo_binding_def)
  have st: "PcscfService = fst (pcscf_run demo_lib demo_params [] PcscfService)" by simp
  have d: "?e = default_transport ?e" by (simp add: default_transport_def)
  note all = call_reaches_the_other_terminal [OF demo_lib_ok(1) demo_setters_ok demo_lib_ok(2,3)
      demo_from_the_ue [of "''b1''"] demo_from_the_core st nl v tt demo_call_facts(3) _ _ demo_registered_store(1) cs t
      demo_binding_route(1,2) _ demo_binding_route(3) _ d demo_via_text demo_via_text demo_via_text,
      where code = 200 and cfg = demo_scscf and ?md5.0 = demo_md5 and H = demo_hss and renv = "demo_env 50"
        and src = default_endpoint and ?st3.0 = PcscfService and ?st6.0 = PcscfService and ?env6.0 = "demo_penv ''b1''"]
  show ?thesis using all unfolding v by fastforce
qed

text \<open>The call was answered; the callee's terminal sends a BYE that names the caller's contact.\<close>

definition demo_hang_up :: osip_message where
  "demo_hang_up = setRequestUri demo_lib ''sip:alice@10.0.0.1'' Session_Router.demo_bye"

definition demo_caller_side :: Endpoint where
  "demo_caller_side = \<lparr>ep_address = ''10.0.0.2'', ep_port = 5060, ep_transport = ''udp''\<rparr>"

definition demo_invited_router :: router where
  "demo_invited_router =
     fst (handleInvite demo_lib (scscf_proxy demo_scscf) (peer_icscf demo_scscf) demo_renv demo_caller_side demo_call
       (router_of demo_registered))"

definition demo_answered :: "unit scscf" where
  "demo_answered = with_sessions (fst (invite_response demo_lib demo_renv (callId demo_call) (fromTag demo_lib demo_call)
     False Session_Router.demo_ok demo_invited_router)) demo_registered"

lemma demo_router_started: "router_reach demo_lib px peer (router_of demo_registered)"
  "no_session_for c (rt_sessions (router_of demo_registered))"
proof -
  have r: "router_of demo_registered = \<lparr>rt_store = sv_store demo_registered, rt_sessions = []\<rparr>"
    by (simp add: router_of_def demo_registered_def ScscfService_def)
  show "router_reach demo_lib px peer (router_of demo_registered)" unfolding r by (rule router_reach.start)
  show "no_session_for c (rt_sessions (router_of demo_registered))" by (simp add: r no_session_for_def)
qed

lemma demo_hang_up_fields:
  "callId demo_hang_up = callId demo_call" "fromTag demo_lib demo_hang_up = toTag demo_lib Session_Router.demo_ok"
  "toTag demo_lib demo_hang_up = fromTag demo_lib demo_call" "m_vias demo_hang_up = m_vias demo_call"
  "maxForwards demo_lib demo_hang_up = Inr 70"
  "statusCode Session_Router.demo_ok = 200" "toTag demo_lib Session_Router.demo_ok \<noteq> []"
  "toTag demo_lib Session_Router.demo_ok \<noteq> fromTag demo_lib demo_call"
proof -
  have b: "m_headers demo_hang_up = m_headers demo_request"
    by (simp add: demo_hang_up_def Session_Router.demo_bye_def)
  show "maxForwards demo_lib demo_hang_up = Inr 70" using maxForwards_cong [OF b] demo_max_forwards(1) by simp
  show "callId demo_hang_up = callId demo_call" "m_vias demo_hang_up = m_vias demo_call"
    by (simp_all add: demo_hang_up_def Session_Router.demo_bye_def demo_call_def callId_def setRequestUri_def)
  have "fromTag demo_lib demo_call = fromTag demo_lib demo_request" by (simp add: demo_call_def fromTag_def)
  moreover have "fromTag demo_lib demo_hang_up = fromTag demo_lib Session_Router.demo_bye"
    "toTag demo_lib demo_hang_up = toTag demo_lib Session_Router.demo_bye"
    by (simp_all add: demo_hang_up_def setRequestUri_def fromTag_def toTag_def)
  ultimately show "fromTag demo_lib demo_hang_up = toTag demo_lib Session_Router.demo_ok"
    "toTag demo_lib demo_hang_up = fromTag demo_lib demo_call"
    "statusCode Session_Router.demo_ok = 200" "toTag demo_lib Session_Router.demo_ok \<noteq> []"
    "toTag demo_lib Session_Router.demo_ok \<noteq> fromTag demo_lib demo_call"
    by (simp_all add: demo_tags)
qed

lemma hang_up_reaches_the_caller_witness:
  "\<exists>b1 b2 b3.
    Pcscf.Sip (Downstream b1 (core_entry demo_params)) \<in>
      set (fst (snd (onBye demo_lib demo_params (demo_penv ''b1'') demo_hang_up PcscfService))) \<and>
    Scscf.Sip (Downstream b2 demo_caller_side) \<in>
      set (fst (snd (scscf_handle demo_lib demo_md5 demo_hss demo_scscf (demo_env 50) demo_renv default_endpoint S_bye b1 demo_answered))) \<and>
    Pcscf.Sip (Downstream b3 \<lparr>ep_address = ''10.0.0.1'', ep_port = 5060, ep_transport = ''udp''\<rparr>) \<in>
      set (fst (snd (onBye demo_lib demo_params demo_core_env b2 PcscfService))) \<and>
    maxForwards demo_lib b3 = Inr 67"
proof -
  let ?e = "\<lparr>ep_address = ''10.0.0.1'', ep_port = 5060, ep_transport = ''udp''\<rparr>"
  let ?px = "scscf_proxy demo_scscf" and ?peer = "peer_icscf demo_scscf"
  let ?h = "handleInvite demo_lib ?px ?peer demo_renv demo_caller_side demo_call (router_of demo_registered)"
  have t: "ro_lookup_now demo_renv < expires demo_binding" "ro_active_now demo_renv < expires demo_binding"
      "ro_resolve_now demo_renv < expires demo_binding"
    by (simp_all add: demo_renv_def demo_binding_def)
  have st: "rt_store (router_of demo_registered) = sv_store demo_registered" by (simp add: router_of_def)
  obtain fwd where fwd: "Downstream fwd \<lparr>ep_address = ''10.0.0.2'', ep_port = 5060, ep_transport = ''udp''\<rparr> \<in> set (fst (snd ?h))"
    using invite_reaches_contact [OF demo_lib_ok(2) _ _ demo_call_facts(2,1) t demo_binding_route(1) demo_call_facts(3),
        where px = ?px and peer = ?peer and rt = "router_of demo_registered" and src = demo_caller_side]
      demo_registered_store by (auto simp: st)
  have h: "?h = (demo_invited_router, fst (snd ?h), snd (snd ?h))" by (simp add: demo_invited_router_def)
  have nl: "\<not> isLoopDetected (pcscf_proxy demo_params) demo_hang_up"
    by (simp add: isLoopDetected_def demo_hang_up_fields demo_call_def demo_request_def via_address_def pcscf_proxy_def
        demo_params_def default_config_def pcscf_advertised_address_def)
  have u: "parse_endpoint_from_uri demo_lib (requestUri demo_lib demo_hang_up) = Some ?e"
    unfolding demo_hang_up_def by (rule demo_binding_route(3))
  have st1: "PcscfService = fst (pcscf_run demo_lib demo_params [] PcscfService)" by simp
  have d: "?e = default_transport ?e" by (simp add: default_transport_def)
  have ttl: "ro_now demo_renv - ro_now demo_renv < kInviteSessionTtl" by (simp add: kInviteSessionTtl_def)
  note all = hang_up_reaches_the_caller [OF demo_lib_ok(1) demo_setters_ok demo_lib_ok(2) demo_router_started
      demo_call_facts(2) h fwd _ _ demo_hang_up_fields(7,8) ttl demo_answered_def demo_hang_up_fields(1-3)
      demo_from_the_ue [of "''b1''"] demo_from_the_core st1 nl demo_hang_up_fields(5) _ _ u _ d demo_via_text demo_via_text demo_via_text,
      where ?md5.0 = demo_md5 and H = demo_hss and renv = "demo_env 50" and src = default_endpoint
        and ?st3.0 = PcscfService and ?env2.0 = demo_renv]
  show ?thesis using all demo_hang_up_fields(6) by fastforce
qed

end
