(* ===== verification/Icscf.thy ===== *)
theory Icscf
  imports Sip_Stack Hss_Clients Config
begin

section \<open>The I-CSCF (i-cscf/icscf_service.cpp, i-cscf/scscf_selector.cpp)\<close>

text \<open>
  Finds the S-CSCF of a user at the HSS and passes the request on.  The service keeps no state of
  its own: what a handler changes is the state of the HSS, behind the interface record \<open>hss\<close> whose
  contract is the locale \<^verbatim>\<open>hss_client\<close>.
\<close>

record icscf_env =
  ie_original :: osip_message
  ie_tag :: string
  ie_branch :: string
  ie_send :: "osip_message \<Rightarrow> unit result"
  ie_transport :: transport

type_synonym 'h icscf_outcome = "'h \<times> action list \<times> std_exception option"

definition icscf_advertised_address :: "IcscfConfig \<Rightarrow> string" where
  "icscf_advertised_address cfg =
     (if ic_advertised_addr cfg \<noteq> [] then ic_advertised_addr cfg
      else if ic_listen_addr cfg \<noteq> [] \<and> ic_listen_addr cfg \<noteq> ''0.0.0.0'' then ic_listen_addr cfg
      else ''127.0.0.1'')"

definition icscf_proxy :: "IcscfConfig \<Rightarrow> proxy" where
  "icscf_proxy cfg = \<lparr>local_address = icscf_advertised_address cfg, local_port = ic_listen_port cfg\<rparr>"

subsection \<open>The selector\<close>

definition selectForRegistration ::
  "'h hss \<Rightarrow> string \<Rightarrow> string \<Rightarrow> string \<Rightarrow> 'h \<Rightarrow> 'h \<times> string result" where
  "selectForRegistration H impi impu visited_network h =
     (let (h', r) = H_uar H \<lparr>uar_impi = impi, uar_impu = impu, uar_visited_network = visited_network,
                             uar_auth_type = UAR_kRegistration\<rparr> h
      in (h', case r of
                Inl e \<Rightarrow> Inl e
              | Inr a \<Rightarrow>
                  if uaa_assigned_scscf a = []
                  then Inl (mk_error kDiameterAuthFailed
                              ''No S-CSCF assigned and capability selection not implemented'' [])
                  else Inr (uaa_assigned_scscf a)))"

definition selectForRouting :: "'h hss \<Rightarrow> string \<Rightarrow> 'h \<Rightarrow> 'h \<times> string result" where
  "selectForRouting H impu h =
     (let (h', r) = H_lir H \<lparr>lir_impu = impu, lir_originating = False\<rparr> h
      in (h', case r of
                Inl e \<Rightarrow> Inl e
              | Inr a \<Rightarrow>
                  if lia_assigned_scscf a = []
                  then Inl (mk_error kDiameterUserNotFound (''No serving S-CSCF found for '' @ impu) [])
                  else Inr (lia_assigned_scscf a)))"

subsection \<open>The handlers\<close>

definition icscf_options :: "bool \<Rightarrow> ForwardOptions" where
  "icscf_options add_record_route =
     \<lparr>fo_add_record_route = add_record_route, fo_process_route_headers = True, fo_detect_loop = True,
      fo_on_response = None\<rparr>"

definition icscf_forwardStateful ::
  "osip_lib \<Rightarrow> IcscfConfig \<Rightarrow> icscf_env \<Rightarrow> bool \<Rightarrow> osip_message \<Rightarrow> Endpoint \<Rightarrow> action list \<times> std_exception option" where
  "icscf_forwardStateful L cfg env add_record_route request dest =
     (case forwardStateful L (icscf_proxy cfg) (ie_tag env) (ie_branch env) (ie_original env) (ie_send env)
             (icscf_options add_record_route) request dest of
        Inl ex \<Rightarrow> ([], Some ex)
      | Inr (acts, r) \<Rightarrow> (acts, None))"

text \<open>What follows the choice of an S-CSCF, with the status and reason of the answer when there is none.\<close>

definition forward_to_scscf ::
  "osip_lib \<Rightarrow> IcscfConfig \<Rightarrow> icscf_env \<Rightarrow> int \<times> string \<Rightarrow> osip_message \<Rightarrow> string result \<Rightarrow>
     action list \<times> std_exception option" where
  "forward_to_scscf L cfg env on_failure request scscf_result =
     (case scscf_result of
        Inl e \<Rightarrow> (upstream_error L (ie_tag env) request (fst on_failure) (snd on_failure), None)
      | Inr uri \<Rightarrow>
          (case parse_endpoint_from_uri L uri of
             None \<Rightarrow> (upstream_error L (ie_tag env) request 500 ''Internal Server Error'', None)
           | Some endpoint \<Rightarrow> icscf_forwardStateful L cfg env False request endpoint))"

definition icscf_onRegister ::
  "osip_lib \<Rightarrow> 'h hss \<Rightarrow> IcscfConfig \<Rightarrow> icscf_env \<Rightarrow> osip_message \<Rightarrow> 'h \<Rightarrow> 'h icscf_outcome" where
  "icscf_onRegister L H cfg env request h =
     (let impu = or_empty (impu_from_to L request);
          impi = or_empty (impi_from_authorization_or_from L request);
          (h', r) = selectForRegistration H impi impu (hs_realm (ic_hss cfg)) h
      in (h', forward_to_scscf L cfg env (500, ''Internal Server Error'') request r))"

definition icscf_onInvite ::
  "osip_lib \<Rightarrow> 'h hss \<Rightarrow> IcscfConfig \<Rightarrow> icscf_env \<Rightarrow> osip_message \<Rightarrow> 'h \<Rightarrow> 'h icscf_outcome" where
  "icscf_onInvite L H cfg env request h =
     (let (h', r) = selectForRouting H (normalize_impu_uri L (requestUri L request)) h
      in (h', forward_to_scscf L cfg env (404, ''Not Found'') request r))"

definition icscf_onSubscribe ::
  "osip_lib \<Rightarrow> 'h hss \<Rightarrow> IcscfConfig \<Rightarrow> icscf_env \<Rightarrow> osip_message \<Rightarrow> 'h \<Rightarrow> 'h icscf_outcome" where
  "icscf_onSubscribe L H cfg env request h =
     (let (h', r) = selectForRouting H (normalize_impu_uri L (requestUri L request)) h
      in (h', forward_to_scscf L cfg env (404, ''Not Found'') request r))"

definition localScscfEndpoint :: "IcscfConfig \<Rightarrow> Endpoint" where
  "localScscfEndpoint cfg =
     (let s = ic_local_scscf cfg in
      \<lparr>ep_address = (if se_address s = [] \<or> se_address s = ''0.0.0.0'' then ''127.0.0.1'' else se_address s),
       ep_port = se_port s,
       ep_transport = (if se_transport s = [] then ''udp'' else se_transport s)\<rparr>)"

definition icscf_onAck ::
  "osip_lib \<Rightarrow> IcscfConfig \<Rightarrow> icscf_env \<Rightarrow> osip_message \<Rightarrow> 'h \<Rightarrow> 'h icscf_outcome" where
  "icscf_onAck L cfg env request h =
     (case forwardRequest L (icscf_proxy cfg) (ie_branch env) (fst (processRouteHeaders L (icscf_proxy cfg) request))
             (localScscfEndpoint cfg) (ie_transport env) of
        Inl ex \<Rightarrow> (h, [], Some ex)
      | Inr (_, acts, r) \<Rightarrow> (h, acts, None))"

definition onInDialogStateful ::
  "osip_lib \<Rightarrow> IcscfConfig \<Rightarrow> icscf_env \<Rightarrow> osip_message \<Rightarrow> 'h \<Rightarrow> 'h icscf_outcome" where
  "onInDialogStateful L cfg env request h =
     (h, icscf_forwardStateful L cfg env False (fst (processRouteHeaders L (icscf_proxy cfg) request))
           (localScscfEndpoint cfg))"

datatype icscf_handler = Icscf_register | Icscf_invite | Icscf_ack | Icscf_in_dialog | Icscf_subscribe

definition icscf_stack :: "icscf_handler sip_stack" where
  "icscf_stack =
     onRequest ''SUBSCRIBE'' Icscf_subscribe (onRequest ''PRACK'' Icscf_in_dialog
       (onRequest ''CANCEL'' Icscf_in_dialog (onRequest ''BYE'' Icscf_in_dialog (onRequest ''ACK'' Icscf_ack
         (onRequest ''INVITE'' Icscf_invite (onRequest ''REGISTER'' Icscf_register SipStack))))))"

definition icscf_handle ::
  "osip_lib \<Rightarrow> 'h hss \<Rightarrow> IcscfConfig \<Rightarrow> icscf_env \<Rightarrow> icscf_handler \<Rightarrow> osip_message \<Rightarrow> 'h \<Rightarrow> 'h icscf_outcome" where
  "icscf_handle L H cfg env handler request h =
     (case handler of
        Icscf_register \<Rightarrow> icscf_onRegister L H cfg env request h
      | Icscf_invite \<Rightarrow> icscf_onInvite L H cfg env request h
      | Icscf_ack \<Rightarrow> icscf_onAck L cfg env request h
      | Icscf_in_dialog \<Rightarrow> onInDialogStateful L cfg env request h
      | Icscf_subscribe \<Rightarrow> icscf_onSubscribe L H cfg env request h)"

subsection \<open>Properties\<close>

lemma icscf_forwarded:
  "Downstream m d \<in> set (fst (icscf_forwardStateful L cfg env rr request dest)) \<Longrightarrow> d = dest"
  by (auto simp: icscf_forwardStateful_def elim: forwardStateful_prepared split: sum.splits prod.splits)

text \<open>Initial requests go to the S-CSCF the HSS names and nowhere else.\<close>

lemma forwarded_to_scscf:
  assumes "Downstream m d \<in> set (fst (forward_to_scscf L cfg env on_failure request r))"
  shows "\<exists>uri. r = Inr uri \<and> parse_endpoint_from_uri L uri = Some d"
proof (cases r)
  case (Inr uri)
  with assms show ?thesis
    by (auto simp: forward_to_scscf_def upstream_error_no_downstream dest: icscf_forwarded split: option.splits)
qed (use assms in \<open>simp add: forward_to_scscf_def upstream_error_no_downstream\<close>)

text \<open>A request with hops left that is not a loop is passed on to the destination.\<close>

lemma icscf_forwards:
  assumes "maxForwards L request = Inr k" and "0 < k" and "\<not> isLoopDetected (icscf_proxy cfg) request"
  shows "\<exists>m. Downstream m dest \<in> set (fst (icscf_forwardStateful L cfg env False request dest))"
proof -
  let ?px = "icscf_proxy cfg" and ?r = "fst (processRouteHeaders L (icscf_proxy cfg) request)"
  have "maxForwards L ?r = Inr k" using maxForwards_cong [OF headers_unchanged(2)] assms(1) by metis
  then obtain m where p: "prepareRequestForForward L ?px (ie_branch env) (ep_transport dest) ?r = Inr (m, Inr ())"
    using prepare_with_hops assms(2) by blast
  obtain acts r where "forwardStateful L ?px (ie_tag env) (ie_branch env) (ie_original env) (ie_send env)
      (icscf_options False) request dest = Inr (acts, r)" "Downstream m dest \<in> set acts"
    using forward_prepared [of "icscf_options False" ?px request L "ie_branch env" dest m
        "ie_tag env" "ie_original env" "ie_send env" thesis] p assms(3)
    by (simp add: icscf_options_def)
  then show ?thesis by (auto simp: icscf_forwardStateful_def)
qed

text \<open>C39: A re-INVITE is refused where a BYE passes: when the HSS does not know the Request-URI (inside a
  dialog it is the contact of a terminal), an INVITE is answered 404 and goes nowhere, with or without a
  To tag, while a BYE, PRACK or CANCEL of the same dialog, with hops left and no loop, is sent to the local
  S-CSCF, and to no other place, without any lookup.\<close>

theorem reinvite_is_refused_where_bye_passes:
  assumes "snd (H_lir H \<lparr>lir_impu = normalize_impu_uri L (requestUri L request), lir_originating = False\<rparr> h) = Inl e"
    and "maxForwards L request = Inr k" and "0 < k" and "\<not> isLoopDetected (icscf_proxy cfg) request"
  shows "fst (snd (icscf_handle L H cfg env Icscf_invite request h)) =
      upstream_error L (ie_tag env) request 404 ''Not Found'' \<and>
    fst (icscf_handle L H cfg env Icscf_in_dialog request h) = h \<and>
    {d. \<exists>m. Downstream m d \<in> set (fst (snd (icscf_handle L H cfg env Icscf_in_dialog request h)))} =
      {localScscfEndpoint cfg}"
proof (intro conjI)
  obtain h' where "H_lir H \<lparr>lir_impu = normalize_impu_uri L (requestUri L request), lir_originating = False\<rparr> h = (h', Inl e)"
    using assms(1) by (metis prod.collapse)
  then show "fst (snd (icscf_handle L H cfg env Icscf_invite request h)) =
      upstream_error L (ie_tag env) request 404 ''Not Found''"
    by (simp add: icscf_handle_def icscf_onInvite_def selectForRouting_def forward_to_scscf_def)
  show "fst (icscf_handle L H cfg env Icscf_in_dialog request h) = h"
    by (simp add: icscf_handle_def onInDialogStateful_def)
  let ?r = "fst (processRouteHeaders L (icscf_proxy cfg) request)"
  have "maxForwards L ?r = Inr k" using maxForwards_cong [OF headers_unchanged(2)] assms(2) by metis
  moreover have "m_vias ?r = m_vias request"
    by (auto simp: processRouteHeaders_def removeTopRoute_def split: list.split)
  with assms(4) have "\<not> isLoopDetected (icscf_proxy cfg) ?r" by (simp add: isLoopDetected_def)
  ultimately have "\<exists>m. Downstream m (localScscfEndpoint cfg) \<in>
      set (fst (snd (icscf_handle L H cfg env Icscf_in_dialog request h)))"
    using icscf_forwards [OF _ assms(3), of L ?r cfg "localScscfEndpoint cfg" env]
    by (simp add: icscf_handle_def onInDialogStateful_def)
  then show "{d. \<exists>m. Downstream m d \<in> set (fst (snd (icscf_handle L H cfg env Icscf_in_dialog request h)))} =
      {localScscfEndpoint cfg}"
    using icscf_forwarded by (fastforce simp: icscf_handle_def onInDialogStateful_def)
qed

definition demo_ienv :: icscf_env where
  "demo_ienv = \<lparr>ie_original = demo_request, ie_tag = ''t'', ie_branch = ''b'', ie_send = (\<lambda>m. Inr ()),
     ie_transport = (\<lambda>m d. Inr ())\<rparr>"

text \<open>The stub of the HSS without subscribers.\<close>

definition demo_empty_hss :: "unit hss" where
  "demo_empty_hss = stub_hss demo_lib (\<lambda>g. ([], g))
     \<lparr>ha_type = ''stub'', ha_diameter_host = [], ha_diameter_port = 0, ha_diameter_realm = [], ha_nudm_url = [],
      ha_subscribers = [], ha_mongo_uri = [], ha_mongo_db = [], ha_mongo_collection = [], ha_default_scscf_uri = []\<rparr>"

lemma demo_no_loop: "\<not> isLoopDetected (icscf_proxy (cfg_icscf default_config)) demo_request"
  by (simp add: isLoopDetected_def icscf_proxy_def icscf_advertised_address_def default_config_def demo_request_def
      via_address_def show_port_def)

lemma reinvite_is_refused_where_bye_passes_witness:
  "fst (snd (icscf_handle demo_lib demo_empty_hss (cfg_icscf default_config) demo_ienv Icscf_invite demo_request ())) =
     upstream_error demo_lib ''t'' demo_request 404 ''Not Found'' \<and>
   (\<exists>m. Downstream m (localScscfEndpoint (cfg_icscf default_config)) \<in>
     set (fst (snd (icscf_handle demo_lib demo_empty_hss (cfg_icscf default_config) demo_ienv Icscf_in_dialog demo_request ()))))"
proof -
  let ?p = "\<lparr>lir_impu = normalize_impu_uri demo_lib (requestUri demo_lib demo_request), lir_originating = False\<rparr>"
  obtain e where "snd (H_lir demo_empty_hss ?p ()) = Inl e"
    by (simp add: demo_empty_hss_def stub_hss_def stub_init_def stub_locationInfo_def
        findSubscriberByPublicIdentity_def Let_def)
  from reinvite_is_refused_where_bye_passes [where env = demo_ienv, OF this demo_max_forwards(1) _ demo_no_loop]
  show ?thesis by (auto simp: demo_ienv_def)
qed

end
