(* ===== verification/Mongo_Client.thy ===== *)
theory Mongo_Client
  imports Hss_Clients
begin

section \<open>The MongoDB driver and its clients (db/mongo_client.cpp)\<close>

text \<open>
  A client of the database owns a pool of connections of the driver, and the clients share the
  initialisation of the driver by a count of references.  The driver is not part of the repository:
  an operation returns the calls it makes of it, in order, and what the driver answers is an argument.
  A pool is named by a number, as a pointer is.
\<close>

datatype driver_call =
    Mongoc_init | Mongoc_cleanup
  | Uri_new string | Uri_destroy
  | Pool_new | Pool_destroy nat
  | Pool_pop nat | Pool_push nat
  | Ping string

record mongo_client =
  mc_pool :: nat
  mc_db_name :: string
  mc_collection_name :: string

text \<open>The answers during the creation of a client: whether the URI parses, the pool, and the message of
  a failed ping.\<close>

record create_env =
  ce_uri_parses :: bool
  ce_pool :: "nat option"
  ce_ping_error :: "string option"

text \<open>\<^verbatim>\<open>lifecycle_ref_count_\<close> is a \<^verbatim>\<open>size_t\<close>.\<close>

definition acquire_driver_lifecycle :: "64 word \<Rightarrow> 64 word \<times> driver_call list" where
  "acquire_driver_lifecycle refs = (refs + 1, if refs = 0 then [Mongoc_init] else [])"

definition release_driver_lifecycle :: "64 word \<Rightarrow> 64 word \<times> driver_call list" where
  "release_driver_lifecycle refs =
     (if refs = 0 then (refs, []) else (refs - 1, if refs - 1 = 0 then [Mongoc_cleanup] else []))"

definition released :: "64 word \<Rightarrow> driver_call list \<Rightarrow> ErrorInfo \<Rightarrow> 64 word \<times> driver_call list \<times> mongo_client result" where
  "released refs calls e = (let (refs', down) = release_driver_lifecycle refs in (refs', calls @ down, Inl e))"

definition client_create ::
  "HssAdapterConfig \<Rightarrow> create_env \<Rightarrow> 64 word \<Rightarrow> 64 word \<times> driver_call list \<times> mongo_client result" where
  "client_create config env refs0 =
     (if ha_mongo_uri config = [] \<or> ha_mongo_db config = [] \<or> ha_mongo_collection config = []
      then (refs0, [], Inl (mk_error kConfigInvalidValue ''Mongo config must not be empty''
                              ''mongo_uri/mongo_db/mongo_collection''))
      else
        (let (refs, up) = acquire_driver_lifecycle refs0; uri = ha_mongo_uri config in
         if \<not> ce_uri_parses env
         then released refs (up @ [Uri_new uri]) (mk_error kInternalError ''Failed to parse Mongo URI'' uri)
         else
           (case ce_pool env of
              None \<Rightarrow> released refs (up @ [Uri_new uri, Pool_new, Uri_destroy])
                        (mk_error kInternalError ''Failed to create Mongo client pool'' uri)
            | Some p \<Rightarrow>
                (let calls = up @ [Uri_new uri, Pool_new, Uri_destroy, Pool_pop p, Ping (ha_mongo_db config), Pool_push p] in
                 case ce_ping_error env of
                   Some message \<Rightarrow> released refs (calls @ [Pool_destroy p])
                                     (mk_error kInternalError ''Failed to connect Mongo server'' message)
                 | None \<Rightarrow> (refs, calls,
                             Inr \<lparr>mc_pool = p, mc_db_name = ha_mongo_db config,
                                  mc_collection_name = ha_mongo_collection config\<rparr>)))))"

definition client_destroy :: "mongo_client \<Rightarrow> 64 word \<Rightarrow> 64 word \<times> driver_call list" where
  "client_destroy c refs = (let (refs', down) = release_driver_lifecycle refs in (refs', Pool_destroy (mc_pool c) # down))"

text \<open>A guard takes a connection from the pool and gives it back at the end of its block, unless the
  pool had none to give.\<close>

definition guarded :: "mongo_client \<Rightarrow> bool \<Rightarrow> driver_call list" where
  "guarded c got = Pool_pop (mc_pool c) # (if got then [Pool_push (mc_pool c)] else [])"

subsection \<open>The clients of a process\<close>

record mongo =
  mg_refs :: "64 word"
  mg_clients :: "mongo_client list"
  mg_calls :: "driver_call list"

datatype mongo_op =
    Create HssAdapterConfig create_env
  | Drop nat
  | Use nat bool

definition mongo_idle :: mongo where
  "mongo_idle = \<lparr>mg_refs = 0, mg_clients = [], mg_calls = []\<rparr>"

text \<open>A client that does not exist cannot be dropped or used.\<close>

fun mongo_step :: "mongo_op \<Rightarrow> mongo \<Rightarrow> mongo" where
  "mongo_step (Create config env) g =
     (case client_create config env (mg_refs g) of
        (refs, calls, r) \<Rightarrow>
          \<lparr>mg_refs = refs, mg_clients = (case r of Inl e \<Rightarrow> mg_clients g | Inr c \<Rightarrow> mg_clients g @ [c]),
           mg_calls = mg_calls g @ calls\<rparr>)"
| "mongo_step (Drop i) g =
     (if length (mg_clients g) \<le> i then g
      else
        (let (refs, calls) = client_destroy (mg_clients g ! i) (mg_refs g) in
         \<lparr>mg_refs = refs, mg_clients = take i (mg_clients g) @ drop (Suc i) (mg_clients g),
          mg_calls = mg_calls g @ calls\<rparr>))"
| "mongo_step (Use i got) g =
     (if length (mg_clients g) \<le> i then g
      else g\<lparr>mg_calls := mg_calls g @ guarded (mg_clients g ! i) got\<rparr>)"

definition mongo_run :: "mongo_op list \<Rightarrow> mongo \<Rightarrow> mongo" where
  "mongo_run ops g = fold mongo_step ops g"

subsection \<open>Order of the calls\<close>

text \<open>Whether the driver is up after some calls, and whether each of them comes when it may: the driver
  is initialised when it is down, and everything else happens while it is up.\<close>

fun up_after :: "bool \<Rightarrow> driver_call list \<Rightarrow> bool" where
  "up_after up [] = up"
| "up_after up (Mongoc_init # cs) = up_after True cs"
| "up_after up (Mongoc_cleanup # cs) = up_after False cs"
| "up_after up (c # cs) = up_after up cs"

fun calls_in_order :: "bool \<Rightarrow> driver_call list \<Rightarrow> bool" where
  "calls_in_order up [] = True"
| "calls_in_order up (Mongoc_init # cs) = (\<not> up \<and> calls_in_order True cs)"
| "calls_in_order up (Mongoc_cleanup # cs) = (up \<and> calls_in_order False cs)"
| "calls_in_order up (c # cs) = (up \<and> calls_in_order up cs)"

lemma up_after_append [simp]: "up_after up (cs @ ds) = up_after (up_after up cs) ds"
  by (induction up cs rule: up_after.induct) simp_all

lemma calls_in_order_append [simp]:
  "calls_in_order up (cs @ ds) \<longleftrightarrow> calls_in_order up cs \<and> calls_in_order (up_after up cs) ds"
  by (induction up cs rule: calls_in_order.induct) simp_all

text \<open>The count is the number of clients, and the driver is up exactly while there are some.\<close>

definition mongo_in_order :: "mongo \<Rightarrow> bool" where
  "mongo_in_order g \<longleftrightarrow>
     mg_refs g = of_nat (length (mg_clients g)) \<and> calls_in_order False (mg_calls g) \<and>
     (up_after False (mg_calls g) \<longleftrightarrow> mg_clients g \<noteq> [])"

lemma refs_zero_iff:
  assumes "n < 2 ^ 64" shows "(of_nat n :: 64 word) = 0 \<longleftrightarrow> n = 0"
proof
  assume "(of_nat n :: 64 word) = 0"
  then have "2 ^ LENGTH(64) dvd n" by (simp only: word_of_nat_eq_0_iff)
  with assms show "n = 0" using dvd_imp_le [of "2 ^ 64" n] by fastforce
qed simp

lemma acquire_refs:
  "n < 2 ^ 64 \<Longrightarrow>
   acquire_driver_lifecycle (of_nat n) = (of_nat (Suc n), if n = 0 then [Mongoc_init] else [])"
  by (simp add: acquire_driver_lifecycle_def refs_zero_iff)

lemma release_refs:
  assumes "Suc n < 2 ^ 64"
  shows "release_driver_lifecycle (of_nat (Suc n)) = (of_nat n, if n = 0 then [Mongoc_cleanup] else [])"
proof -
  have "(of_nat (Suc n) :: 64 word) \<noteq> 0" "(of_nat n = (0 :: 64 word)) = (n = 0)"
    using assms refs_zero_iff [of n] refs_zero_iff [of "Suc n"] by simp_all
  moreover have "of_nat (Suc n) - 1 = (of_nat n :: 64 word)" by simp
  ultimately show ?thesis unfolding release_driver_lifecycle_def by presburger
qed

lemma create_in_order:
  assumes "Suc n < 2 ^ 64" and "client_create config env (of_nat n) = (refs, calls, r)"
  shows "refs = of_nat (if r = Inl (projl r) then n else Suc n) \<and> calls_in_order (n \<noteq> 0) calls \<and>
    (up_after (n \<noteq> 0) calls \<longleftrightarrow> r \<noteq> Inl (projl r) \<or> n \<noteq> 0)"
  using assms(2) release_refs [OF assms(1)]
  by (auto simp: client_create_def released_def acquire_refs [OF Suc_lessD [OF assms(1)]] Let_def
      simp del: of_nat_Suc split: if_splits option.splits)

lemma mongo_step_in_order:
  assumes "mongo_in_order g" and "Suc (length (mg_clients g)) < 2 ^ 64"
  shows "mongo_in_order (mongo_step op g)"
proof (cases op)
  case (Create config env)
  obtain refs calls r where c: "client_create config env (mg_refs g) = (refs, calls, r)" by (cases "client_create config env (mg_refs g)")
  then have "client_create config env (of_nat (length (mg_clients g))) = (refs, calls, r)"
    using assms(1) by (simp add: mongo_in_order_def)
  from create_in_order [OF assms(2) this] assms(1) c show ?thesis
    by (cases r) (auto simp: Create mongo_in_order_def simp del: of_nat_Suc)
next
  case (Drop i)
  show ?thesis
  proof (cases "length (mg_clients g) \<le> i")
    case False
    then obtain n where n: "length (mg_clients g) = Suc n" by (cases "length (mg_clients g)") auto
    with assms have r: "release_driver_lifecycle (mg_refs g) = (of_nat n, if n = 0 then [Mongoc_cleanup] else [])"
      using release_refs [of n] by (simp add: mongo_in_order_def del: of_nat_Suc)
    have "length (take i (mg_clients g) @ drop (Suc i) (mg_clients g)) = n" using False n by simp
    then show ?thesis using assms(1) False r n
      by (auto simp: Drop mongo_in_order_def client_destroy_def Let_def simp del: of_nat_Suc)
  qed (use assms in \<open>simp add: Drop\<close>)
next
  case (Use i got)
  with assms show ?thesis by (auto simp: mongo_in_order_def guarded_def)
qed

lemma mongo_step_clients: "length (mg_clients (mongo_step op g)) \<le> Suc (length (mg_clients g))"
  by (cases op) (auto simp: Let_def split: prod.split sum.split)

lemma mongo_run_in_order:
  "mongo_in_order g \<Longrightarrow> length (mg_clients g) + length ops < 2 ^ 64 \<Longrightarrow> mongo_in_order (mongo_run ops g)"
proof (induction ops arbitrary: g)
  case (Cons op ops)
  have "length (mg_clients (mongo_step op g)) + length ops < 2 ^ 64"
    using Cons.prems(2) mongo_step_clients [of op g] by simp
  moreover have "Suc (length (mg_clients g)) < 2 ^ 64" using Cons.prems(2) by simp
  ultimately show ?case using Cons mongo_step_in_order [of g op] by (auto simp: mongo_run_def)
qed (simp add: mongo_run_def)

subsection \<open>Properties\<close>

text \<open>In every sequence of creations, uses and destructions of clients the count of references is the
  number of clients, the driver is initialised before it is used and cleaned up with the last client,
  and no pool is used or destroyed after that; failed creations give back what they took.\<close>

theorem driver_is_up_while_clients_live:
  assumes "length ops < 2 ^ 64" shows "mongo_in_order (mongo_run ops mongo_idle)"
  using assms mongo_run_in_order [of mongo_idle ops] by (simp add: mongo_idle_def mongo_in_order_def)

definition demo_mongo_config :: HssAdapterConfig where
  "demo_mongo_config =
     \<lparr>ha_type = ''mongo'', ha_diameter_host = [], ha_diameter_port = 0, ha_diameter_realm = [], ha_nudm_url = [],
      ha_subscribers = [], ha_mongo_uri = ''mongodb://h'', ha_mongo_db = ''ims'', ha_mongo_collection = ''subs'',
      ha_default_scscf_uri = []\<rparr>"

definition demo_create :: "string option \<Rightarrow> nat \<Rightarrow> mongo_op" where
  "demo_create ping p = Create demo_mongo_config \<lparr>ce_uri_parses = True, ce_pool = Some p, ce_ping_error = ping\<rparr>"

lemma driver_is_up_while_clients_live_witness:
  "mongo_in_order (mongo_run [demo_create None 1, demo_create (Some ''refused'') 2, Use 0 True, Drop 0] mongo_idle)"
  by (rule driver_is_up_while_clients_live) simp

text \<open>When the last client has gone the driver is cleaned up, and a client created later initialises it
  again, which the driver does not support.\<close>

lemma driver_is_initialised_again:
  "filter (\<lambda>c. c \<in> {Mongoc_init, Mongoc_cleanup})
     (mg_calls (mongo_run [demo_create (Some ''refused'') 1, demo_create None 2] mongo_idle)) =
   [Mongoc_init, Mongoc_cleanup, Mongoc_init]"
  by (simp add: mongo_run_def mongo_idle_def demo_create_def client_create_def demo_mongo_config_def released_def
      acquire_driver_lifecycle_def release_driver_lifecycle_def)

end
