(* ===== verification/Io_Context.thy ===== *)
theory Io_Context
  imports Cpp_Std
begin

section \<open>The thread pool (common/io_context.cpp)\<close>

text \<open>
  The main thread starts the workers and waits for \<^verbatim>\<open>stop\<close>; each worker runs the event
  loop; \<^verbatim>\<open>stop\<close> is called by a worker (the handler of a signal), by another thread, or by the
  destructor.  The state is the fields of the object, the point the main thread has reached in
  \<^verbatim>\<open>run\<close>, the threads and the calls of \<^verbatim>\<open>stop\<close> that still wait for
  threads to end.  Each critical section, and each start of a thread, is one step.  Of the event loop
  itself only this is used: a worker leaves it only after it was stopped or the work guard was reset.
\<close>

datatype main_pc = Not_run | Spawning nat | Waiting | Returned

record io_pool =
  io_thread_count :: "32 word"
  io_work_guard :: bool
  io_loop_stopped :: bool
  io_running :: bool
  io_workers :: "nat list"
  io_main :: main_pc
  io_alive :: "nat set"
  io_spawned :: nat
  io_joining :: "(nat option \<times> nat list) list"

definition IoContext :: "32 word \<Rightarrow> io_pool" where
  "IoContext thread_count =
     \<lparr>io_thread_count = max 1 thread_count, io_work_guard = True, io_loop_stopped = False, io_running = False,
      io_workers = [], io_main = Not_run, io_alive = {}, io_spawned = 0, io_joining = []\<rparr>"

subsection \<open>\<^verbatim>\<open>run\<close>\<close>

definition run_begin :: "io_pool \<Rightarrow> io_pool" where
  "run_begin p = p\<lparr>io_running := True, io_main := Spawning 0\<rparr>"

text \<open>A thread is named by the number of threads started before it.\<close>

definition run_spawn :: "nat \<Rightarrow> io_pool \<Rightarrow> io_pool" where
  "run_spawn i p =
     p\<lparr>io_workers := io_workers p @ [io_spawned p], io_alive := insert (io_spawned p) (io_alive p),
       io_spawned := Suc (io_spawned p), io_main := Spawning (Suc i)\<rparr>"

definition wait_over :: "io_pool \<Rightarrow> bool" where
  "wait_over p \<longleftrightarrow> \<not> io_running p"

subsection \<open>\<^verbatim>\<open>stop\<close>\<close>

text \<open>The workers move to a local vector; the calling thread is detached, the destructor of the vector
  joins the others.\<close>

definition io_stop :: "nat option \<Rightarrow> io_pool \<Rightarrow> io_pool" where
  "io_stop caller p =
     p\<lparr>io_running := False, io_workers := [], io_work_guard := False, io_loop_stopped := True,
       io_joining := (caller, filter (\<lambda>w. Some w \<noteq> caller) (io_workers p)) # io_joining p\<rparr>"

subsection \<open>Interleavings\<close>

text \<open>A worker ends when it has left the event loop and is not inside a call of
  \<^verbatim>\<open>stop\<close>; a call of \<^verbatim>\<open>stop\<close> returns when the threads it joins have ended.\<close>

inductive io_step :: "io_pool \<Rightarrow> io_pool \<Rightarrow> bool" where
  begin_run: "io_main p = Not_run \<Longrightarrow> io_step p (run_begin p)"
| spawn: "io_main p = Spawning i \<Longrightarrow> i < unat (io_thread_count p) \<Longrightarrow> io_step p (run_spawn i p)"
| wait_begins: "io_main p = Spawning i \<Longrightarrow> \<not> i < unat (io_thread_count p) \<Longrightarrow> io_step p (p\<lparr>io_main := Waiting\<rparr>)"
| wake: "io_main p = Waiting \<Longrightarrow> wait_over p \<Longrightarrow> io_step p (p\<lparr>io_main := Returned\<rparr>)"
| stop_worker: "w \<in> io_alive p \<Longrightarrow> Some w \<notin> fst ` set (io_joining p) \<Longrightarrow> io_step p (io_stop (Some w) p)"
| stop_other: "io_step p (io_stop None p)"
| worker_ends: "w \<in> io_alive p \<Longrightarrow> io_loop_stopped p \<or> \<not> io_work_guard p \<Longrightarrow> Some w \<notin> fst ` set (io_joining p) \<Longrightarrow>
    io_step p (p\<lparr>io_alive := io_alive p - {w}\<rparr>)"
| stop_returns: "(c, ws) \<in> set (io_joining p) \<Longrightarrow> set ws \<inter> io_alive p = {} \<Longrightarrow>
    io_step p (p\<lparr>io_joining := remove1 (c, ws) (io_joining p)\<rparr>)"

inductive_cases io_stepE: "io_step p p'"

definition io_reach :: "32 word \<Rightarrow> io_pool \<Rightarrow> bool" where
  "io_reach n p \<longleftrightarrow> io_step\<^sup>*\<^sup>* (IoContext n) p"

lemmas io_defs = run_begin_def run_spawn_def io_stop_def wait_over_def

text \<open>Before the first \<^verbatim>\<open>stop\<close> the loop runs, the guard holds it, no worker ends and
  \<^verbatim>\<open>run\<close> does not return.\<close>

definition before_stop :: "io_pool \<Rightarrow> bool" where
  "before_stop p \<longleftrightarrow>
     (\<not> io_loop_stopped p \<longrightarrow>
        io_work_guard p \<and> io_joining p = [] \<and> io_alive p = {..<io_spawned p} \<and>
        io_workers p = [0..<io_spawned p] \<and> io_main p \<noteq> Returned \<and> (io_running p \<longleftrightarrow> io_main p \<noteq> Not_run))"

lemma before_stop_ops:
  "io_main p = Not_run \<Longrightarrow> before_stop p \<Longrightarrow> before_stop (run_begin p)"
  "io_main p = Spawning i \<Longrightarrow> before_stop p \<Longrightarrow> before_stop (run_spawn i p)"
  "io_main p = Spawning i \<Longrightarrow> before_stop p \<Longrightarrow> before_stop (p\<lparr>io_main := Waiting\<rparr>)"
  "io_main p = Waiting \<Longrightarrow> \<not> io_running p \<Longrightarrow> before_stop p \<Longrightarrow> before_stop (p\<lparr>io_main := Returned\<rparr>)"
  "before_stop (io_stop c p)"
  "io_loop_stopped p \<Longrightarrow> before_stop (p\<lparr>io_alive := A\<rparr>)"
  "io_joining p \<noteq> [] \<Longrightarrow> before_stop p \<Longrightarrow> before_stop (p\<lparr>io_joining := js\<rparr>)"
  by (simp_all add: before_stop_def run_begin_def run_spawn_def io_stop_def lessThan_Suc)

lemma before_stop_step:
  assumes "io_step p p'" and "before_stop p" shows "before_stop p'"
  using assms(1)
proof (cases rule: io_step.cases)
  case (worker_ends w)
  then have "io_loop_stopped p" using assms(2) unfolding before_stop_def by blast
  then show ?thesis unfolding worker_ends(1) by (rule before_stop_ops)
next
  case (stop_returns c ws)
  then have "io_joining p \<noteq> []" by auto
  then show ?thesis unfolding stop_returns(1) using assms(2) by (rule before_stop_ops)
qed (use assms(2) before_stop_ops in \<open>simp_all add: wait_over_def\<close>)

lemma reach_before_stop: "io_reach n p \<Longrightarrow> before_stop p"
  unfolding io_reach_def
proof (induction rule: rtranclp_induct)
  case base
  show ?case by (simp add: before_stop_def IoContext_def)
next
  case (step p p')
  then show ?case using before_stop_step by blast
qed

text \<open>The main thread gets to the end of \<^verbatim>\<open>run\<close> on its own once \<^verbatim>\<open>running_\<close> is
  false: the rest of the workers is started and the wait is over at once.\<close>

lemma run_returns_from:
  "io_main p = Spawning i \<Longrightarrow> \<not> io_running p \<Longrightarrow> i + k = unat (io_thread_count p) \<Longrightarrow>
   \<exists>p'. io_step\<^sup>*\<^sup>* p p' \<and> io_main p' = Returned"
proof (induction k arbitrary: i p)
  case 0
  let ?q = "p\<lparr>io_main := Waiting\<rparr>"
  have "io_step p ?q" using 0 by (intro wait_begins) auto
  moreover have "io_step ?q (?q\<lparr>io_main := Returned\<rparr>)" using 0 by (intro wake) (auto simp: wait_over_def)
  ultimately show ?case by (intro exI [of _ "?q\<lparr>io_main := Returned\<rparr>"]) (simp add: converse_rtranclp_into_rtranclp)
next
  case (Suc k)
  have s: "io_step p (run_spawn i p)" using Suc.prems by (intro spawn) auto
  moreover obtain p' where "io_step\<^sup>*\<^sup>* (run_spawn i p) p'" "io_main p' = Returned"
    using Suc.IH [of "run_spawn i p" "Suc i"] Suc.prems by (auto simp: run_spawn_def)
  ultimately show ?case by (meson converse_rtranclp_into_rtranclp)
qed

subsection \<open>Properties\<close>

lemma run_returns_only_after_stop:
  assumes "io_reach n p" and "io_main p = Returned" shows "io_loop_stopped p"
  using reach_before_stop [OF assms(1)] assms(2) by (auto simp: before_stop_def)

text \<open>What holds in every state after \<^verbatim>\<open>run\<close> has begun and \<^verbatim>\<open>stop\<close> was
  called, whatever the threads do.\<close>

definition going_down :: "io_pool \<Rightarrow> bool" where
  "going_down p \<longleftrightarrow> io_main p \<noteq> Not_run \<and> \<not> io_running p \<and>
     (\<forall>i. io_main p = Spawning i \<longrightarrow> i \<le> unat (io_thread_count p))"

lemma going_down_step:
  assumes "io_step p p'" and "going_down p" shows "going_down p'"
  using assms(1)
  by (cases rule: io_step.cases) (use assms(2) in \<open>simp_all add: going_down_def run_spawn_def io_stop_def\<close>)

lemma going_down_returns: "going_down p \<Longrightarrow> \<exists>p'. io_step\<^sup>*\<^sup>* p p' \<and> io_main p' = Returned"
proof (cases "io_main p")
  case (Spawning i)
  assume "going_down p"
  with Spawning have "\<not> io_running p" "i + (unat (io_thread_count p) - i) = unat (io_thread_count p)"
    by (simp_all add: going_down_def)
  from run_returns_from [OF Spawning this] show ?thesis .
next
  case Waiting
  assume "going_down p"
  then have "io_step p (p\<lparr>io_main := Returned\<rparr>)" using Waiting by (intro wake) (simp_all add: going_down_def wait_over_def)
  then show ?thesis by (intro exI [of _ "p\<lparr>io_main := Returned\<rparr>"]) (simp add: r_into_rtranclp)
qed (auto simp: going_down_def)

lemma spawning_bound:
  assumes "io_reach n p" shows "io_main p = Spawning i \<Longrightarrow> i \<le> unat (io_thread_count p)"
  using assms unfolding io_reach_def
proof (induction arbitrary: i rule: rtranclp_induct)
  case (step p p')
  from step.hyps(2) step.IH step.prems show ?case
    by (cases rule: io_step.cases) (auto simp: io_defs)
qed (simp add: IoContext_def)

text \<open>A call of \<^verbatim>\<open>stop\<close> while \<^verbatim>\<open>run\<close> is in progress ends it: whatever the
  threads do after the call, \<^verbatim>\<open>run\<close> can still return by steps of its own.\<close>

theorem stop_ends_run:
  assumes "io_reach n p" and "io_main p \<noteq> Not_run" and "io_step\<^sup>*\<^sup>* (io_stop caller p) q"
  shows "\<exists>q'. io_step\<^sup>*\<^sup>* q q' \<and> io_main q' = Returned"
proof -
  have "going_down (io_stop caller p)"
    using assms(2) spawning_bound [OF assms(1)] by (simp add: going_down_def io_stop_def)
  with assms(3) have "going_down q" by (induction rule: rtranclp_induct) (auto dest: going_down_step)
  then show ?thesis by (rule going_down_returns)
qed

lemma stop_ends_run_witness:
  "\<exists>q'. io_step\<^sup>*\<^sup>* (io_stop None (run_begin (IoContext 4))) q' \<and> io_main q' = Returned"
proof -
  have "io_step (IoContext 4) (run_begin (IoContext 4))" by (rule begin_run) (simp add: IoContext_def)
  then have "io_reach 4 (run_begin (IoContext 4))" by (simp add: io_reach_def r_into_rtranclp)
  from stop_ends_run [OF this _ rtranclp.rtrancl_refl] show ?thesis by (simp add: run_begin_def)
qed

text \<open>A \<^verbatim>\<open>stop\<close> that comes before \<^verbatim>\<open>run\<close> is lost: \<^verbatim>\<open>run\<close>
  sets \<^verbatim>\<open>running_\<close> again, and only another call of \<^verbatim>\<open>stop\<close> ends it.\<close>

lemma running_until_stop:
  assumes "io_step p p'" and "io_running p" and "io_main p \<noteq> Returned"
  shows "(\<exists>c. p' = io_stop c p) \<or> io_running p' \<and> io_main p' \<noteq> Returned"
  using assms(1) by (cases rule: io_step.cases) (use assms(2,3) in \<open>auto simp: run_begin_def run_spawn_def wait_over_def\<close>)

lemma early_stop_is_lost: "io_running (run_begin (io_stop c (IoContext n)))"
  by (simp add: run_begin_def)

text \<open>C40: \<^verbatim>\<open>run\<close> does not wait for the workers: with the four threads of the main program, when
  one of them calls \<^verbatim>\<open>stop\<close>, \<^verbatim>\<open>run\<close> can return while all four are alive.\<close>

theorem run_returns_before_the_workers_end:
  "\<exists>p. io_reach 4 p \<and> io_main p = Returned \<and> io_alive p = {0, 1, 2, 3} \<and> io_workers p = []"
proof -
  have c: "unat (io_thread_count (IoContext 4)) = 4" by (simp add: IoContext_def)
  let ?p1 = "run_begin (IoContext 4)"
  let ?p2 = "run_spawn 1 (run_spawn 0 ?p1)"
  let ?p3 = "run_spawn 3 (run_spawn 2 ?p2)"
  let ?p4 = "?p3\<lparr>io_main := Waiting\<rparr>"
  let ?p5 = "io_stop (Some 0) ?p4"
  let ?p6 = "?p5\<lparr>io_main := Returned\<rparr>"
  note d = run_begin_def run_spawn_def io_stop_def wait_over_def
  have f: "io_thread_count ?p1 = io_thread_count (IoContext 4)" by (simp add: run_begin_def)
  have "io_step (IoContext 4) ?p1" by (rule begin_run) (simp add: IoContext_def)
  moreover have "io_step ?p1 (run_spawn 0 ?p1)" by (rule spawn) (simp_all add: run_begin_def c)
  moreover have "io_step (run_spawn 0 ?p1) ?p2" by (rule spawn) (simp_all add: d c)
  moreover have "io_step ?p2 (run_spawn 2 ?p2)" by (rule spawn) (simp_all add: d c)
  moreover have "io_step (run_spawn 2 ?p2) ?p3" by (rule spawn) (simp_all add: d c)
  moreover have "io_step ?p3 ?p4" by (rule wait_begins [of _ 4]) (simp_all add: d c)
  moreover have "io_step ?p4 ?p5" by (rule stop_worker) (simp_all add: d IoContext_def)
  moreover have "io_step ?p5 ?p6" by (rule wake) (simp_all add: d)
  ultimately have "io_reach 4 ?p6" unfolding io_reach_def by (meson converse_rtranclp_into_rtranclp rtranclp.rtrancl_refl)
  moreover have "io_main ?p6 = Returned" "io_alive ?p6 = {0, 1, 2, 3}" "io_workers ?p6 = []"
    by (auto simp: d IoContext_def)
  ultimately show ?thesis by blast
qed

end
