(* ===== verification/Startup.thy ===== *)
theory Startup
  imports Call_Path Icscf Mongo_Client Io_Context
begin

section \<open>The main programs (allinone/main.cpp, p-cscf/main.cpp, i-cscf/main.cpp, s-cscf/main.cpp)\<close>

text \<open>
  Each program loads its configuration, opens the clients of the database it needs, creates its services,
  starts them in order and runs the event loop until a signal; a step that fails ends it with exit code 1.
  The stages that can fail are a list here, one per program; what the database and the sockets answer is
  in the stages.  While the loop runs, handlers use the clients of the database; an exception that leaves a
  handler leaves a thread, which ends the process on the spot, and so does one in a constructor, as
  \<^verbatim>\<open>main\<close> catches nothing.  Objects local to \<^verbatim>\<open>main\<close> are destroyed only when it
  returns: the clients of the database, the last one opened first.  The handlers are over by then in
  this model; that a worker may still be inside one is the matter of \<open>run_returns_before_the_workers_end\<close>.
\<close>

subsection \<open>The logger (common/logger.cpp)\<close>

text \<open>The levels and their names are spdlog's: \<open>from_str\<close> is its function.  The logger there is, by its
  name and level, and whether \<^verbatim>\<open>get_logger\<close> was called.\<close>

record 'l logging =
  lg_logger :: "(string \<times> 'l) option"
  lg_once :: bool

definition parse_log_level :: "(string \<Rightarrow> 'l) \<Rightarrow> 'l \<Rightarrow> 'l \<Rightarrow> string \<Rightarrow> 'l" where
  "parse_log_level from_str warn err level0 =
     (let level = lowercase level0 in
      if level = ''warn'' \<or> level = ''warning'' then warn
      else if level = ''err'' \<or> level = ''error'' then err
      else from_str level)"

definition init_logger :: "(string \<Rightarrow> 'l) \<Rightarrow> string \<Rightarrow> 'l \<Rightarrow> 'l \<Rightarrow> string \<Rightarrow> 'l logging \<Rightarrow> 'l logging" where
  "init_logger from_str name warn err level g =
     g\<lparr>lg_logger := Some (name, parse_log_level from_str warn err level)\<rparr>"

definition get_logger :: "(string \<Rightarrow> 'l) \<Rightarrow> 'l \<Rightarrow> 'l \<Rightarrow> 'l logging \<Rightarrow> 'l logging \<times> (string \<times> 'l)" where
  "get_logger from_str warn err g =
     (let g1 = (if lg_once g then g
                else (if lg_logger g = None then init_logger from_str ''ims'' warn err ''info'' g else g)\<lparr>lg_once := True\<rparr>)
      in (g1, the (lg_logger g1)))"

text \<open>There is a logger whenever one is asked for, and the one the program set up is not replaced.\<close>

definition logger_ok :: "'l logging \<Rightarrow> bool" where
  "logger_ok g \<longleftrightarrow> (lg_once g \<longrightarrow> lg_logger g \<noteq> None)"

lemma get_logger_finds_one:
  assumes "logger_ok g"
  shows "lg_logger (fst (get_logger from_str warn err g)) = Some (snd (get_logger from_str warn err g))"
    "logger_ok (fst (get_logger from_str warn err g))"
    "lg_logger g = Some l \<Longrightarrow> snd (get_logger from_str warn err g) = l"
  using assms by (auto simp: get_logger_def logger_ok_def init_logger_def Let_def)

subsection \<open>Stages\<close>

datatype stage =
    Open create_env
  | Construct "string option"
  | Start "unit result"








subsection \<open>The services\<close>

definition core_entry_addr :: "PcscfConfig \<Rightarrow> string" where
  "core_entry_addr cfg =
     (if se_address (pc_core_entry cfg) = ''0.0.0.0'' then ''127.0.0.1'' else se_address (pc_core_entry cfg))"

text \<open>The P-CSCF gets the stub of the PCF and the relay client, in its own program and in the single one.\<close>

definition pcscf_of_main :: "ImsConfig \<Rightarrow> pcscf_params" where
  "pcscf_of_main cfg =
     \<lparr>pp_config = cfg_pcscf cfg, pp_core_addr = core_entry_addr (cfg_pcscf cfg),
      pp_core_port = se_port (pc_core_entry (cfg_pcscf cfg)), pp_relay = True, pp_pcf = True\<rparr>"

text \<open>The S-CSCF gets the credentials in the database, an empty store and the notifier over eXosip.\<close>

definition scscf_of_main :: "ImsConfig \<Rightarrow> credential_store \<Rightarrow> 'h \<Rightarrow> 'h scscf" where
  "scscf_of_main cfg digest_store hss = ScscfService (cfg_scscf cfg) (Some digest_store) [] hss"

text \<open>The number of threads of the S-CSCF; the other programs have four, two (I-CSCF) and four (P-CSCF).\<close>

definition scscf_threads :: "32 word \<Rightarrow> 32 word" where
  "scscf_threads hardware_concurrency = (if hardware_concurrency = 0 then 8 else hardware_concurrency)"

lemma scscf_pool_has_threads: "io_thread_count (IoContext (scscf_threads n)) \<noteq> 0"
  by (simp add: IoContext_def max_def scscf_threads_def)

subsection \<open>The programs\<close>

text \<open>The constructor of the relay client throws when the relay's host is not an address or there is no
  socket; \<open>relay\<close> is that exception.\<close>

definition pcscf_stages :: "string option \<Rightarrow> dual_env \<Rightarrow> stage list" where
  "pcscf_stages relay sockets = [Construct relay, Start (snd (stack_start sockets (SipStack :: unit sip_stack)))]"


definition scscf_started :: "ImsConfig \<Rightarrow> credential_store \<Rightarrow> exosip_start_env \<Rightarrow> dual_env \<Rightarrow> unit result" where
  "scscf_started cfg digest_store xenv sockets =
     fst (snd (snd (scscf_start xenv sockets (cfg_scscf cfg) (scscf_of_main cfg digest_store ())
       (ExosipContext (sc_exosip (cfg_scscf cfg))) SipStack)))"

definition scscf_stages ::
  "create_env \<Rightarrow> create_env \<Rightarrow> credential_store \<Rightarrow> exosip_start_env \<Rightarrow> dual_env \<Rightarrow> ImsConfig \<Rightarrow> stage list" where
  "scscf_stages repository digest digest_store xenv sockets cfg =
     [Open repository, Open digest, Start (scscf_started cfg digest_store xenv sockets)]"


subsection \<open>Properties\<close>

















text \<open>A request that comes from where the P-CSCF sends to is one of the core, in the default configuration.\<close>

lemma default_core_is_core_facing:
  "isCoreFacingRequest (pcscf_of_main default_config) (core_entry (pcscf_of_main default_config))"
  by (simp add: core_entry_def pcscf_of_main_def core_entry_addr_def default_config_def default_core_def
      isCoreFacingRequest_def endpoint_matches_def udp_if_empty_def Let_def)

text \<open>The defaults do not fit the single program: its three servers would listen at the same port, and the
  core entry of the P-CSCF is not where the S-CSCF listens.\<close>

lemma default_ports_collide:
  "pc_listen_port (cfg_pcscf default_config) = sc_listen_port (cfg_scscf default_config)"
  "ic_listen_port (cfg_icscf default_config) = sc_listen_port (cfg_scscf default_config)"
  "pp_core_port (pcscf_of_main default_config) \<noteq> sc_listen_port (cfg_scscf default_config)"
  by (simp_all add: pcscf_of_main_def default_config_def default_core_def)

end
