(* ===== verification/Dns_Resolver.thy ===== *)
theory Dns_Resolver
  imports Cpp_Std "HOL-Library.Product_Lexorder"
begin

section \<open>The DNS resolver (dns/resolver.cpp)\<close>

text \<open>
  Location of a SIP server: NAPTR, then SRV, then A records.  c-ares is not part of the repository:
  the record \<open>dns\<close> gives, for each type and name, the status of the query and the records the library
  parses out of the reply (\<open>None\<close> when it does not parse), as they are during one resolution.  A
  channel that could not be initialised is \<open>None\<close>.  \<^verbatim>\<open>std::sort\<close> leaves the order of
  equivalent records open; here they keep the order of the reply.
\<close>

type_synonym u16 = "16 word"

record AddressRecord =
  ad_hostname :: string
  ad_address :: string
  ad_ttl :: "32 word"

record SrvRecord =
  sr_service :: string
  sr_priority :: u16
  sr_weight :: u16
  sr_port :: u16
  sr_target :: string
  sr_ttl :: "32 word"

record NaptrRecord =
  np_order :: u16
  np_preference :: u16
  np_flags :: string
  np_service :: string
  np_regexp :: string
  np_replacement :: string
  np_ttl :: "32 word"

record SipRouteResult =
  rt_address :: string
  rt_port :: u16
  rt_transport :: string

text \<open>What the library parses: the name and the printed addresses of a host, and the fields of the
  records; a null name is \<open>None\<close>.\<close>

record dns =
  Q_a :: "string \<Rightarrow> int \<times> (string option \<times> string list) option"
  Q_aaaa :: "string \<Rightarrow> int \<times> (string option \<times> string list) option"
  Q_srv :: "string \<Rightarrow> int \<times> (u16 \<times> u16 \<times> u16 \<times> string option) list option"
  Q_naptr :: "string \<Rightarrow> int \<times> (u16 \<times> u16 \<times> string \<times> string \<times> string \<times> string option) list option"
  Q_strerror :: "int \<Rightarrow> string"

definition ARES_SUCCESS :: int where
  "ARES_SUCCESS = 0"

definition name_or_empty :: "string option \<Rightarrow> string" where
  "name_or_empty n = (case n of None \<Rightarrow> [] | Some s \<Rightarrow> s)"

subsection \<open>Initialisation\<close>

record ResolverConfig =
  rv_servers :: "string list"
  rv_timeout_ms :: "32 word"
  rv_tries :: "32 word"

fun servers_csv :: "string list \<Rightarrow> string" where
  "servers_csv [] = []"
| "servers_csv [s] = s"
| "servers_csv (s # t # ss) = s @ '','' @ servers_csv (t # ss)"

text \<open>The statuses of the two calls, and the timeout and number of tries the channel gets; a failed
  \<^verbatim>\<open>ares_set_servers_csv\<close> is only logged.\<close>

definition dns_init ::
  "(int \<Rightarrow> string) \<Rightarrow> int \<Rightarrow> (32 word \<Rightarrow> 32 word \<Rightarrow> int) \<Rightarrow> ResolverConfig \<Rightarrow> string option result" where
  "dns_init strerror library_status channel_status cfg =
     (if library_status \<noteq> ARES_SUCCESS
      then Inl (mk_error kDnsResolveFailed ''Failed to init c-ares library'' (strerror library_status))
      else
        (let status = channel_status (rv_timeout_ms cfg) (rv_tries cfg) in
         if status \<noteq> ARES_SUCCESS
         then Inl (mk_error kDnsResolveFailed ''Failed to init ares channel'' (strerror status))
         else Inr (if rv_servers cfg \<noteq> [] then Some (servers_csv (rv_servers cfg)) else None)))"

text \<open>The constructor only logs a failed initialisation; \<open>channel\<close> is what the library hands out.\<close>

definition DnsResolver ::
  "(int \<Rightarrow> string) \<Rightarrow> int \<Rightarrow> (32 word \<Rightarrow> 32 word \<Rightarrow> int) \<Rightarrow> dns \<Rightarrow> ResolverConfig \<Rightarrow> dns option" where
  "DnsResolver strerror library_status channel_status channel cfg =
     (case dns_init strerror library_status channel_status cfg of Inl e \<Rightarrow> None | Inr servers \<Rightarrow> Some channel)"

datatype ares_call = Ares_destroy | Ares_library_cleanup

definition dns_destroy :: "dns option \<Rightarrow> ares_call list" where
  "dns_destroy channel = (if channel \<noteq> None then [Ares_destroy] else []) @ [Ares_library_cleanup]"

subsection \<open>The poll loop\<close>

text \<open>The state of a channel and of the network behind it is a value \<open>'c\<close>: \<open>AP_fds\<close> is
  \<^verbatim>\<open>ares_fds\<close> (the bound of the descriptors in use and the two sets), \<open>AP_process\<close> what
  waiting with \<^verbatim>\<open>select\<close> and \<^verbatim>\<open>ares_process\<close> make of it.  A wait that does not
  end is \<open>None\<close>.\<close>

record 'c ares_poll =
  AP_fds :: "'c \<Rightarrow> nat \<times> (nat \<Rightarrow> bool) \<times> (nat \<Rightarrow> bool)"
  AP_process :: "'c \<Rightarrow> 'c"

partial_function (option) waitForCompletion :: "'c ares_poll \<Rightarrow> 'c \<Rightarrow> 'c option" where
  "waitForCompletion poll c =
     (if fst (AP_fds poll c) = 0 then Some c else waitForCompletion poll (AP_process poll c))"

definition processEvents :: "'c ares_poll \<Rightarrow> 'c option \<Rightarrow> 'c option" where
  "processEvents poll channel =
     (case channel of
        None \<Rightarrow> None
      | Some c \<Rightarrow> Some (if 0 < fst (AP_fds poll c) then AP_process poll c else c))"

definition getActiveSockets :: "'c ares_poll \<Rightarrow> 'c option \<Rightarrow> nat list" where
  "getActiveSockets poll channel =
     (case channel of
        None \<Rightarrow> []
      | Some c \<Rightarrow> (let (nfds, read_fds, write_fds) = AP_fds poll c in filter (\<lambda>i. read_fds i \<or> write_fds i) [0..<nfds]))"

lemma wait_returns:
  "fst (AP_fds poll ((AP_process poll ^^ n) c)) = 0 \<Longrightarrow>
   \<exists>k \<le> n. waitForCompletion poll c = Some ((AP_process poll ^^ k) c)"
proof (induction n arbitrary: c)
  case 0
  then show ?case by (simp add: waitForCompletion.simps [of poll c])
next
  case (Suc n)
  show ?case
  proof (cases "fst (AP_fds poll c) = 0")
    case True
    then show ?thesis by (intro exI [of _ 0]) (simp add: waitForCompletion.simps [of poll c])
  next
    case False
    from Suc.prems have "fst (AP_fds poll ((AP_process poll ^^ n) (AP_process poll c))) = 0"
      by (simp add: funpow_Suc_right del: funpow.simps)
    from Suc.IH [OF this] obtain k where "k \<le> n"
        "waitForCompletion poll (AP_process poll c) = Some ((AP_process poll ^^ k) (AP_process poll c))" by blast
    with False show ?thesis
      by (intro exI [of _ "Suc k"]) (simp add: waitForCompletion.simps [of poll c] funpow_Suc_right del: funpow.simps)
  qed
qed

lemma wait_idle:
  assumes "waitForCompletion poll c = Some d"
  shows "\<exists>n. d = (AP_process poll ^^ n) c \<and> fst (AP_fds poll d) = 0"
proof (rule waitForCompletion.raw_induct
    [where P = "\<lambda>(poll :: 'a ares_poll) c d. \<exists>n. d = (AP_process poll ^^ n) c \<and> fst (AP_fds poll d) = 0", OF _ assms])
  fix wait :: "'a ares_poll \<Rightarrow> 'a \<Rightarrow> 'a option" and poll :: "'a ares_poll" and c d
  assume IH: "\<And>poll c d. wait poll c = Some d \<Longrightarrow> \<exists>n. d = (AP_process poll ^^ n) c \<and> fst (AP_fds poll d) = 0"
    and w: "(if fst (AP_fds poll c) = 0 then Some c else wait poll (AP_process poll c)) = Some d"
  show "\<exists>n. d = (AP_process poll ^^ n) c \<and> fst (AP_fds poll d) = 0"
  proof (cases "fst (AP_fds poll c) = 0")
    case True
    with w show ?thesis by (intro exI [of _ 0]) auto
  next
    case False
    with w have "wait poll (AP_process poll c) = Some d" by simp
    from IH [OF this] obtain n where "d = (AP_process poll ^^ n) (AP_process poll c)" "fst (AP_fds poll d) = 0" by blast
    then show ?thesis by (intro exI [of _ "Suc n"]) (simp add: funpow_Suc_right del: funpow.simps)
  qed
qed

text \<open>The wait ends exactly when some number of rounds leaves the channel without descriptors.\<close>

theorem wait_ends_iff_channel_drains:
  "waitForCompletion poll c \<noteq> None \<longleftrightarrow> (\<exists>n. fst (AP_fds poll ((AP_process poll ^^ n) c)) = 0)"
  using wait_returns [of poll _ c] wait_idle [of poll c] by blast

subsection \<open>The callbacks\<close>

definition host_records :: "(string option \<times> string list) option \<Rightarrow> AddressRecord list" where
  "host_records host =
     (case host of
        None \<Rightarrow> []
      | Some (name, addrs) \<Rightarrow>
          map (\<lambda>ip. \<lparr>ad_hostname = name_or_empty name, ad_address = ip, ad_ttl = 300\<rparr>) addrs)"

definition aCallback :: "int \<Rightarrow> (string option \<times> string list) option \<Rightarrow> AddressRecord list" where
  "aCallback status host = (if status \<noteq> ARES_SUCCESS then [] else host_records host)"

definition aaaaCallback :: "int \<Rightarrow> (string option \<times> string list) option \<Rightarrow> AddressRecord list" where
  "aaaaCallback status host = (if status \<noteq> ARES_SUCCESS then [] else host_records host)"

definition srvCallback :: "int \<Rightarrow> (u16 \<times> u16 \<times> u16 \<times> string option) list option \<Rightarrow> SrvRecord list" where
  "srvCallback status reply =
     (if status \<noteq> ARES_SUCCESS then []
      else (case reply of
              None \<Rightarrow> []
            | Some rs \<Rightarrow>
                map (\<lambda>(priority, weight, port, host).
                       \<lparr>sr_service = [], sr_priority = priority, sr_weight = weight, sr_port = port,
                        sr_target = name_or_empty host, sr_ttl = 300\<rparr>) rs))"

definition naptrCallback ::
  "int \<Rightarrow> (u16 \<times> u16 \<times> string \<times> string \<times> string \<times> string option) list option \<Rightarrow> NaptrRecord list" where
  "naptrCallback status reply =
     (if status \<noteq> ARES_SUCCESS then []
      else (case reply of
              None \<Rightarrow> []
            | Some rs \<Rightarrow>
                map (\<lambda>(order, preference, flags, service, regexp, replacement).
                       \<lparr>np_order = order, np_preference = preference, np_flags = flags, np_service = service,
                        np_regexp = regexp, np_replacement = name_or_empty replacement, np_ttl = 300\<rparr>) rs))"

subsection \<open>The queries\<close>

definition dns_failed :: "string \<Rightarrow> string \<Rightarrow> ErrorInfo" where
  "dns_failed message detail = mk_error kDnsResolveFailed message detail"

definition not_initialized :: ErrorInfo where
  "not_initialized = dns_failed ''DNS resolver not initialized'' []"

definition resolveA :: "dns option \<Rightarrow> string \<Rightarrow> AddressRecord list result" where
  "resolveA channel hostname =
     (case channel of
        None \<Rightarrow> Inl not_initialized
      | Some D \<Rightarrow>
          (let (status, host) = Q_a D hostname; addresses = aCallback status host in
           if status \<noteq> ARES_SUCCESS
           then Inl (dns_failed (''A record lookup failed for '' @ hostname) (Q_strerror D status))
           else if addresses = [] then Inl (mk_error kDnsNoRecords (''No A records found for '' @ hostname) [])
           else Inr addresses))"

definition resolveAAAA :: "dns option \<Rightarrow> string \<Rightarrow> AddressRecord list result" where
  "resolveAAAA channel hostname =
     (case channel of
        None \<Rightarrow> Inl not_initialized
      | Some D \<Rightarrow>
          (let (status, host) = Q_aaaa D hostname in
           if status \<noteq> ARES_SUCCESS
           then Inl (dns_failed (''AAAA record lookup failed for '' @ hostname) (Q_strerror D status))
           else Inr (aaaaCallback status host)))"

text \<open>By priority ascending, then by weight descending.\<close>

definition srv_key :: "SrvRecord \<Rightarrow> int \<times> int" where
  "srv_key r = (uint (sr_priority r), - uint (sr_weight r))"

definition resolveSRV :: "dns option \<Rightarrow> string \<Rightarrow> SrvRecord list result" where
  "resolveSRV channel service =
     (case channel of
        None \<Rightarrow> Inl not_initialized
      | Some D \<Rightarrow>
          (let (status, reply) = Q_srv D service in
           if status \<noteq> ARES_SUCCESS
           then Inl (dns_failed (''SRV lookup failed for '' @ service) (Q_strerror D status))
           else Inr (sort_key srv_key (srvCallback status reply))))"

definition naptr_key :: "NaptrRecord \<Rightarrow> int \<times> int" where
  "naptr_key r = (uint (np_order r), uint (np_preference r))"

definition resolveNAPTR :: "dns option \<Rightarrow> string \<Rightarrow> NaptrRecord list result" where
  "resolveNAPTR channel domain =
     (case channel of
        None \<Rightarrow> Inl not_initialized
      | Some D \<Rightarrow>
          (let (status, reply) = Q_naptr D domain in
           if status \<noteq> ARES_SUCCESS
           then Inl (dns_failed (''NAPTR lookup failed for '' @ domain) (Q_strerror D status))
           else Inr (sort_key naptr_key (naptrCallback status reply))))"

subsection \<open>The chain\<close>

definition found :: "'a list result \<Rightarrow> 'a list" where
  "found r = (case r of Inl _ \<Rightarrow> [] | Inr xs \<Rightarrow> xs)"

definition address_routes :: "dns option \<Rightarrow> string \<Rightarrow> u16 \<Rightarrow> string \<Rightarrow> SipRouteResult list" where
  "address_routes channel transport port host =
     map (\<lambda>addr. \<lparr>rt_address = ad_address addr, rt_port = port, rt_transport = transport\<rparr>)
       (found (resolveA channel host))"

definition srv_routes :: "dns option \<Rightarrow> string \<Rightarrow> string \<Rightarrow> SipRouteResult list" where
  "srv_routes channel transport service =
     concat (map (\<lambda>srv. address_routes channel transport (sr_port srv) (sr_target srv))
       (found (resolveSRV channel service)))"

definition target_service :: "string \<Rightarrow> string" where
  "target_service transport =
     (if transport = ''udp'' then ''SIP+D2U'' else if transport = ''tcp'' then ''SIP+D2T''
      else if transport = ''tls'' then ''SIPS+D2T'' else [])"

definition srv_name :: "string \<Rightarrow> string \<Rightarrow> string" where
  "srv_name transport domain =
     (if transport = ''udp'' then ''_sip._udp.'' @ domain else if transport = ''tcp'' then ''_sip._tcp.'' @ domain
      else if transport = ''tls'' then ''_sips._tcp.'' @ domain else [])"

definition naptr_routes :: "dns option \<Rightarrow> string \<Rightarrow> string \<Rightarrow> SipRouteResult list" where
  "naptr_routes channel transport domain =
     concat (map (\<lambda>naptr. if np_service naptr = target_service transport \<and> np_flags naptr = ''s''
                          then srv_routes channel transport (np_replacement naptr) else [])
       (found (resolveNAPTR channel domain)))"

definition resolveSipUri :: "dns option \<Rightarrow> string \<Rightarrow> string \<Rightarrow> SipRouteResult list result" where
  "resolveSipUri channel domain transport =
     (let results1 = naptr_routes channel transport domain in
      if results1 \<noteq> [] then Inr results1
      else
        (let results2 = srv_routes channel transport (srv_name transport domain) in
         if results2 \<noteq> [] then Inr results2
         else
           (let results3 = address_routes channel transport (if transport = ''tls'' then 5061 else 5060) domain in
            if results3 \<noteq> [] then Inr results3
            else Inl (mk_error kDnsNoRecords (''No SIP route found for '' @ domain) []))))"

subsection \<open>Properties\<close>

lemma resolveSRV_sorted:
  assumes "resolveSRV channel service = Inr srvs" shows "sorted_wrt (\<lambda>a b. srv_key a \<le> srv_key b) srvs"
proof (cases channel)
  case (Some D)
  obtain status reply where q: "Q_srv D service = (status, reply)" by (cases "Q_srv D service")
  have "srvs = sort_key srv_key (srvCallback status reply)"
    using assms by (simp add: resolveSRV_def Some q split: if_splits)
  then have "sorted (map srv_key srvs)" by (simp only: sorted_sort_key)
  then show ?thesis by (simp add: sorted_map)
qed (use assms in \<open>simp add: resolveSRV_def\<close>)

text \<open>Hosts without A records are never found: when no name has an A record the resolution of every
  domain fails, whatever NAPTR, SRV and AAAA records there are.\<close>

theorem ipv6_only_hosts_are_not_found:
  assumes "\<And>host. resolveA channel host = Inl (e host)"
  shows "resolveSipUri channel domain transport =
    Inl (mk_error kDnsNoRecords (''No SIP route found for '' @ domain) [])"
proof -
  have a: "address_routes channel transport port host = []" for port host
    unfolding address_routes_def assms found_def by simp
  have b: "srv_routes channel transport s = []" for s
    unfolding srv_routes_def a by simp
  have "naptr_routes channel transport domain = []"
    unfolding naptr_routes_def b by simp
  then show ?thesis unfolding resolveSipUri_def Let_def a b by simp
qed

text \<open>The routes found through SRV records are tried in the order of their records: all addresses of
  a record that comes first by priority, and by weight among equal priorities, come before those of a
  later record, each with the port of its record.\<close>

theorem srv_routes_in_order:
  assumes "naptr_routes channel transport domain = []" and "resolveSipUri channel domain transport = Inr routes"
    and "resolveSRV channel (srv_name transport domain) = Inr srvs"
    and "srv_routes channel transport (srv_name transport domain) \<noteq> []"
  shows "routes = concat (map (\<lambda>s. address_routes channel transport (sr_port s) (sr_target s)) srvs) \<and>
    sorted_wrt (\<lambda>a b. sr_priority a < sr_priority b \<or> sr_priority a = sr_priority b \<and> sr_weight b \<le> sr_weight a) srvs"
proof
  show "routes = concat (map (\<lambda>s. address_routes channel transport (sr_port s) (sr_target s)) srvs)"
    using assms by (auto simp: resolveSipUri_def srv_routes_def found_def Let_def)
  have "srv_key a \<le> srv_key b \<Longrightarrow>
      sr_priority a < sr_priority b \<or> sr_priority a = sr_priority b \<and> sr_weight b \<le> sr_weight a" for a b
    by (auto simp: srv_key_def less_eq_prod_def word_less_def word_le_def word_uint_eq_iff)
  with resolveSRV_sorted [OF assms(3)]
  show "sorted_wrt (\<lambda>a b. sr_priority a < sr_priority b \<or> sr_priority a = sr_priority b \<and> sr_weight b \<le> sr_weight a) srvs"
    by (rule sorted_wrt_mono_rel [rotated])
qed

definition demo_dns :: dns where
  "demo_dns = \<lparr>Q_a = (\<lambda>n. if n = ''b.example'' then (0, Some (Some n, [''192.0.2.2''])) else (4, None)),
     Q_aaaa = (\<lambda>n. (0, Some (Some n, [''2001:db8::1'']))),
     Q_srv = (\<lambda>n. (0, Some [(20, 0, 5070, Some ''b.example''), (10, 0, 5060, Some ''c.example'')])),
     Q_naptr = (\<lambda>n. (4, None)), Q_strerror = (\<lambda>s. [])\<rparr>"

lemma ipv6_only_hosts_are_not_found_witness:
  "resolveSipUri (Some (demo_dns\<lparr>Q_a := (\<lambda>n. (4, None))\<rparr>)) ''example'' ''udp'' =
     Inl (mk_error kDnsNoRecords (''No SIP route found for '' @ ''example'') [])"
  by (rule ipv6_only_hosts_are_not_found [where e = "\<lambda>h. dns_failed (''A record lookup failed for '' @ h) []"])
    (simp add: resolveA_def ARES_SUCCESS_def demo_dns_def)

lemma srv_routes_in_order_witness:
  "resolveSipUri (Some demo_dns) ''example'' ''udp'' =
     Inr [\<lparr>rt_address = ''192.0.2.2'', rt_port = 5070, rt_transport = ''udp''\<rparr>]"
proof -
  let ?s = "[\<lparr>sr_service = [], sr_priority = 10, sr_weight = 0, sr_port = 5060, sr_target = ''c.example'', sr_ttl = 300\<rparr>,
    \<lparr>sr_service = [], sr_priority = 20, sr_weight = 0, sr_port = 5070, sr_target = ''b.example'', sr_ttl = 300\<rparr>]"
  have n: "naptr_routes (Some demo_dns) ''udp'' ''example'' = []"
    by (simp add: naptr_routes_def resolveNAPTR_def demo_dns_def found_def ARES_SUCCESS_def)
  have s: "resolveSRV (Some demo_dns) (srv_name ''udp'' ''example'') = Inr ?s"
    by (simp add: resolveSRV_def demo_dns_def srvCallback_def name_or_empty_def ARES_SUCCESS_def srv_key_def)
  have r: "concat (map (\<lambda>s. address_routes (Some demo_dns) ''udp'' (sr_port s) (sr_target s)) ?s) =
      [\<lparr>rt_address = ''192.0.2.2'', rt_port = 5070, rt_transport = ''udp''\<rparr>]"
    by (simp add: address_routes_def resolveA_def demo_dns_def found_def aCallback_def host_records_def ARES_SUCCESS_def
        name_or_empty_def)
  then have ne: "srv_routes (Some demo_dns) ''udp'' (srv_name ''udp'' ''example'') \<noteq> []"
    by (simp add: srv_routes_def s found_def)
  then obtain routes where "resolveSipUri (Some demo_dns) ''example'' ''udp'' = Inr routes"
    by (simp add: resolveSipUri_def n)
  with srv_routes_in_order [OF n this s ne] r show ?thesis by simp
qed

end
