(* ===== verification/Spec2Isabelle.thy ===== *)
theory Spec2Isabelle
  imports Milenage_Vectors Transport Startup Dns_Resolver
begin

text \<open>
  SimIMS is an IP Multimedia Subsystem: three SIP servers that register terminals and route their
  calls.  This library models its C++ sources (\<^verbatim>\<open>src/\<close> of the repository) and proves
  what its parts guarantee, and what they do not.

  \<^bold>\<open>The program.\<close>  A terminal talks to the P-CSCF (\<^verbatim>\<open>p-cscf/\<close>), which hides the
  core behind topology tokens and anchors the media at a relay (\<^verbatim>\<open>rtp/\<close>).  It sends
  requests to its core entry, an S-CSCF or the I-CSCF (\<^verbatim>\<open>i-cscf/\<close>), which asks the HSS
  (\<^verbatim>\<open>diameter/\<close>, \<^verbatim>\<open>db/\<close>) for the S-CSCF of the user.  The S-CSCF (\<^verbatim>\<open>s-cscf/\<close>)
  authenticates registrations, keeps them in a store and routes calls between registered terminals.
  All three stand on one SIP stack (\<^verbatim>\<open>sip/\<close>): transports, a transaction layer and the
  forwarding functions of a proxy.

  \<^bold>\<open>Theories, from the bottom up.\<close>

  \<^item> \<open>Cpp_Std\<close>: byte strings, the functions of the C++ standard library the sources use
    (\<^verbatim>\<open>find\<close>, \<^verbatim>\<open>substr\<close>, \<^verbatim>\<open>stoul\<close>,
    \<^verbatim>\<open>format\<close>, \<dots>), exceptions as values, and the error type of
    \<^verbatim>\<open>common/types.hpp\<close>.  \<open>Umap\<close>: hash tables as lists of entries, with the
    laws of \<open>key_value_store\<close> that every table below relies on.
  \<^item> \<open>Osip\<close>: the public structs of libosip2 and the record \<open>osip_lib\<close> of its functions, which
    are parameters.  \<open>Uri_Utils\<close>: \<^verbatim>\<open>sip/uri_utils.cpp\<close>.  \<open>Sip_Message\<close>:
    \<^verbatim>\<open>sip/message.cpp\<close>, with removal from the linked lists of headers as the code does it.
  \<^item> \<open>Transaction\<close>: \<^verbatim>\<open>sip/transaction.cpp\<close>.  Transactions are objects of a heap, timers
    fields of them; timers, messages and calls of the layer are the steps of \<open>layer_step\<close>.
    \<open>Transport\<close>: \<^verbatim>\<open>sip/transport.cpp\<close>, the framing of a byte stream and the table
    of TCP connections.  \<open>Proxy_Core\<close>: \<^verbatim>\<open>sip/proxy_core.cpp\<close>.  \<open>Sip_Stack\<close>:
    \<^verbatim>\<open>sip/stack.cpp\<close>, the wiring of the three.
  \<^item> \<open>Memory_Store\<close>: \<^verbatim>\<open>sip/store.hpp\<close> and \<^verbatim>\<open>sip/memory_store.cpp\<close>,
    behind the contract \<open>registration_store\<close>.
  \<^item> \<open>Milenage\<close>, \<open>Milenage_Vectors\<close>: \<^verbatim>\<open>crypt/\<close> and its agreement with the published
    test data.  \<open>Aka_Vector\<close>: \<^verbatim>\<open>diameter/types.hpp\<close> and
    \<^verbatim>\<open>aka_vector_builder.cpp\<close>.  \<open>Subscriber_Repo\<close>: the document codec and the
    repository of \<^verbatim>\<open>db/\<close>.  \<open>Hss_Clients\<close>: the stub and the MongoDB client of
    \<^verbatim>\<open>diameter/\<close>, both instances of the contract \<open>hss_client\<close>.
  \<^item> \<open>Auth_Manager\<close>, \<open>Auth_Providers\<close>, \<open>Registrar\<close>, \<open>Session_Router\<close>, \<open>Scscf\<close>: the files of
    \<^verbatim>\<open>s-cscf/\<close>.  Both providers are instances of the contract \<open>auth_provider\<close>.
    \<open>Reg_Event\<close>: \<^verbatim>\<open>sip/reg_event_notifier.cpp\<close> and
    \<^verbatim>\<open>sip/exosip_context.cpp\<close>.
  \<^item> \<open>Icscf\<close>: \<^verbatim>\<open>i-cscf/\<close>.
  \<^item> \<open>Bencode\<close>, \<open>Media_Session\<close>, \<open>Rtpengine\<close>: the files of \<^verbatim>\<open>rtp/\<close>.
    \<open>Rx_Client\<close>: the Rx types and the stub of the PCF in \<^verbatim>\<open>diameter/rx_client.cpp\<close>.
    \<open>Pcscf\<close>: \<^verbatim>\<open>p-cscf/pcscf_service.cpp\<close>.
  \<^item> \<open>Config\<close>: \<^verbatim>\<open>common/config.hpp\<close> and \<^verbatim>\<open>config.cpp\<close>.  \<open>Dns_Resolver\<close>:
    \<^verbatim>\<open>dns/resolver.cpp\<close>, which no server calls.
  \<^item> \<open>Mongo_Client\<close>: \<^verbatim>\<open>db/mongo_client.cpp\<close>, the clients of the database and the life of
    its driver as sequences of calls.  \<open>Io_Context\<close>: \<^verbatim>\<open>common/io_context.cpp\<close>, the thread
    pool as a step relation over the main thread, the workers and the callers of \<^verbatim>\<open>stop\<close>.
  \<^item> \<open>Call_Path\<close>: the servers composed.  The output of one is the input of the next: registration
    through the P-CSCF, a call between two terminals with its answer, and its BYE.  \<open>Startup\<close>: the four
    programs \<^verbatim>\<open>allinone/main.cpp\<close>, \<^verbatim>\<open>p-cscf/main.cpp\<close>,
    \<^verbatim>\<open>i-cscf/main.cpp\<close>, \<^verbatim>\<open>s-cscf/main.cpp\<close>, and the logger.
\<close>

text \<open>
  \<^bold>\<open>How the code is rendered.\<close>  A class is a record of its fields and each member function a
  function on it; an operation under a mutex is one step.  A handler returns the new state, the list
  of the actions it takes in order (messages to send, commands, callbacks) and the exception it leaves
  with, if any.  A callback that the code registers with a lambda is an operation of its own that takes
  the values the lambda captured.  What the environment decides is an argument, fixed before the call
  or collected in an environment record: clock readings, random tags, branches and nonces, the results
  of sending, the answers of the media relay.  Integers that wrap are words.  Objects shared through
  \<^verbatim>\<open>shared_ptr\<close> are indices into a heap.

  \<^bold>\<open>Parameters.\<close>  What is not in the repository is an argument of the definitions that use it:
  libosip2 (\<open>osip_lib\<close>), the MD5 digest (\<open>md5_fun\<close>), the documents of MongoDB (a collection of documents
  and its atomic update), YAML nodes (\<open>yaml\<close>), the canonical text of an IP address (\<open>canon\<close>), c-ares
  (\<open>dns\<close>) and eXosip (the results of its calls).  Properties that rely on documented behaviour of
  libosip2 say so with a named hypothesis (\<open>header_lookup_ok\<close>, \<open>clone_ok\<close>, \<open>init_ok\<close>, \<open>set_tag_ok\<close>,
  \<open>set_header_ok\<close>, \<open>record_route_ok\<close>, \<open>via_keeps_branch\<close>, \<open>setters_ok\<close>, \<open>set_header_appends\<close>); the witnesses use a concrete instance.

  \<^bold>\<open>Loops and bounds.\<close>  The bencode decoder takes fuel; twice the length of the input plus one is
  enough when no declared string length wraps the position (\<open>bencode_decode_ends\<close>).  The read loop of a TCP connection takes one unit per byte of its
  buffer and says when the loop of the code would not end (\<open>negative_length_hangs_the_reader\<close>).
  \<open>advanceSqn\<close> has the five retries of the code.  A transaction retransmits at most ten times before
  Timer B stops it, so the shift that doubles the interval stays in its 32 bits
  (\<open>retransmissions_are_bounded\<close>).  The poll loop of the DNS resolver is a partial function; it ends exactly
  when the channel drains (\<open>wait_ends_iff_channel_drains\<close>).  Sizes and positions are unbounded naturals except where the code
  depends on the width: the bencode lengths, sequence numbers, counters and ports are words.
\<close>

text \<open>
  \<^bold>\<open>What is shown.\<close>

  \<^item> Registration: a new contact is left only by a registration that was verified or that refreshes a
    live contact, while removal is not authenticated at all; each acceptance consumes a
    challenge; challenges carry a sequence number that was taken from the HSS by a compare-and-swap;
    a holder of the secret is accepted; and on the whole service a subscriber that registers in two
    round trips can then be called at its contact.
  \<^item> Calls: an INVITE of one terminal reaches the other through P-CSCF, S-CSCF and P-CSCF, and its answer
    comes back along the same path with the Via of the caller only; a BYE of the callee takes the way back
    to the caller; in-dialog requests in both directions
    reach the other party; forwarding spends a hop; a CANCEL of the S-CSCF follows its INVITE,
    and that of the P-CSCF does not.
  \<^item> SIP layers: tables and objects of the transaction layer agree in every reachable state, nothing
    follows a final response, retransmissions are absorbed and bounded, every client transaction drains,
    and the framing of a stream does not depend on how it is cut into segments.
  \<^item> Media: the life of a media session, one teardown per session that was filed, replies of the relay reach the
    request they belong to, a BYE releases the relay session, and the codec round trip.
  \<^item> Programs: every program uses the database driver only while it is up, initialises it at most once,
    and has cleaned it up whenever \<^verbatim>\<open>main\<close> returns, whichever stage of its start
    fails and whatever its handlers do; a process that an exception ends leaves it as it is;
    \<^verbatim>\<open>stop\<close> ends \<^verbatim>\<open>run\<close> whatever the
    threads do, but \<^verbatim>\<open>run\<close> does not wait for the workers.
  \<^item> Cryptography: the block cipher is a permutation and the functions conform to the test data.

  Where the code does less than it promises the property states what it does, and the text before it
  names the consequence.

  \<^bold>\<open>Not modelled.\<close>  Parsing and printing of SIP messages, YAML, DNS packets and MongoDB documents,
  which are libraries'; what the log says; the options and descriptors of sockets; the destructors, beyond
  the calls of \<^verbatim>\<open>stop\<close> and the release of database clients; the administration tools, the web
  interface and the tests of the repository.  Interleavings of threads are modelled where the code shares
  state across critical sections (the table of pending relay requests, the subscriber counter, the thread
  pool); a handler of a service runs as one step, so races between handlers are not.
\<close>

end
